(* ===== verification/Prelude.thy ===== *)
theory Prelude
  imports Main "HOL-Library.Word" "HOL-Library.Multiset" "HOL-Library.AList"
    "HOL-Library.Char_ord" "HOL-Library.List_Lexorder"
begin

text \<open>
  Shared vocabulary of the development: Go's three ways to leave a function (a value, an error
  return, a panic) as one datatype with its sequencing operators; the parts of Go's \<open>strings\<close> and
  \<open>fmt\<close> packages the program uses; Go maps that the program iterates over, as association lists
  whose iteration order is an argument; and the generic lemmas the component theories rest on.
  \<^item> \<open>go_error\<close>: an error value. The text of an error is kept as the constant part of its format
    string; wrapping with \<open>%w\<close> is the constructor \<open>Wrap\<close>, so the classification of an error
    (not found, conflict) sees through wrapping as \<open>errors.As\<close> does.
  \<^item> \<open>'a outcome\<close>: \<open>Val\<close> a normal return, \<open>Fail\<close> a returned non-nil error, \<open>Panic\<close> a run-time panic.
  \<^item> \<open>is_order\<close>: Go leaves the iteration order of a map open, so every loop over a map takes
    a function that orders the entries, and every theorem holds for each such function.
\<close>

section \<open>Collections of facts\<close>

named_theorems outcome_simps \<open>case analysis on the result of a sequence of fallible steps\<close>
named_theorems gostring_simps \<open>evaluation of the string operations\<close>

section \<open>Errors, panics and their sequencing\<close>

datatype go_error =
    NotFound
  | Conflict
  | Other string
  | Wrap string go_error
  | Joined "go_error list"

datatype go_panic = NilDereference | IndexOutOfRange | TypeAssertion

datatype 'a outcome = Val 'a | Fail go_error | Panic go_panic

fun IsNotFound :: "go_error \<Rightarrow> bool" where
  "IsNotFound NotFound = True"
| "IsNotFound (Wrap _ e) = IsNotFound e"
| "IsNotFound _ = False"

fun IsConflict :: "go_error \<Rightarrow> bool" where
  "IsConflict Conflict = True"
| "IsConflict (Wrap _ e) = IsConflict e"
| "IsConflict _ = False"

definition errors_Join :: "go_error option list \<Rightarrow> go_error option" where
  "errors_Join es = (let errs = List.map_filter id es in if errs = [] then None else Some (Joined errs))"

fun obind :: "'a outcome \<Rightarrow> ('a \<Rightarrow> 'b outcome) \<Rightarrow> 'b outcome" where
  "obind (Val x) f = f x"
| "obind (Fail e) f = Fail e"
| "obind (Panic p) f = Panic p"

fun of_result :: "string \<Rightarrow> 'a \<times> go_error option \<Rightarrow> 'a outcome" where
  "of_result msg (x, None) = Val x"
| "of_result msg (x, Some e) = Fail (Wrap msg e)"

fun deref :: "'a option \<Rightarrow> 'a outcome" where
  "deref None = Panic NilDereference"
| "deref (Some x) = Val x"

fun index :: "'a list \<Rightarrow> nat \<Rightarrow> 'a outcome" where
  "index [] n = Panic IndexOutOfRange"
| "index (x # xs) 0 = Val x"
| "index (x # xs) (Suc n) = index xs n"

text \<open>A \<open>for\<close> loop whose body may return early with an error or panic.\<close>

fun for_each :: "('a \<Rightarrow> 's \<Rightarrow> 's outcome) \<Rightarrow> 'a list \<Rightarrow> 's \<Rightarrow> 's outcome" where
  "for_each body [] s = Val s"
| "for_each body (x # xs) s = obind (body x s) (for_each body xs)"

text \<open>The same loop when each round only appends to its result.\<close>

fun collect :: "('a \<Rightarrow> 'b list outcome) \<Rightarrow> 'a list \<Rightarrow> 'b list outcome" where
  "collect body [] = Val []"
| "collect body (x # xs) = obind (body x) (\<lambda>ys. obind (collect body xs) (\<lambda>zs. Val (ys @ zs)))"

lemma obind_Val_iff [outcome_simps]: "obind m f = Val y \<longleftrightarrow> (\<exists>x. m = Val x \<and> f x = Val y)"
  by (cases m) auto

lemma obind_Fail_iff [outcome_simps]:
  "obind m f = Fail e \<longleftrightarrow> m = Fail e \<or> (\<exists>x. m = Val x \<and> f x = Fail e)"
  by (cases m) auto

lemma obind_Panic_iff [outcome_simps]:
  "obind m f = Panic p \<longleftrightarrow> m = Panic p \<or> (\<exists>x. m = Val x \<and> f x = Panic p)"
  by (cases m) auto

lemma obind_assoc: "obind (obind m f) g = obind m (\<lambda>x. obind (f x) g)"
  by (cases m) auto

lemma of_result_Val_iff [outcome_simps]: "of_result msg r = Val x \<longleftrightarrow> r = (x, None)"
  by (cases r; cases "snd r") auto

lemma of_result_not_Panic [simp]: "of_result msg r \<noteq> Panic p"
  by (cases r; cases "snd r") auto

lemma deref_Val_iff [outcome_simps]: "deref x = Val y \<longleftrightarrow> x = Some y"
  by (cases x) auto

lemma index_Val_iff [outcome_simps]: "index xs n = Val x \<longleftrightarrow> n < length xs \<and> xs ! n = x"
  by (induction xs n rule: index.induct) auto

lemma index_not_Fail [simp]: "index xs n \<noteq> Fail e"
  by (induction xs n rule: index.induct) auto

lemma index_Panic_iff [simp]: "index xs n = Panic p \<longleftrightarrow> p = IndexOutOfRange \<and> length xs \<le> n"
  by (induction xs n rule: index.induct) auto

lemma for_each_append: "for_each body (xs @ ys) s = obind (for_each body xs s) (for_each body ys)"
proof (induction xs arbitrary: s)
  case Nil
  show ?case by simp
next
  case (Cons x xs)
  then show ?case by (cases "body x s") simp_all
qed

lemma for_each_invariant:
  assumes "for_each body xs s = Val t" and "I s"
    and "\<And>x s t. x \<in> set xs \<Longrightarrow> I s \<Longrightarrow> body x s = Val t \<Longrightarrow> I t"
  shows "I t"
  using assms by (induction xs arbitrary: s) (auto simp: outcome_simps)

lemma collect_Nils [simp]: "collect (\<lambda>x. Val []) xs = Val []"
  by (induction xs) auto

lemma collect_Val_set:
  assumes "collect body xs = Val ys"
  shows "y \<in> set ys \<longleftrightarrow> (\<exists>x \<in> set xs. \<exists>zs. body x = Val zs \<and> y \<in> set zs)"
  using assms by (induction xs arbitrary: ys) (auto simp: outcome_simps)

lemma collect_Ball:
  assumes "collect body xs = Val ys" and "\<And>x zs. x \<in> set xs \<Longrightarrow> body x = Val zs \<Longrightarrow> \<forall>z \<in> set zs. P z"
  shows "\<forall>y \<in> set ys. P y"
  using assms(2) by (auto simp: collect_Val_set [OF assms(1)])

lemma collect_Val_all: "collect body xs = Val ys \<Longrightarrow> x \<in> set xs \<Longrightarrow> \<exists>zs. body x = Val zs"
  by (induction xs arbitrary: ys) (auto simp: outcome_simps)

lemma collect_total: "(\<And>x. x \<in> set xs \<Longrightarrow> \<exists>zs. body x = Val zs) \<Longrightarrow> \<exists>ys. collect body xs = Val ys"
  by (induction xs) fastforce+

lemma collect_Val: "(\<And>x. x \<in> set xs \<Longrightarrow> body x = Val (f x)) \<Longrightarrow> collect body xs = Val (concat (map f xs))"
  by (induction xs) auto

lemma for_each_Panic:
  assumes "x \<in> set xs" and "\<And>s. body x s = Panic p"
    and "\<And>y s. y \<in> set xs \<Longrightarrow> (\<exists>t. body y s = Val t) \<or> body y s = Panic p"
  shows "for_each body xs s = Panic p"
  using assms
proof (induction xs arbitrary: s)
  case Nil
  then show ?case by simp
next
  case (Cons y ys)
  consider "body y s = Panic p" | t where "body y s = Val t" "x \<noteq> y"
    using Cons.prems by (metis list.set_intros(1) outcome.distinct(3))
  then show ?case
  proof cases
    case 1
    then show ?thesis by simp
  next
    case 2
    with Cons show ?thesis by simp
  qed
qed

lemma collect_Panic:
  assumes "x \<in> set xs" and "body x = Panic p"
    and "\<And>y. y \<in> set xs \<Longrightarrow> (\<exists>zs. body y = Val zs) \<or> body y = Panic p"
  shows "collect body xs = Panic p"
  using assms
proof (induction xs)
  case Nil
  then show ?case by simp
next
  case (Cons y ys)
  show ?case
  proof (cases "body y = Panic p")
    case True
    then show ?thesis by simp
  next
    case False
    with Cons.prems obtain zs where "body y = Val zs" and "x \<in> set ys" by auto
    with Cons show ?thesis by simp
  qed
qed

lemma collect_Val_or_Panic:
  "(\<And>y. y \<in> set xs \<Longrightarrow> (\<exists>zs. body y = Val zs) \<or> body y = Panic p) \<Longrightarrow>
   (\<exists>zs. collect body xs = Val zs) \<or> collect body xs = Panic p"
  by (induction xs) fastforce+

lemma for_each_Val_or_Panic:
  "(\<And>y s. y \<in> set xs \<Longrightarrow> (\<exists>t. body y s = Val t) \<or> body y s = Panic p) \<Longrightarrow>
   (\<exists>t. for_each body xs s = Val t) \<or> for_each body xs s = Panic p"
proof (induction xs arbitrary: s)
  case Nil
  then show ?case by simp
next
  case (Cons y ys)
  have "(\<exists>t. body y s = Val t) \<or> body y s = Panic p" using Cons.prems by simp
  moreover have "(\<exists>t. for_each body ys s' = Val t) \<or> for_each body ys s' = Panic p" for s'
    using Cons.IH Cons.prems by simp
  ultimately show ?case by (metis for_each.simps(2) obind.simps(1,3))
qed

section \<open>Strings\<close>

fun strings_Split :: "char \<Rightarrow> string \<Rightarrow> string list" where
  "strings_Split sep [] = [[]]"
| "strings_Split sep (c # cs) =
     (if c = sep then [] # strings_Split sep cs
      else (case strings_Split sep cs of [] \<Rightarrow> [[c]] | w # ws \<Rightarrow> (c # w) # ws))"

fun strings_Join :: "string list \<Rightarrow> string \<Rightarrow> string" where
  "strings_Join [] sep = []"
| "strings_Join [w] sep = w"
| "strings_Join (w # v # ws) sep = w @ sep @ strings_Join (v # ws) sep"

fun strings_HasPrefix :: "string \<Rightarrow> string \<Rightarrow> bool" where
  "strings_HasPrefix s [] = True"
| "strings_HasPrefix [] (c # cs) = False"
| "strings_HasPrefix (d # ds) (c # cs) = (d = c \<and> strings_HasPrefix ds cs)"

lemma strings_Split_not_Nil [simp]: "strings_Split sep s \<noteq> []"
  by (induction s) (auto split: list.splits)

lemma strings_Split_no_sep: "sep \<notin> set s \<Longrightarrow> strings_Split sep s = [s]"
  by (induction s) auto

lemma strings_Split_append:
  "sep \<notin> set s \<Longrightarrow> strings_Split sep (s @ sep # t) = s # strings_Split sep t"
  by (induction s) auto

lemma length_strings_Split: "length (strings_Split sep s) = Suc (count_list s sep)"
  by (induction s) (auto split: list.splits)

lemma strings_HasPrefix_iff: "strings_HasPrefix s p \<longleftrightarrow> (\<exists>t. s = p @ t)"
  by (induction s p rule: strings_HasPrefix.induct) auto

lemma strings_Join_Cons: "ws \<noteq> [] \<Longrightarrow> strings_Join (w # ws) sep = w @ sep @ strings_Join ws sep"
  by (cases ws) auto

lemma Join_Split_replace:
  "strings_Join (strings_Split a s) [b] = map (\<lambda>c. if c = a then b else c) s"
proof (induction s)
  case Nil
  show ?case by simp
next
  case (Cons c s)
  obtain w ws where split: "strings_Split a s = w # ws"
    by (cases "strings_Split a s") auto
  with Cons.IH show ?case
    by (cases ws) (auto simp: strings_Join_Cons)
qed

section \<open>Decimal formatting of integers\<close>

definition digit :: "nat \<Rightarrow> char" where
  "digit d = char_of (48 + d)"

fun fmt_nat :: "nat \<Rightarrow> string" where
  "fmt_nat n = (if n < 10 then [digit n] else fmt_nat (n div 10) @ [digit (n mod 10)])"

declare fmt_nat.simps [simp del]

text \<open>\<open>%d\<close> applied to a \<open>uint32\<close> and to an \<open>int32\<close>.\<close>

definition fmt_uint32 :: "32 word \<Rightarrow> string" where
  "fmt_uint32 w = fmt_nat (unat w)"

definition fmt_int32 :: "32 word \<Rightarrow> string" where
  "fmt_int32 w = (if sint w < 0 then CHR ''-'' # fmt_nat (nat (- sint w)) else fmt_nat (nat (sint w)))"

definition is_digit :: "char \<Rightarrow> bool" where
  "is_digit c \<longleftrightarrow> 48 \<le> (of_char c :: nat) \<and> (of_char c :: nat) \<le> 57"

definition digit_value :: "char \<Rightarrow> nat" where
  "digit_value c = of_char c - 48"

definition decimal_value :: "string \<Rightarrow> nat" where
  "decimal_value s = foldl (\<lambda>n c. 10 * n + digit_value c) 0 s"

lemma digit_value_digit [simp]: "d < 10 \<Longrightarrow> digit_value (digit d) = d"
  by (simp add: digit_value_def digit_def)

lemma decimal_value_fmt_nat [simp]: "decimal_value (fmt_nat n) = n"
proof (induction n rule: fmt_nat.induct)
  case (1 n)
  then show ?case
    by (subst fmt_nat.simps) (auto simp: decimal_value_def)
qed

lemma fmt_nat_inject [simp]: "fmt_nat m = fmt_nat n \<longleftrightarrow> m = n"
  by (metis decimal_value_fmt_nat)

lemma digit_in_range: "d < 10 \<Longrightarrow> 48 \<le> (of_char (digit d) :: nat) \<and> (of_char (digit d) :: nat) < 58"
  by (simp add: digit_def)

lemma fmt_nat_range: "c \<in> set (fmt_nat n) \<Longrightarrow> 48 \<le> (of_char c :: nat) \<and> (of_char c :: nat) < 58"
proof (induction n rule: fmt_nat.induct)
  case (1 n)
  then show ?case
    by (subst (asm) (2) fmt_nat.simps) (auto split: if_splits simp: digit_in_range)
qed

lemma fmt_nat_no_dot: "CHR ''.'' \<notin> set (fmt_nat n)" and fmt_nat_no_dash: "CHR ''-'' \<notin> set (fmt_nat n)"
  using fmt_nat_range by fastforce+

lemma sint_nonneg_uint: "0 \<le> sint (w :: 32 word) \<Longrightarrow> sint w = uint w"
proof -
  assume "0 \<le> sint w"
  moreover have "sint w < 2 ^ 32"
    using sint_lt [of w] by simp
  ultimately have "take_bit 32 (sint w) = sint w"
    by (rule take_bit_int_eq_self)
  then show ?thesis
    by (simp only: uint_sint) simp
qed

lemma fmt_int32_nonneg: "0 \<le> sint w \<Longrightarrow> fmt_int32 w = fmt_uint32 w"
proof -
  assume nonneg: "0 \<le> sint w"
  have "nat (sint w) = unat w"
    by (simp only: sint_nonneg_uint [OF nonneg] nat_uint_eq)
  with nonneg show ?thesis
    by (simp add: fmt_int32_def fmt_uint32_def)
qed

lemmas decimal_simps = fmt_uint32_def fmt_int32_def fmt_nat.simps digit_def

section \<open>Go maps that are iterated over\<close>

definition is_order :: "('a list \<Rightarrow> 'a list) \<Rightarrow> bool" where
  "is_order ord \<longleftrightarrow> (\<forall>xs. mset (ord xs) = mset xs)"

lemma is_order_id [simp]: "is_order (\<lambda>xs. xs)" and is_order_rev [simp]: "is_order rev"
  by (auto simp: is_order_def)

lemma is_order_set: "is_order ord \<Longrightarrow> set (ord xs) = set xs"
  by (metis is_order_def set_mset_mset)

text \<open>The map a loop builds by assigning each element under its key: the last one wins.\<close>

definition index_by :: "('a \<Rightarrow> 'k) \<Rightarrow> 'a list \<Rightarrow> ('k \<times> 'a) list" where
  "index_by key xs = fold (\<lambda>x m. AList.update (key x) x m) xs []"

lemma index_by_snoc: "index_by key (xs @ [x]) = AList.update (key x) x (index_by key xs)"
  by (simp add: index_by_def)

lemma distinct_index_by: "distinct (map fst (index_by key xs))"
  by (induction xs rule: rev_induct) (auto simp: index_by_snoc distinct_update index_by_def)

lemma keys_index_by: "fst ` set (index_by key xs) = key ` set xs"
  by (induction xs rule: rev_induct) (auto simp: index_by_snoc dom_update index_by_def)

lemma index_by_keyed: "(k, x) \<in> set (index_by key xs) \<Longrightarrow> x \<in> set xs \<and> key x = k"
proof (induction xs rule: rev_induct)
  case Nil
  then show ?case by (simp add: index_by_def)
next
  case (snoc y ys)
  have "map_of (index_by key (ys @ [y])) k = Some x"
    using snoc.prems distinct_index_by by (metis map_of_is_SomeI)
  then have "((map_of (index_by key ys))(key y \<mapsto> y)) k = Some x"
    by (simp add: index_by_snoc update_conv')
  then show ?case
    using snoc.IH by (auto split: if_splits dest: map_of_SomeD)
qed

lemma map_of_index_by_distinct:
  "distinct (map key xs) \<Longrightarrow> x \<in> set xs \<Longrightarrow> map_of (index_by key xs) (key x) = Some x"
proof (induction xs rule: rev_induct)
  case Nil
  then show ?case by simp
next
  case (snoc y ys)
  then show ?case
    by (cases "x = y") (auto simp: index_by_snoc update_conv' rev_image_eqI)
qed

lemma update_fresh: "k \<notin> fst ` set m \<Longrightarrow> AList.update k v m = m @ [(k, v)]"
  by (induction m) auto

lemma index_by_distinct: "distinct (map key xs) \<Longrightarrow> index_by key xs = map (\<lambda>x. (key x, x)) xs"
proof (induction xs rule: rev_induct)
  case Nil
  show ?case by (simp add: index_by_def)
next
  case (snoc x xs)
  then show ?case by (simp add: index_by_snoc update_fresh image_image)
qed

lemma map_of_index_by_in: "k \<in> key ` set xs \<Longrightarrow> \<exists>x \<in> set xs. map_of (index_by key xs) k = Some x \<and> key x = k"
proof -
  assume "k \<in> key ` set xs"
  then have "k \<in> fst ` set (index_by key xs)" by (simp add: keys_index_by)
  then obtain x where "map_of (index_by key xs) k = Some x"
    by (metis map_of_eq_None_iff not_Some_eq)
  then show ?thesis
    by (auto dest!: map_of_SomeD index_by_keyed)
qed

lemma set_update_subset: "set (AList.update k v m) \<subseteq> insert (k, v) (set m)"
  by (induction m) auto

lemma map_of_index_by_None: "map_of (index_by key xs) k = None \<longleftrightarrow> k \<notin> key ` set xs"
  by (simp add: map_of_eq_None_iff keys_index_by)

end
