(* ===== verification/Config.thy ===== *)
theory Config
  imports Prelude
begin

text \<open>
  The configuration of the controller, \<open>internal/pkg/config\<close>: the structs of
  \<open>federation_config.go\<close> as records (a pointer field is an \<open>option\<close>, a \<open>uint32\<close> a 32-bit word, a
  label map a partial function), their methods, and \<open>PodNamespace\<close> of \<open>cluster.go\<close>, which reads the
  process environment and one file, both arguments here.
\<close>

type_synonym labels = "string \<rightharpoonup> string"

section \<open>Structs\<close>

record GatewayPort =
  gp_Name :: string
  gp_Number :: "32 word"

record GatewayPorts =
  gps_DataPlane :: "32 word"
  gps_Discovery :: "32 word"

record LocalGateway =
  lg_Selector :: labels
  lg_Port :: "GatewayPort option"

record Gateways =
  gws_Ingress :: LocalGateway

record ControlPlane =
  cp_Namespace :: string

type_synonym IngressType = string

definition Istio :: IngressType where
  "Istio = ''istio''"

definition OpenShiftRouter :: IngressType where
  "OpenShiftRouter = ''openshift-router''"

record Local =
  local_Name :: string
  local_ControlPlane :: ControlPlane
  local_Gateways :: Gateways
  local_IngressType :: IngressType

record Remote =
  remote_Name :: string
  remote_Addresses :: "string list"
  remote_IngressType :: IngressType
  remote_Port :: "32 word option"
  remote_Network :: string

record MeshPeers =
  mp_Local :: Local
  mp_Remotes :: "Remote list"

record MatchExpressions =
  me_Key :: string
  me_Operator :: string
  me_Values :: "string list"

record LabelSelectors =
  ls_MatchLabels :: labels
  ls_MatchExpressions :: "MatchExpressions list"

record Rules =
  rules_Type :: string
  rules_LabelSelectors :: "LabelSelectors list"

record ExportedServiceSet =
  ess_Rules :: "Rules list"

record ImportedServiceSet =
  iss_Rules :: "Rules list"

record Federation =
  fed_namespace :: string
  fed_MeshPeers :: MeshPeers
  fed_ExportedServiceSet :: ExportedServiceSet
  fed_ImportedServiceSet :: ImportedServiceSet

section \<open>Methods\<close>

definition defaultGatewayPort :: "32 word" where
  "defaultGatewayPort = 15443"

definition ServiceName :: "Remote \<Rightarrow> string" where
  "ServiceName r = ''federation-discovery-service-'' @ remote_Name r"

definition ServiceFQDN :: "Remote \<Rightarrow> string" where
  "ServiceFQDN r = ServiceName r @ ''.istio-system.svc.cluster.local''"

definition ServicePort :: "Remote \<Rightarrow> 32 word" where
  "ServicePort r = 15080"

definition GetPort :: "Remote option \<Rightarrow> 32 word" where
  "GetPort r = (case r of Some r' \<Rightarrow> (case remote_Port r' of Some p \<Rightarrow> p | None \<Rightarrow> defaultGatewayPort)
                        | None \<Rightarrow> defaultGatewayPort)"

fun any_openshift_router :: "Remote list \<Rightarrow> bool" where
  "any_openshift_router [] = False"
| "any_openshift_router (remote # remotes) =
     (if remote_IngressType remote = OpenShiftRouter then True else any_openshift_router remotes)"

definition AnyRemotePeerWithOpenshiftRouterIngress :: "MeshPeers \<Rightarrow> bool" where
  "AnyRemotePeerWithOpenshiftRouterIngress m = any_openshift_router (mp_Remotes m)"

definition GetLabelSelectors :: "ExportedServiceSet option \<Rightarrow> LabelSelectors list" where
  "GetLabelSelectors s = (case s of
       None \<Rightarrow> []
     | Some s' \<Rightarrow> (case ess_Rules s' of [] \<Rightarrow> [] | rule # _ \<Rightarrow> rules_LabelSelectors rule))"

abbreviation export_selectors :: "Federation \<Rightarrow> LabelSelectors list" where
  "export_selectors cfg \<equiv> GetLabelSelectors (Some (fed_ExportedServiceSet cfg))"

abbreviation control_plane_namespace :: "Federation \<Rightarrow> string" where
  "control_plane_namespace cfg \<equiv> cp_Namespace (local_ControlPlane (mp_Local (fed_MeshPeers cfg)))"

abbreviation local_name :: "Federation \<Rightarrow> string" where
  "local_name cfg \<equiv> local_Name (mp_Local (fed_MeshPeers cfg))"

abbreviation local_ingress :: "Federation \<Rightarrow> LocalGateway" where
  "local_ingress cfg \<equiv> gws_Ingress (local_Gateways (mp_Local (fed_MeshPeers cfg)))"

abbreviation remotes_of :: "Federation \<Rightarrow> Remote list" where
  "remotes_of cfg \<equiv> mp_Remotes (fed_MeshPeers cfg)"

section \<open>The namespace of the controller\<close>

record process_env =
  env_LookupEnv :: "string \<Rightarrow> string option"
  env_ReadFile :: "string \<Rightarrow> string \<times> go_error option"

definition is_ascii_space :: "char \<Rightarrow> bool" where
  "is_ascii_space c \<longleftrightarrow> c \<in> {CHR '' '', CHR 0x09, CHR 0x0A, CHR 0x0B, CHR 0x0C, CHR 0x0D}"

definition strings_TrimSpace :: "string \<Rightarrow> string" where
  "strings_TrimSpace s = rev (dropWhile is_ascii_space (rev (dropWhile is_ascii_space s)))"

definition PodNamespace :: "process_env \<Rightarrow> string" where
  "PodNamespace env = (case env_LookupEnv env ''POD_NAMESPACE'' of
       Some ns \<Rightarrow> ns
     | None \<Rightarrow>
         (case env_ReadFile env ''/var/run/secrets/kubernetes.io/serviceaccount/namespace'' of
            (dat, None) \<Rightarrow>
              (let ns = strings_TrimSpace dat in if ns \<noteq> [] then ns else ''istio-system'')
          | (dat, Some err) \<Rightarrow> ''istio-system''))"

definition Namespace :: "process_env \<Rightarrow> Federation \<Rightarrow> string \<times> Federation" where
  "Namespace env f =
     (let f' = (if fed_namespace f = [] then f\<lparr>fed_namespace := PodNamespace env\<rparr> else f)
      in (fed_namespace f', f'))"

section \<open>Lemmas\<close>

lemma any_openshift_router_iff:
  "any_openshift_router rs \<longleftrightarrow> (\<exists>r \<in> set rs. remote_IngressType r = OpenShiftRouter)"
  by (induction rs) auto

lemma GetPort_Some [simp]:
  "remote_Port r = Some p \<Longrightarrow> GetPort (Some r) = p"
  "remote_Port r = None \<Longrightarrow> GetPort (Some r) = 15443"
  by (simp_all add: GetPort_def defaultGatewayPort_def)

lemma Istio_neq_OpenShiftRouter [simp]: "Istio \<noteq> OpenShiftRouter"
  by (simp add: Istio_def OpenShiftRouter_def)

text \<open>The first call fixes the namespace: later calls return it whatever the environment says.\<close>

lemma Namespace_cached:
  "fst (Namespace env f) \<noteq> [] \<Longrightarrow> Namespace env' (snd (Namespace env f)) = Namespace env f"
  by (auto simp: Namespace_def Let_def split: if_splits)

lemma Namespace_preserves:
  "fed_MeshPeers (snd (Namespace env f)) = fed_MeshPeers f"
  "fed_ExportedServiceSet (snd (Namespace env f)) = fed_ExportedServiceSet f"
  by (simp_all add: Namespace_def Let_def)

lemma dropWhile_idem_hd: "dropWhile P xs = [] \<or> \<not> P (hd (dropWhile P xs))"
  using hd_dropWhile by blast

lemma strings_TrimSpace_ends:
  assumes "strings_TrimSpace s \<noteq> []"
  shows "\<not> is_ascii_space (last (strings_TrimSpace s))"
  using assms hd_dropWhile [of is_ascii_space "rev (dropWhile is_ascii_space s)"]
  by (simp add: strings_TrimSpace_def last_rev)

end
