(* ===== verification/Networking.thy ===== *)
theory Networking
  imports Config
begin

text \<open>
  Address resolution, \<open>internal/pkg/networking/resolve.go\<close>. \<open>net.ParseIP\<close> of the standard library
  is modelled as the scanner it is (dotted IPv4 octets without leading zeros; IPv6 groups with one
  optional ellipsis and an optional trailing IPv4 part; a zone makes it fail); only whether it
  succeeds matters to the program. \<open>net.LookupIP\<close> asks the resolver of the host, so it is an argument
  \<open>lookupIP\<close> of \<open>Resolve\<close>, giving the addresses in the text form that \<open>IP.String\<close> prints, and an error.
\<close>

section \<open>net.ParseIP\<close>

definition is_hex :: "char \<Rightarrow> bool" where
  "is_hex c \<longleftrightarrow> is_digit c \<or> (97 \<le> (of_char c :: nat) \<and> (of_char c :: nat) \<le> 102)
     \<or> (65 \<le> (of_char c :: nat) \<and> (of_char c :: nat) \<le> 70)"

text \<open>
  The scan of the four octets: the previous character, the value, the position and the digit
  count of the current octet, and the rest of the input.
\<close>

fun parseIPv4Fields :: "char option \<Rightarrow> nat \<Rightarrow> nat \<Rightarrow> nat \<Rightarrow> string \<Rightarrow> bool" where
  "parseIPv4Fields prev val pos digLen [] = (3 \<le> pos)"
| "parseIPv4Fields prev val pos digLen (c # cs) =
     (if is_digit c then
        (if digLen = 1 \<and> val = 0 then False
         else let val' = val * 10 + digit_value c in
           if 255 < val' then False else parseIPv4Fields (Some c) val' pos (Suc digLen) cs)
      else if c = CHR ''.'' then
        (if prev = None \<or> cs = [] \<or> prev = Some (CHR ''.'') then False
         else if pos = 3 then False
         else parseIPv4Fields (Some c) 0 (Suc pos) 0 cs)
      else False)"

definition parseIPv4 :: "string \<Rightarrow> bool" where
  "parseIPv4 s = parseIPv4Fields None 0 0 0 s"

text \<open>
  The loop over the 16-bit groups: how many groups are still missing, whether an ellipsis was
  seen, and the rest of the input; \<open>None\<close> is a parse error.
\<close>

fun parseIPv6Groups :: "nat \<Rightarrow> bool \<Rightarrow> string \<Rightarrow> (nat \<times> bool \<times> string) option" where
  "parseIPv6Groups 0 ellipsis s = Some (0, ellipsis, s)"
| "parseIPv6Groups (Suc n) ellipsis s =
     (let h = takeWhile is_hex s; r = dropWhile is_hex s in
      if 4 < length h then None
      else if h = [] then None
      else (case r of
          [] \<Rightarrow> Some (n, ellipsis, [])
        | c # r' \<Rightarrow>
            if c = CHR ''.'' then
              (if \<not> ellipsis \<and> Suc n \<noteq> 2 then None
               else if Suc n < 2 then None
               else if parseIPv4Fields None 0 0 0 s then Some (Suc n - 2, ellipsis, []) else None)
            else if c \<noteq> CHR '':'' then None
            else (case r' of
                [] \<Rightarrow> None
              | d # r'' \<Rightarrow>
                  if d = CHR '':'' then
                    (if ellipsis then None
                     else if r'' = [] then Some (n, True, [])
                     else parseIPv6Groups n True r'')
                  else parseIPv6Groups n ellipsis r')))"

definition parseIPv6 :: "string \<Rightarrow> bool" where
  "parseIPv6 s =
     (if CHR ''%'' \<in> set s then False
      else if s = ''::'' then True
      else (case (if take 2 s = ''::'' then parseIPv6Groups 8 True (drop 2 s)
                  else parseIPv6Groups 8 False s) of
          None \<Rightarrow> False
        | Some (n, ellipsis, rest) \<Rightarrow>
            if rest \<noteq> [] then False else if 0 < n then ellipsis else \<not> ellipsis))"

fun parseAddr :: "string \<Rightarrow> string \<Rightarrow> bool" where
  "parseAddr s [] = False"
| "parseAddr s (c # cs) =
     (if c = CHR ''.'' then parseIPv4 s
      else if c = CHR '':'' then parseIPv6 s
      else if c = CHR ''%'' then False
      else parseAddr s cs)"

section \<open>The package\<close>

definition IsIP :: "string \<Rightarrow> bool" where
  "IsIP s = parseAddr s s"

type_synonym resolver = "string \<Rightarrow> string list \<times> go_error option"

fun Resolve :: "resolver \<Rightarrow> string list \<Rightarrow> string list" where
  "Resolve lookupIP [] = []"
| "Resolve lookupIP (addr # addrs) =
     (if IsIP addr then addr # Resolve lookupIP addrs
      else (case lookupIP addr of (ips, err) \<Rightarrow> ips @ Resolve lookupIP addrs))"

section \<open>Lemmas\<close>

lemma parseAddr_needs_separator:
  "CHR ''.'' \<notin> set cs \<Longrightarrow> CHR '':'' \<notin> set cs \<Longrightarrow> \<not> parseAddr s cs"
  by (induction s cs rule: parseAddr.induct) auto

lemma parseAddr_skip:
  "CHR ''.'' \<notin> set p \<Longrightarrow> CHR '':'' \<notin> set p \<Longrightarrow> CHR ''%'' \<notin> set p \<Longrightarrow>
   parseAddr s (p @ CHR ''.'' # t) = parseIPv4 s"
  by (induction p) auto

lemma is_digit_digit: "d < 10 \<Longrightarrow> is_digit (digit d)"
  using digit_in_range [of d] by (simp add: is_digit_def)

lemma fmt_nat_hd_zero: "0 < n \<Longrightarrow> decimal_value (fmt_nat n) \<noteq> 0"
  by simp

text \<open>An octet printed in decimal is scanned as one field.\<close>

lemma parseIPv4Fields_octet:
  assumes "n < 256"
  shows "parseIPv4Fields prev 0 pos 0 (fmt_nat n @ cs)
    = parseIPv4Fields (Some (last (fmt_nat n))) n pos (length (fmt_nat n)) cs"
proof -
  consider "n < 10" | "10 \<le> n" "n < 100" | "100 \<le> n" by linarith
  then show ?thesis
  proof cases
    case 1
    then show ?thesis
      by (simp add: fmt_nat.simps [of n] is_digit_digit)
  next
    case 2
    define q r where "q = n div 10" and "r = n mod 10"
    have "fmt_nat n = [digit q, digit r]" and "q < 10" "0 < q" "r < 10" and n: "n = q * 10 + r"
      using 2 by (auto simp: q_def r_def fmt_nat.simps [of n] fmt_nat.simps [of "n div 10"])
    with assms show ?thesis
      by (simp add: is_digit_digit)
  next
    case 3
    define p q r where "p = n div 10 div 10" and "q = n div 10 mod 10" and "r = n mod 10"
    have "fmt_nat n = [digit p, digit q, digit r]" and "p < 10" "0 < p" "q < 10" "r < 10"
      and n: "n = (p * 10 + q) * 10 + r"
      using 3 assms by (auto simp: p_def q_def r_def fmt_nat.simps [of n] fmt_nat.simps [of "n div 10"]
          fmt_nat.simps [of "n div 10 div 10"])
    with assms show ?thesis
      by (simp add: is_digit_digit)
  qed
qed

lemma last_fmt_nat_not_dot: "last (fmt_nat n) \<noteq> CHR ''.''"
proof -
  have "fmt_nat n \<noteq> []" by (subst fmt_nat.simps) simp
  then have "last (fmt_nat n) \<in> set (fmt_nat n)" by simp
  then show ?thesis using fmt_nat_no_dot by metis
qed

lemma Resolve_append: "Resolve dns (xs @ ys) = Resolve dns xs @ Resolve dns ys"
  by (induction xs) (auto split: prod.splits)

lemma Resolve_all_IPs: "\<forall>a \<in> set addrs. IsIP a \<Longrightarrow> Resolve dns addrs = addrs"
  by (induction addrs) auto

lemma set_Resolve:
  "set (Resolve dns addrs) = (\<Union>a \<in> set addrs. if IsIP a then {a} else set (fst (dns a)))"
  by (induction addrs) (auto simp: case_prod_beta split: if_splits)

lemma fmt_nat_no_separator: "c \<in> set (fmt_nat n) \<Longrightarrow> c \<noteq> CHR '':'' \<and> c \<noteq> CHR ''%'' \<and> c \<noteq> CHR ''.''"
  using fmt_nat_range by fastforce

definition dotted_quad :: "nat \<Rightarrow> nat \<Rightarrow> nat \<Rightarrow> nat \<Rightarrow> string" where
  "dotted_quad a b c d = fmt_nat a @ ''.'' @ fmt_nat b @ ''.'' @ fmt_nat c @ ''.'' @ fmt_nat d"

lemma parseIPv4_dotted_quad:
  assumes "a < 256" and "b < 256" and "c < 256" and "d < 256"
  shows "parseIPv4 (dotted_quad a b c d)"
proof -
  have ne: "fmt_nat n \<noteq> []" for n by (subst fmt_nat.simps) simp
  have end_field: "parseIPv4Fields prev 0 3 0 (fmt_nat d)" for prev
    using parseIPv4Fields_octet [OF assms(4), of prev 3 "[]"] by simp
  show ?thesis
    unfolding parseIPv4_def dotted_quad_def
    by (simp add: parseIPv4Fields_octet assms last_fmt_nat_not_dot ne end_field [unfolded numeral_3_eq_3] is_digit_def)
qed

text \<open>
  Every IPv4 address in dotted decimal form is recognised as an address, and \<open>Resolve\<close> passes it
  through without asking the resolver; a name without a dot and without a colon never is an address.
\<close>

lemma IsIP_dotted_quad:
  assumes "a < 256" and "b < 256" and "c < 256" and "d < 256"
  shows "IsIP (dotted_quad a b c d) \<and> Resolve lookupIP (dotted_quad a b c d # addrs) = dotted_quad a b c d # Resolve lookupIP addrs
    \<and> (CHR ''.'' \<notin> set host \<and> CHR '':'' \<notin> set host \<longrightarrow> \<not> IsIP host)"
proof -
  have "parseAddr (dotted_quad a b c d) (dotted_quad a b c d) = parseIPv4 (dotted_quad a b c d)"
    unfolding dotted_quad_def append_Cons append_Nil
    by (rule parseAddr_skip) (auto dest: fmt_nat_no_separator)
  then have "IsIP (dotted_quad a b c d)"
    using parseIPv4_dotted_quad [OF assms] by (simp add: IsIP_def)
  then show ?thesis
    using parseAddr_needs_separator by (simp add: IsIP_def)
qed

end
