(* ===== verification/Kube_Types.thy ===== *)
theory Kube_Types
  imports Config
begin

text \<open>
  The Kubernetes vocabulary the components share, and \<open>internal/pkg/common/match_exported.go\<close>.
  The Kubernetes libraries are not part of the program, so they are arguments:
  \<^item> \<open>ServiceLister\<close>: the informer cache of local Services (\<open>List\<close> by label set, \<open>Get\<close> by name);
  \<^item> a function \<open>matches\<close>, standing for \<open>labels.SelectorFromSet(sel).Matches(set)\<close>;
  \<^item> \<open>kube_client\<close>: the typed client of one kind of resource (\<open>List\<close>, server-side \<open>Apply\<close>,
    \<open>Delete\<close>) over the state of the cluster.
  What the program relies on of them is stated as predicates (\<open>selector_set\<close>, \<open>serves_cache\<close>) and as
  the locale \<open>kube_api\<close>; \<open>memory_client\<close> is an executable client over a finite store of objects that
  satisfies the locale and on which concrete runs are evaluated.
\<close>

section \<open>Services and their cache\<close>

record CorePort =
  core_Name :: string
  core_Port :: "32 word"
  core_TargetPort_IntVal :: "32 word"

record Service =
  svc_Name :: string
  svc_Namespace :: string
  svc_Labels :: labels
  svc_Ports :: "CorePort list"

record ServiceLister =
  lister_List :: "labels \<Rightarrow> Service list \<times> go_error option"
  lister_Get :: "string \<Rightarrow> string \<Rightarrow> go_error + Service"

type_synonym label_match = "labels \<Rightarrow> labels \<Rightarrow> bool"

definition selector_set :: "label_match \<Rightarrow> bool" where
  "selector_set matches \<longleftrightarrow> (\<forall>sel ls. matches sel ls \<longleftrightarrow> sel \<subseteq>\<^sub>m ls)"

text \<open>The lister answers from a cache that holds the services \<open>svcs\<close>, in no particular order.\<close>

definition serves_cache :: "label_match \<Rightarrow> Service list \<Rightarrow> ServiceLister \<Rightarrow> bool" where
  "serves_cache matches svcs lister \<longleftrightarrow>
     (\<forall>sel. snd (lister_List lister sel) = None
        \<and> mset (fst (lister_List lister sel)) = mset (filter (\<lambda>s. matches sel (svc_Labels s)) svcs))
   \<and> (\<forall>ns n. case lister_Get lister ns n of
          Inr s \<Rightarrow> s \<in> set svcs \<and> svc_Namespace s = ns \<and> svc_Name s = n
        | Inl e \<Rightarrow> IsNotFound e \<and> (\<forall>s \<in> set svcs. \<not> (svc_Namespace s = ns \<and> svc_Name s = n)))"

definition cache_lister :: "label_match \<Rightarrow> Service list \<Rightarrow> ServiceLister" where
  "cache_lister matches svcs =
     \<lparr>lister_List = (\<lambda>sel. (filter (\<lambda>s. matches sel (svc_Labels s)) svcs, None)),
      lister_Get = (\<lambda>ns n. case find (\<lambda>s. svc_Namespace s = ns \<and> svc_Name s = n) svcs of
                      Some s \<Rightarrow> Inr s | None \<Rightarrow> Inl NotFound)\<rparr>"

section \<open>MatchExportRules\<close>

fun MatchExportRules :: "label_match \<Rightarrow> Service \<Rightarrow> LabelSelectors list \<Rightarrow> bool" where
  "MatchExportRules matches svc [] = False"
| "MatchExportRules matches svc (selectors # rest) =
     (if matches (ls_MatchLabels selectors) (svc_Labels svc) then True
      else MatchExportRules matches svc rest)"

section \<open>Objects and the client of one kind\<close>

type_synonym key = "string \<times> string"

record ObjectMeta =
  om_Name :: string
  om_Namespace :: string
  om_Labels :: labels

record 'spec kobject =
  ko_Meta :: ObjectMeta
  ko_Spec :: 'spec

definition obj_key :: "'spec kobject \<Rightarrow> key" where
  "obj_key obj = (om_Namespace (ko_Meta obj), om_Name (ko_Meta obj))"

record 'spec apply_configuration =
  ac_Kind :: string
  ac_APIVersion :: string
  ac_Meta :: ObjectMeta
  ac_Spec :: 'spec
  ac_Force :: bool
  ac_FieldManager :: string

definition ac_key :: "'spec apply_configuration \<Rightarrow> key" where
  "ac_key ac = (om_Namespace (ac_Meta ac), om_Name (ac_Meta ac))"

record ('s, 'spec) kube_client =
  kc_List :: "'s \<Rightarrow> labels \<Rightarrow> 'spec kobject list \<times> go_error option"
  kc_Apply :: "'s \<Rightarrow> 'spec apply_configuration \<Rightarrow> 's \<times> (go_error + 'spec kobject)"
  kc_Delete :: "'s \<Rightarrow> string \<Rightarrow> string \<Rightarrow> 's \<times> go_error option"

text \<open>The label every object the controller creates carries.\<close>

definition peer_labels :: labels where
  "peer_labels = [''federation.openshift-service-mesh.io/peer'' \<mapsto> ''todo'']"

section \<open>What the program relies on of the API server\<close>

text \<open>
  \<open>view\<close> is what the server stores of the kind, by namespace and name. \<open>conforms applied stored\<close>
  says that a stored spec carries what was applied; it is a parameter because a server may fill in
  defaults and may keep fields that other managers own. Objects of these kinds carry no finalizers,
  so an accepted deletion removes them.
\<close>

locale kube_api =
  fixes client :: "('s, 'spec) kube_client"
    and view :: "'s \<Rightarrow> key \<rightharpoonup> 'spec kobject"
    and conforms :: "'spec \<Rightarrow> 'spec \<Rightarrow> bool"
  assumes view_keyed: "view s k = Some obj \<Longrightarrow> obj_key obj = k"
    and list_ok: "kc_List client s sel = (objs, None) \<Longrightarrow>
      distinct (map obj_key objs) \<and>
      (\<forall>obj. obj \<in> set objs \<longleftrightarrow> view s (obj_key obj) = Some obj \<and> sel \<subseteq>\<^sub>m om_Labels (ko_Meta obj))"
    and apply_ok: "kc_Apply client s ac = (s', Inr obj) \<Longrightarrow>
      view s' = (view s)(ac_key ac \<mapsto> obj) \<and> om_Labels (ac_Meta ac) \<subseteq>\<^sub>m om_Labels (ko_Meta obj)
      \<and> conforms (ac_Spec ac) (ko_Spec obj)"
    and apply_frame: "kc_Apply client s ac = (s', Inl e) \<Longrightarrow> k \<noteq> ac_key ac \<Longrightarrow> view s' k = view s k"
    and delete_ok: "kc_Delete client s ns n = (s', None) \<Longrightarrow> view s' = (view s)((ns, n) := None)"
    and delete_not_found: "kc_Delete client s ns n = (s', Some e) \<Longrightarrow> IsNotFound e \<Longrightarrow>
      view s' = view s \<and> view s (ns, n) = None"
    and delete_frame: "kc_Delete client s ns n = (s', Some e) \<Longrightarrow> k \<noteq> (ns, n) \<Longrightarrow> view s' k = view s k"

text \<open>The server is up: it rejects nothing that is well formed for the kind it serves.\<close>

locale kube_api_up = kube_api client view conforms
  for client :: "('s, 'spec) kube_client" and view and conforms +
  fixes kind :: string and api_version :: string
  assumes list_up: "snd (kc_List client s sel) = None"
    and apply_up: "ac_Kind ac = kind \<Longrightarrow> ac_APIVersion ac = api_version \<Longrightarrow> ac_Force ac \<Longrightarrow>
      \<exists>s' obj. kc_Apply client s ac = (s', Inr obj)"
    and delete_up: "kc_Delete client s ns n = (s', Some e) \<Longrightarrow> IsNotFound e"

section \<open>An executable client over a finite store\<close>

text \<open>
  The store is a list of objects; of two objects with the same key the first is the current one.
\<close>

definition memory_view :: "'spec kobject list \<Rightarrow> key \<rightharpoonup> 'spec kobject" where
  "memory_view s k = find (\<lambda>obj. obj_key obj = k) s"

fun current_objects :: "key list \<Rightarrow> 'spec kobject list \<Rightarrow> 'spec kobject list" where
  "current_objects seen [] = []"
| "current_objects seen (obj # objs) =
     (if obj_key obj \<in> set seen then current_objects seen objs
      else obj # current_objects (obj_key obj # seen) objs)"

definition memory_List :: "'spec kobject list \<Rightarrow> labels \<Rightarrow> 'spec kobject list \<times> go_error option" where
  "memory_List s sel = (filter (\<lambda>obj. sel \<subseteq>\<^sub>m om_Labels (ko_Meta obj)) (current_objects [] s), None)"

definition memory_Apply :: "string \<Rightarrow> string \<Rightarrow> 'spec kobject list \<Rightarrow> 'spec apply_configuration
    \<Rightarrow> 'spec kobject list \<times> (go_error + 'spec kobject)" where
  "memory_Apply kind api_version s ac =
     (if ac_Kind ac = kind \<and> ac_APIVersion ac = api_version \<and> ac_Force ac
      then let obj = \<lparr>ko_Meta = (ac_Meta ac)\<lparr>om_Labels :=
                           (case memory_view s (ac_key ac) of None \<Rightarrow> om_Labels (ac_Meta ac)
                            | Some old \<Rightarrow> om_Labels (ko_Meta old) ++ om_Labels (ac_Meta ac))\<rparr>,
                      ko_Spec = ac_Spec ac\<rparr>
           in (obj # filter (\<lambda>x. obj_key x \<noteq> ac_key ac) s, Inr obj)
      else (s, Inl (Other ''Invalid'')))"

definition memory_Delete :: "'spec kobject list \<Rightarrow> string \<Rightarrow> string \<Rightarrow> 'spec kobject list \<times> go_error option" where
  "memory_Delete s ns n =
     (case memory_view s (ns, n) of
        None \<Rightarrow> (s, Some NotFound)
      | Some _ \<Rightarrow> (filter (\<lambda>x. obj_key x \<noteq> (ns, n)) s, None))"

definition memory_client :: "string \<Rightarrow> string \<Rightarrow> ('spec kobject list, 'spec) kube_client" where
  "memory_client kind api_version =
     \<lparr>kc_List = memory_List, kc_Apply = memory_Apply kind api_version, kc_Delete = memory_Delete\<rparr>"

lemma memory_view_Cons:
  "memory_view (obj # s) = (memory_view s)(obj_key obj \<mapsto> obj)"
  by (auto simp: memory_view_def)

lemma memory_view_filter: "memory_view (filter (\<lambda>x. obj_key x \<noteq> k) s) = (memory_view s)(k := None)"
proof
  show "memory_view (filter (\<lambda>x. obj_key x \<noteq> k) s) j = ((memory_view s)(k := None)) j" for j
    by (induction s) (auto simp: memory_view_def)
qed

lemma obj_key_applied [simp]:
  "obj_key \<lparr>ko_Meta = (ac_Meta ac)\<lparr>om_Labels := ls\<rparr>, ko_Spec = spec\<rparr> = ac_key ac"
  "obj_key \<lparr>ko_Meta = ac_Meta ac, ko_Spec = spec\<rparr> = ac_key ac"
  by (simp_all add: obj_key_def ac_key_def)

lemma memory_view_keyed: "memory_view s k = Some obj \<Longrightarrow> obj_key obj = k"
  by (auto simp: memory_view_def find_Some_iff)

lemma current_objects_keys:
  "obj \<in> set (current_objects seen s) \<longleftrightarrow> memory_view s (obj_key obj) = Some obj \<and> obj_key obj \<notin> set seen"
  by (induction seen s rule: current_objects.induct) (auto simp: memory_view_def)

lemma distinct_current_objects: "distinct (map obj_key (current_objects seen s))"
  by (induction seen s rule: current_objects.induct) (auto simp: current_objects_keys)

lemma distinct_map_filter_key: "distinct (map f xs) \<Longrightarrow> distinct (map f (filter P xs))"
  by (induction xs) auto

lemmas memory_defs = memory_client_def memory_List_def memory_Apply_def memory_Delete_def

interpretation memory: kube_api_up "memory_client kind api_version" memory_view "(=)" kind api_version
proof (unfold_locales, goal_cases)
  case (1 s k obj)
  then show ?case by (rule memory_view_keyed)
next
  case (2 s sel objs)
  then show ?case
    by (auto simp: memory_defs current_objects_keys distinct_current_objects distinct_map_filter_key)
next
  case (3 s ac s' obj)
  then show ?case
    by (auto simp: memory_defs Let_def memory_view_Cons memory_view_filter
        split: if_splits option.splits)
next
  case (4 s ac s' e k)
  then show ?case by (auto simp: memory_defs Let_def split: if_splits)
next
  case (5 s ns n s')
  then show ?case by (auto simp: memory_defs memory_view_filter split: option.splits)
next
  case (6 s ns n s' e)
  then show ?case by (auto simp: memory_defs split: option.splits)
next
  case (7 s ns n s' e k)
  then show ?case by (auto simp: memory_defs split: option.splits)
next
  case (8 s sel)
  show ?case by (simp add: memory_defs)
next
  case (9 ac s)
  then show ?case by (simp add: memory_defs Let_def)
next
  case (10 s ns n s' e)
  then show ?case by (auto simp: memory_defs split: option.splits)
qed

section \<open>Lemmas\<close>

lemma MatchExportRules_iff:
  "MatchExportRules matches svc sels \<longleftrightarrow> (\<exists>s \<in> set sels. matches (ls_MatchLabels s) (svc_Labels svc))"
  by (induction sels) auto

lemma serves_cache_lister: "serves_cache matches svcs (cache_lister matches svcs)"
  by (auto simp: serves_cache_def cache_lister_def find_None_iff find_Some_iff split: option.splits)

lemma serves_cache_List_set:
  "serves_cache matches svcs lister \<Longrightarrow>
   set (fst (lister_List lister sel)) = {s \<in> set svcs. matches sel (svc_Labels s)}"
  unfolding serves_cache_def by (metis mset_eq_setD set_filter)

lemma serves_cache_List:
  "serves_cache matches svcs lister \<Longrightarrow> lister_List lister sel = (fst (lister_List lister sel), None)"
  unfolding serves_cache_def by (metis prod.collapse)

end
