(* ===== verification/Fds.thy ===== *)
theory Fds
  imports Kube_Types
begin

text \<open>
  The federation discovery service: the XDS type URLs and push requests
  (\<open>internal/pkg/legacy/xds/types.go\<close>, \<open>push_request.go\<close>), the messages \<open>FederatedService\<close> and
  \<open>ServicePort\<close> (\<open>internal/api/federation/v1alpha1\<close>), the store of imported services
  (\<open>imported_service_store.go\<close>), the generator of exported services
  (\<open>exported_service_generator.go\<close>) and the handler of received ones (\<open>import_handler.go\<close>).
  The protobuf library is a pair of arguments \<open>marshal\<close> and \<open>unmarshal\<close>; what the program relies on
  is that the messages it sends survive the wire, \<open>wire_roundtrip\<close>. A send on the push channel is an element of the list of
  requests an operation emits, in the order of the sends.
  The interface between the store and its clients is the locale \<open>service_store\<close>.
\<close>

section \<open>Messages and push requests\<close>

definition ExportedServiceTypeUrl :: string where
  "ExportedServiceTypeUrl = ''federation.openshift-service-mesh.io/v1alpha1/ExportedService''"

definition DestinationRuleTypeUrl :: string where
  "DestinationRuleTypeUrl = ''networking.istio.io/v1alpha3/DestinationRule''"

definition GatewayTypeUrl :: string where
  "GatewayTypeUrl = ''networking.istio.io/v1alpha3/Gateway''"

definition ServiceEntryTypeUrl :: string where
  "ServiceEntryTypeUrl = ''networking.istio.io/v1alpha3/ServiceEntry''"

definition WorkloadEntryTypeUrl :: string where
  "WorkloadEntryTypeUrl = ''networking.istio.io/v1alpha3/WorkloadEntry''"

definition EnvoyFilterTypeUrl :: string where
  "EnvoyFilterTypeUrl = ''networking.istio.io/v1alpha3/EnvoyFilter''"

definition PeerAuthenticationTypeUrl :: string where
  "PeerAuthenticationTypeUrl = ''security.istio.io/v1beta1/PeerAuthentication''"

definition RouteTypeUrl :: string where
  "RouteTypeUrl = ''route.openshift.io/v1/Route''"

lemmas type_url_defs = ExportedServiceTypeUrl_def DestinationRuleTypeUrl_def GatewayTypeUrl_def
  ServiceEntryTypeUrl_def WorkloadEntryTypeUrl_def EnvoyFilterTypeUrl_def
  PeerAuthenticationTypeUrl_def RouteTypeUrl_def

type_synonym bytes = "8 word list"

record Any =
  any_TypeUrl :: string
  any_Value :: bytes

record PushRequest =
  pr_TypeUrl :: string
  pr_Resources :: "Any list option"

abbreviation push_of :: "string \<Rightarrow> PushRequest" where
  "push_of url \<equiv> \<lparr>pr_TypeUrl = url, pr_Resources = None\<rparr>"

record FedPort =
  fp_Number :: "32 word"
  fp_Protocol :: string
  fp_Name :: string
  fp_TargetPort :: "32 word"

record FederatedService =
  fs_Hostname :: string
  fs_Ports :: "FedPort list"
  fs_Labels :: labels

definition GetHostname :: "FederatedService option \<Rightarrow> string" where
  "GetHostname x = (case x of Some svc \<Rightarrow> fs_Hostname svc | None \<Rightarrow> [])"

definition GetPorts :: "FederatedService option \<Rightarrow> FedPort list" where
  "GetPorts x = (case x of Some svc \<Rightarrow> fs_Ports svc | None \<Rightarrow> [])"

definition GetLabels :: "FederatedService option \<Rightarrow> labels" where
  "GetLabels x = (case x of Some svc \<Rightarrow> fs_Labels svc | None \<Rightarrow> Map.empty)"

definition GetNumber :: "FedPort option \<Rightarrow> 32 word" where
  "GetNumber x = (case x of Some p \<Rightarrow> fp_Number p | None \<Rightarrow> 0)"

definition GetProtocol :: "FedPort option \<Rightarrow> string" where
  "GetProtocol x = (case x of Some p \<Rightarrow> fp_Protocol p | None \<Rightarrow> [])"

definition GetName :: "FedPort option \<Rightarrow> string" where
  "GetName x = (case x of Some p \<Rightarrow> fp_Name p | None \<Rightarrow> [])"

definition GetTargetPort :: "FedPort option \<Rightarrow> 32 word" where
  "GetTargetPort x = (case x of Some p \<Rightarrow> fp_TargetPort p | None \<Rightarrow> 0)"

text \<open>\<open>proto.Clone\<close> copies every field; copying nil gives nil.\<close>

definition ServicePort_DeepCopyInto :: "FedPort \<Rightarrow> FedPort" where
  "ServicePort_DeepCopyInto p = \<lparr>fp_Number = fp_Number p, fp_Protocol = fp_Protocol p, fp_Name = fp_Name p, fp_TargetPort = fp_TargetPort p\<rparr>"

definition ServicePort_DeepCopy :: "FedPort option \<Rightarrow> FedPort option" where
  "ServicePort_DeepCopy x = (case x of None \<Rightarrow> None | Some p \<Rightarrow> Some (ServicePort_DeepCopyInto p))"

definition DeepCopy :: "FederatedService \<Rightarrow> FederatedService" where
  "DeepCopy svc = \<lparr>fs_Hostname = fs_Hostname svc,
     fs_Ports = map ServicePort_DeepCopyInto (fs_Ports svc),
     fs_Labels = fs_Labels svc\<rparr>"

section \<open>The store of imported services\<close>

record ImportedServiceStore =
  importedServices :: "string \<rightharpoonup> FederatedService list"

definition NewImportedServiceStore :: ImportedServiceStore where
  "NewImportedServiceStore = \<lparr>importedServices = Map.empty\<rparr>"

definition Update :: "ImportedServiceStore \<Rightarrow> string \<Rightarrow> FederatedService list \<Rightarrow> ImportedServiceStore" where
  "Update s source svcs = s\<lparr>importedServices := (importedServices s)(source \<mapsto> map DeepCopy svcs)\<rparr>"

definition From :: "ImportedServiceStore \<Rightarrow> Remote \<Rightarrow> FederatedService list" where
  "From s remote = (case importedServices s (remote_Name remote) of
       None \<Rightarrow> [] | Some svcs \<Rightarrow> map DeepCopy svcs)"

section \<open>The generator of exported services\<close>

record ExportedServicesGenerator =
  esg_cfg :: Federation
  esg_serviceLister :: ServiceLister

definition NewExportedServicesGenerator :: "Federation \<Rightarrow> ServiceLister \<Rightarrow> ExportedServicesGenerator" where
  "NewExportedServicesGenerator cfg lister = \<lparr>esg_cfg = cfg, esg_serviceLister = lister\<rparr>"

definition esg_GetTypeUrl :: "ExportedServicesGenerator \<Rightarrow> string" where
  "esg_GetTypeUrl g = ExportedServiceTypeUrl"

definition detectProtocol :: "string \<Rightarrow> string" where
  "detectProtocol portName =
     (if portName = ''https'' \<or> strings_HasPrefix portName ''https-'' then ''HTTPS''
      else if portName = ''http'' \<or> strings_HasPrefix portName ''http-'' then ''HTTP''
      else if portName = ''http2'' \<or> strings_HasPrefix portName ''http2-'' then ''HTTP2''
      else if portName = ''grpc'' \<or> strings_HasPrefix portName ''grpc-'' then ''GRPC''
      else if portName = ''tls'' \<or> strings_HasPrefix portName ''tls-'' then ''TLS''
      else if portName = ''mongo'' \<or> strings_HasPrefix portName ''mongo-'' then ''MONGO''
      else ''TCP'')"

definition exported_port :: "CorePort \<Rightarrow> FedPort" where
  "exported_port port =
     \<lparr>fp_Number = core_Port port,
      fp_Protocol = detectProtocol (core_Name port),
      fp_Name = core_Name port,
      fp_TargetPort = (if core_TargetPort_IntVal port \<noteq> 0 then core_TargetPort_IntVal port else 0)\<rparr>"

definition exported_hostname :: "Service \<Rightarrow> string" where
  "exported_hostname svc = svc_Name svc @ ''.'' @ svc_Namespace svc @ ''.svc.cluster.local''"

definition exported_service :: "Service \<Rightarrow> FederatedService" where
  "exported_service svc =
     \<lparr>fs_Hostname = exported_hostname svc,
      fs_Ports = map exported_port (svc_Ports svc),
      fs_Labels = svc_Labels svc\<rparr>"

type_synonym marshaller = "FederatedService \<Rightarrow> bytes \<times> go_error option"
type_synonym unmarshaller = "bytes \<Rightarrow> FederatedService \<times> go_error option"

definition serialize :: "marshaller \<Rightarrow> FederatedService list \<Rightarrow> Any list outcome" where
  "serialize marshal svcs = collect (\<lambda>svc.
     obind (of_result ''failed to serialize ExportedService to protobuf message'' (marshal svc))
       (\<lambda>bs. Val [\<lparr>any_TypeUrl = ''type.googleapis.com/v1alpha1.FederatedService'', any_Value = bs\<rparr>])) svcs"

definition GenerateResponse :: "marshaller \<Rightarrow> ExportedServicesGenerator \<Rightarrow> Any list outcome" where
  "GenerateResponse marshal g =
     obind (collect (\<lambda>sel.
         obind (of_result ''failed to list services'' (lister_List (esg_serviceLister g) (ls_MatchLabels sel)))
           (\<lambda>svcs. Val (map exported_service svcs)))
         (export_selectors (esg_cfg g)))
       (serialize marshal)"

section \<open>The handler of imported services\<close>

fun unmarshal_all :: "unmarshaller \<Rightarrow> Any list \<Rightarrow> FederatedService list outcome" where
  "unmarshal_all unmarshal [] = Val []"
| "unmarshal_all unmarshal (res # rest) =
     obind (of_result ''unable to unmarshal exported service'' (unmarshal (any_Value res)))
       (\<lambda>svc. obind (unmarshal_all unmarshal rest) (\<lambda>svcs. Val (svc # svcs)))"

text \<open>The new store, the requests sent on the push channel, and the returned error.\<close>

definition Handle :: "unmarshaller \<Rightarrow> ImportedServiceStore \<Rightarrow> string \<Rightarrow> Any list
    \<Rightarrow> ImportedServiceStore \<times> PushRequest list \<times> go_error option" where
  "Handle unmarshal store source resources =
     (case unmarshal_all unmarshal resources of
        Val svcs \<Rightarrow> (Update store source svcs,
                     [push_of ServiceEntryTypeUrl, push_of WorkloadEntryTypeUrl, push_of DestinationRuleTypeUrl],
                     None)
      | Fail e \<Rightarrow> (store, [], Some e)
      | Panic p \<Rightarrow> (store, [], None))"

definition wire_roundtrip :: "FederatedService set \<Rightarrow> marshaller \<Rightarrow> unmarshaller \<Rightarrow> bool" where
  "wire_roundtrip msgs marshal unmarshal \<longleftrightarrow>
     (\<forall>svc \<in> msgs. \<exists>bs. marshal svc = (bs, None) \<and> unmarshal bs = (svc, None))"

section \<open>The interface of the store\<close>

locale service_store =
  fixes empty :: 'st
    and put :: "'st \<Rightarrow> string \<Rightarrow> 'v list \<Rightarrow> 'st"
    and get :: "'st \<Rightarrow> Remote \<Rightarrow> 'v list"
  assumes get_empty: "get empty r = []"
    and get_put_same: "remote_Name r = source \<Longrightarrow> get (put st source vs) r = vs"
    and get_put_other: "remote_Name r \<noteq> source \<Longrightarrow> get (put st source vs) r = get st r"
begin

text \<open>A sequence of updates leaves each remote with the last list sent under its name.\<close>

lemma get_after_updates:
  "get (fold (\<lambda>(source, vs) st. put st source vs) us st) r =
     (case map_of (rev us) (remote_Name r) of Some vs \<Rightarrow> vs | None \<Rightarrow> get st r)"
proof (induction us arbitrary: st)
  case Nil
  show ?case by simp
next
  case (Cons u us)
  obtain source vs where "u = (source, vs)" by (cases u)
  with Cons.IH [of "put st source vs"] show ?case
    by (auto simp: get_put_same get_put_other split: option.splits)
qed

end

lemma ServicePort_DeepCopyInto_id [simp]: "ServicePort_DeepCopyInto p = p"
  by (simp add: ServicePort_DeepCopyInto_def)

lemma ServicePort_DeepCopy_getters:
  "GetNumber (ServicePort_DeepCopy x) = GetNumber x" "GetProtocol (ServicePort_DeepCopy x) = GetProtocol x"
  "GetName (ServicePort_DeepCopy x) = GetName x" "GetTargetPort (ServicePort_DeepCopy x) = GetTargetPort x"
  by (cases x; simp add: ServicePort_DeepCopy_def)+

lemma DeepCopy_id [simp]: "DeepCopy svc = svc"
  by (cases svc) (simp add: DeepCopy_def map_idI)

lemma map_DeepCopy [simp]: "map DeepCopy svcs = svcs"
  by (simp add: map_idI)

interpretation imported: service_store NewImportedServiceStore Update From
  by unfold_locales (simp_all add: NewImportedServiceStore_def Update_def From_def)

lemmas store_simps [simp] = imported.get_empty imported.get_put_same imported.get_put_other

section \<open>Lemmas\<close>

lemma GetHostname_Some [simp]: "GetHostname (Some svc) = fs_Hostname svc"
  by (simp add: GetHostname_def)

lemma exported_port_TargetPort [simp]: "fp_TargetPort (exported_port p) = core_TargetPort_IntVal p"
  by (simp add: exported_port_def)

lemma unmarshal_all_not_Panic [simp]: "unmarshal_all unmarshal rs \<noteq> Panic p"
  by (induction rs) (auto simp: outcome_simps)

lemma serialize_wire:
  assumes "wire_roundtrip msgs marshal unmarshal" and "set svcs \<subseteq> msgs"
  shows "\<exists>rs. serialize marshal svcs = Val rs \<and> unmarshal_all unmarshal rs = Val svcs"
  using assms(2)
proof (induction svcs)
  case Nil
  show ?case by (simp add: serialize_def)
next
  case (Cons svc svcs)
  then obtain bs where "marshal svc = (bs, None)" and "unmarshal bs = (svc, None)"
    using assms(1) by (auto simp: wire_roundtrip_def)
  with Cons show ?case
    by (auto simp: serialize_def)
qed

definition exported_services :: "ServiceLister \<Rightarrow> LabelSelectors list \<Rightarrow> Service list" where
  "exported_services lister sels = concat (map (\<lambda>sel. fst (lister_List lister (ls_MatchLabels sel))) sels)"

lemma GenerateResponse_eq:
  assumes "serves_cache matches svcs lister"
  shows "GenerateResponse marshal (NewExportedServicesGenerator cfg lister)
    = serialize marshal (map exported_service (exported_services lister (export_selectors cfg)))"
proof -
  have *: "of_result msg (lister_List lister sel) = Val (fst (lister_List lister sel))" for msg sel
    using serves_cache_List [OF assms, of sel] by (metis of_result.simps(1))
  have "collect (\<lambda>sel. obind (of_result ''failed to list services'' (lister_List lister (ls_MatchLabels sel)))
           (\<lambda>svcs. Val (map exported_service svcs))) sels
       = Val (concat (map (\<lambda>sel. map exported_service (fst (lister_List lister (ls_MatchLabels sel)))) sels))"
    for sels :: "LabelSelectors list"
    by (rule collect_Val) (simp add: *)
  then show ?thesis
    by (simp add: GenerateResponse_def NewExportedServicesGenerator_def exported_services_def
        map_concat comp_def)
qed

lemma set_exported_services:
  assumes "serves_cache matches svcs lister"
  shows "set (exported_services lister sels) = {s \<in> set svcs. MatchExportRules matches s sels}"
  by (auto simp: exported_services_def serves_cache_List_set [OF assms] MatchExportRules_iff)

text \<open>The protocol is decided by the part of the port name before the first dash.\<close>

definition protocol_table :: "(string \<times> string) list" where
  "protocol_table = [(''https'', ''HTTPS''), (''http'', ''HTTP''), (''http2'', ''HTTP2''),
     (''grpc'', ''GRPC''), (''tls'', ''TLS''), (''mongo'', ''MONGO'')]"

lemma hd_Split_iff:
  assumes "CHR ''-'' \<notin> set p"
  shows "hd (strings_Split (CHR ''-'') s) = p \<longleftrightarrow> s = p \<or> strings_HasPrefix s (p @ ''-'')"
  using assms
proof (induction s arbitrary: p)
  case Nil
  then show ?case by (cases p) auto
next
  case (Cons c s)
  have tail: "hd (strings_Split (CHR ''-'') s) = q \<longleftrightarrow> s = q \<or> strings_HasPrefix s (q @ ''-'')"
    if "CHR ''-'' \<notin> set q" for q
    using Cons.IH that by blast
  show ?case
  proof (cases "c = CHR ''-''")
    case True
    with Cons.prems show ?thesis by (cases p) auto
  next
    case False
    then have "hd (strings_Split (CHR ''-'') (c # s)) = c # hd (strings_Split (CHR ''-'') s)"
      by (auto split: list.splits)
    with False Cons.prems tail [of "tl p"] show ?thesis by (cases p) auto
  qed
qed

text \<open>
  The protocol of an exported port is looked up, in the table of the Istio protocol names, under
  the part of the port name before the first dash, and is \<open>TCP\<close> for every other name.
\<close>

lemma detectProtocol_table:
  "detectProtocol portName =
     (case map_of protocol_table (hd (strings_Split (CHR ''-'') portName)) of Some proto \<Rightarrow> proto | None \<Rightarrow> ''TCP'')"
proof -
  have "(portName = p \<or> strings_HasPrefix portName (p @ ''-'')) = (hd (strings_Split (CHR ''-'') portName) = p)"
    if "p \<in> fst ` set protocol_table" for p
    using that by (intro hd_Split_iff [symmetric]) (auto simp: protocol_table_def)
  then have "(portName = ''https'' \<or> strings_HasPrefix portName ''https-'') = (hd (strings_Split (CHR ''-'') portName) = ''https'')"
    "(portName = ''http'' \<or> strings_HasPrefix portName ''http-'') = (hd (strings_Split (CHR ''-'') portName) = ''http'')"
    "(portName = ''http2'' \<or> strings_HasPrefix portName ''http2-'') = (hd (strings_Split (CHR ''-'') portName) = ''http2'')"
    "(portName = ''grpc'' \<or> strings_HasPrefix portName ''grpc-'') = (hd (strings_Split (CHR ''-'') portName) = ''grpc'')"
    "(portName = ''tls'' \<or> strings_HasPrefix portName ''tls-'') = (hd (strings_Split (CHR ''-'') portName) = ''tls'')"
    "(portName = ''mongo'' \<or> strings_HasPrefix portName ''mongo-'') = (hd (strings_Split (CHR ''-'') portName) = ''mongo'')"
    by (force simp: protocol_table_def)+
  then show ?thesis
    unfolding detectProtocol_def by (simp add: protocol_table_def)
qed

end
