(* ===== verification/Samples.thy ===== *)
theory Samples
  imports Fds
begin

text \<open>
  Concrete data for runs of the model, after the fixtures of the program's own unit tests
  (\<open>config_factory_test.go\<close>): the mesh \<open>east\<close>, its Services \<open>a/ns1\<close> (not exported), \<open>b/ns1\<close> and
  \<open>a/ns2\<close> (exported by the label \<open>export=true\<close>), the remote mesh \<open>west\<close> and what it exports.
\<close>

definition http_port :: CorePort where
  "http_port = \<lparr>core_Name = ''http'', core_Port = 80, core_TargetPort_IntVal = 8080\<rparr>"

definition https_port :: CorePort where
  "https_port = \<lparr>core_Name = ''https'', core_Port = 443, core_TargetPort_IntVal = 8443\<rparr>"

definition svcA_ns1 :: Service where
  "svcA_ns1 = \<lparr>svc_Name = ''a'', svc_Namespace = ''ns1'', svc_Labels = [''app'' \<mapsto> ''a''],
               svc_Ports = [http_port, https_port]\<rparr>"

definition svcB_ns1 :: Service where
  "svcB_ns1 = \<lparr>svc_Name = ''b'', svc_Namespace = ''ns1'', svc_Labels = [''app'' \<mapsto> ''b'', ''export'' \<mapsto> ''true''],
               svc_Ports = [http_port, https_port]\<rparr>"

definition svcA_ns2 :: Service where
  "svcA_ns2 = \<lparr>svc_Name = ''a'', svc_Namespace = ''ns2'', svc_Labels = [''app'' \<mapsto> ''a'', ''export'' \<mapsto> ''true''],
               svc_Ports = [http_port]\<rparr>"

definition export_true :: LabelSelectors where
  "export_true = \<lparr>ls_MatchLabels = [''export'' \<mapsto> ''true''], ls_MatchExpressions = []\<rparr>"

definition west :: Remote where
  "west = \<lparr>remote_Name = ''west'', remote_Addresses = [''1.1.1.1'', ''2.2.2.2''],
           remote_IngressType = OpenShiftRouter, remote_Port = None, remote_Network = ''west-network''\<rparr>"

definition central :: Remote where
  "central = \<lparr>remote_Name = ''central'', remote_Addresses = [''central.example''],
           remote_IngressType = OpenShiftRouter, remote_Port = Some 443, remote_Network = ''central-network''\<rparr>"

definition east_cfg :: "IngressType \<Rightarrow> Remote list \<Rightarrow> Federation" where
  "east_cfg ingress remotes =
     \<lparr>fed_namespace = ''istio-system'',
      fed_MeshPeers = \<lparr>mp_Local = \<lparr>local_Name = ''east'',
          local_ControlPlane = \<lparr>cp_Namespace = ''istio-system''\<rparr>,
          local_Gateways = \<lparr>gws_Ingress = \<lparr>lg_Selector = [''app'' \<mapsto> ''federation-ingress-gateway''],
                                           lg_Port = Some \<lparr>gp_Name = ''tls'', gp_Number = 443\<rparr>\<rparr>\<rparr>,
          local_IngressType = ingress\<rparr>,
        mp_Remotes = remotes\<rparr>,
      fed_ExportedServiceSet = \<lparr>ess_Rules = [\<lparr>rules_Type = ''LabelSelector'', rules_LabelSelectors = [export_true]\<rparr>]\<rparr>,
      fed_ImportedServiceSet = \<lparr>iss_Rules = []\<rparr>\<rparr>"

definition imported_http :: FedPort where
  "imported_http = \<lparr>fp_Number = 80, fp_Protocol = ''HTTP'', fp_Name = ''http'', fp_TargetPort = 8080\<rparr>"

definition importedA_ns1 :: FederatedService where
  "importedA_ns1 = \<lparr>fs_Hostname = ''a.ns1.svc.cluster.local'', fs_Ports = [imported_http], fs_Labels = [''app'' \<mapsto> ''a'']\<rparr>"

definition importedB_ns1 :: FederatedService where
  "importedB_ns1 = \<lparr>fs_Hostname = ''b.ns1.svc.cluster.local'', fs_Ports = [imported_http], fs_Labels = [''app'' \<mapsto> ''b'']\<rparr>"

definition importedA_ns2 :: FederatedService where
  "importedA_ns2 = \<lparr>fs_Hostname = ''a.ns2.svc.cluster.local'', fs_Ports = [imported_http], fs_Labels = [''app'' \<mapsto> ''a'']\<rparr>"

definition west_store :: ImportedServiceStore where
  "west_store = Update NewImportedServiceStore ''west'' [importedA_ns1, importedB_ns1, importedA_ns2]"

definition east_lister :: ServiceLister where
  "east_lister = cache_lister (\<subseteq>\<^sub>m) [svcA_ns1, svcB_ns1, svcA_ns2]"

definition plain_lister :: ServiceLister where
  "plain_lister = cache_lister (\<subseteq>\<^sub>m) [svcA_ns1]"

lemmas sample_defs = http_port_def https_port_def svcA_ns1_def svcB_ns1_def svcA_ns2_def export_true_def
  west_def central_def east_cfg_def imported_http_def importedA_ns1_def importedB_ns1_def importedA_ns2_def

lemma selector_set_map_le: "selector_set (\<subseteq>\<^sub>m)"
  by (simp add: selector_set_def)

lemma east_lister_serves: "serves_cache (\<subseteq>\<^sub>m) [svcA_ns1, svcB_ns1, svcA_ns2] east_lister"
  unfolding east_lister_def by (rule serves_cache_lister)

lemma plain_lister_serves: "serves_cache (\<subseteq>\<^sub>m) [svcA_ns1] plain_lister"
  unfolding plain_lister_def by (rule serves_cache_lister)

lemma From_west_store [simp]:
  "From west_store west = [importedA_ns1, importedB_ns1, importedA_ns2]"
  "From west_store central = []"
  by (simp_all add: west_store_def west_def central_def)

lemma export_selectors_east [simp]: "export_selectors (east_cfg ingress remotes) = [export_true]"
  by (simp add: GetLabelSelectors_def east_cfg_def)

lemma remotes_of_east [simp]: "remotes_of (east_cfg ingress remotes) = remotes"
  by (simp add: east_cfg_def)

lemma export_true_selects [simp]:
  "\<not> ls_MatchLabels export_true \<subseteq>\<^sub>m svc_Labels svcA_ns1"
  "ls_MatchLabels export_true \<subseteq>\<^sub>m svc_Labels svcB_ns1"
  "ls_MatchLabels export_true \<subseteq>\<^sub>m svc_Labels svcA_ns2"
  by (simp_all add: sample_defs map_le_def)

lemma east_exports [simp]:
  "lister_List east_lister (ls_MatchLabels export_true) = ([svcB_ns1, svcA_ns2], None)"
  by (simp add: east_lister_def cache_lister_def)

end
