(* ===== verification/Json.thy ===== *)
theory Json
  imports Prelude
begin

text \<open>
  What the program uses of Go's \<open>encoding/json\<close>: a \<open>Decoder\<close> on a string that decodes one value into a
  struct with \<open>DisallowUnknownFields\<close>. The scanner keeps, like the one of Go, a stack of the containers it
  is in, reads one value and leaves what follows it unread; errors in the syntax come before any
  other. The decoder proper works on the value that was read: \<open>check\<close> finds the first error in the
  order of the text (the decoder saves it and goes on), and the \<open>build\<close> functions give the contents of a variable after a
  sequence of values was decoded into it, which is more than one when a key is repeated. A printer and
  the round trip lemmas for it close the theory. Strings are byte strings.
\<close>

section \<open>Values and errors\<close>

datatype json =
    JNull
  | JBool bool
  | JNumber string
  | JString string
  | JArray "json list"
  | JObject "(string \<times> json) list"

definition io_EOF :: go_error where
  "io_EOF = Other ''EOF''"

definition io_ErrUnexpectedEOF :: go_error where
  "io_ErrUnexpectedEOF = Other ''unexpected EOF''"

definition SyntaxError :: go_error where
  "SyntaxError = Other ''invalid character''"

definition DepthError :: go_error where
  "DepthError = Other ''exceeded max depth''"

definition UnknownField :: "string \<Rightarrow> go_error" where
  "UnknownField key = Wrap ''json: unknown field'' (Other key)"

definition UnmarshalTypeError :: "string \<Rightarrow> go_error" where
  "UnmarshalTypeError kind = Wrap ''json: cannot unmarshal'' (Other kind)"

section \<open>Scanning strings and numbers\<close>

definition is_json_space :: "char \<Rightarrow> bool" where
  "is_json_space c \<longleftrightarrow> c = CHR '' '' \<or> c = CHR 0x09 \<or> c = CHR 0x0D \<or> c = CHR 0x0A"

abbreviation skip_space :: "string \<Rightarrow> string" where
  "skip_space \<equiv> dropWhile is_json_space"

definition hex_value :: "char \<Rightarrow> nat option" where
  "hex_value c = (let n = of_char c in
     if 48 \<le> n \<and> n < 58 then Some (n - 48) else if 65 \<le> n \<and> n < 71 then Some (n - 55)
     else if 97 \<le> n \<and> n < 103 then Some (n - 87) else None)"

datatype string_state = InString | InStringEsc | InStringEscU nat

fun scan_string :: "string_state \<Rightarrow> string \<Rightarrow> go_error + string \<times> string" where
  "scan_string st [] = Inl io_ErrUnexpectedEOF"
| "scan_string InString (c # s) =
     (if c = CHR 0x22 then Inr ([], s)
      else if c = CHR 0x5C then map_sum id (apfst ((#) c)) (scan_string InStringEsc s)
      else if (of_char c :: nat) < 32 then Inl SyntaxError
      else map_sum id (apfst ((#) c)) (scan_string InString s))"
| "scan_string InStringEsc (c # s) =
     (if c \<in> {CHR ''b'', CHR ''f'', CHR ''n'', CHR ''r'', CHR ''t'', CHR 0x5C, CHR ''/'', CHR 0x22}
      then map_sum id (apfst ((#) c)) (scan_string InString s)
      else if c = CHR ''u'' then map_sum id (apfst ((#) c)) (scan_string (InStringEscU 3) s)
      else Inl SyntaxError)"
| "scan_string (InStringEscU n) (c # s) =
     (if hex_value c \<noteq> None
      then map_sum id (apfst ((#) c)) (scan_string (case n of 0 \<Rightarrow> InString | Suc m \<Rightarrow> InStringEscU m) s)
      else Inl SyntaxError)"

definition scan_int :: "string \<Rightarrow> go_error + string \<times> string" where
  "scan_int s = (case s of
       [] \<Rightarrow> Inl io_ErrUnexpectedEOF
     | c # r \<Rightarrow> (if c = CHR ''0'' then Inr ([c], r)
                else if is_digit c then Inr (c # takeWhile is_digit r, dropWhile is_digit r)
                else Inl SyntaxError))"

definition scan_digits :: "string \<Rightarrow> go_error + string \<times> string" where
  "scan_digits s = (case s of
       [] \<Rightarrow> Inl io_ErrUnexpectedEOF
     | c # r \<Rightarrow> (if is_digit c then Inr (c # takeWhile is_digit r, dropWhile is_digit r) else Inl SyntaxError))"

definition scan_fraction :: "string \<Rightarrow> go_error + string \<times> string" where
  "scan_fraction s = (case s of
       [] \<Rightarrow> Inr ([], s)
     | c # r \<Rightarrow> (if c = CHR ''.'' then map_sum id (apfst ((#) c)) (scan_digits r) else Inr ([], s)))"

definition scan_exponent :: "string \<Rightarrow> go_error + string \<times> string" where
  "scan_exponent s = (case s of
       [] \<Rightarrow> Inr ([], s)
     | c # r \<Rightarrow>
         (if c = CHR ''e'' \<or> c = CHR ''E''
          then (case r of
                  [] \<Rightarrow> Inl io_ErrUnexpectedEOF
                | d # r' \<Rightarrow> (if d = CHR ''+'' \<or> d = CHR ''-'' then map_sum id (apfst (\<lambda>t. c # d # t)) (scan_digits r')
                            else map_sum id (apfst ((#) c)) (scan_digits r)))
          else Inr ([], s)))"

definition scan_unsigned :: "string \<Rightarrow> go_error + string \<times> string" where
  "scan_unsigned s =
     (case scan_int s of Inl e \<Rightarrow> Inl e | Inr (i, s1) \<Rightarrow>
      case scan_fraction s1 of Inl e \<Rightarrow> Inl e | Inr (f, s2) \<Rightarrow>
      case scan_exponent s2 of Inl e \<Rightarrow> Inl e | Inr (x, s3) \<Rightarrow> Inr (i @ f @ x, s3))"

definition scan_number :: "string \<Rightarrow> go_error + string \<times> string" where
  "scan_number s = (case s of
       [] \<Rightarrow> Inl io_ErrUnexpectedEOF
     | c # r \<Rightarrow> (if c = CHR ''-'' then map_sum id (apfst ((#) c)) (scan_unsigned r) else scan_unsigned s))"

fun scan_literal :: "string \<Rightarrow> string \<Rightarrow> go_error + string" where
  "scan_literal [] s = Inr s"
| "scan_literal (w # ws) [] = Inl io_ErrUnexpectedEOF"
| "scan_literal (w # ws) (c # s) = (if c = w then scan_literal ws s else Inl SyntaxError)"

section \<open>Unquoting\<close>

definition utf8_cont :: "nat \<Rightarrow> nat \<Rightarrow> char \<Rightarrow> bool" where
  "utf8_cont lo hi c \<longleftrightarrow> lo \<le> (of_char c :: nat) \<and> (of_char c :: nat) \<le> hi"

text \<open>The range of the second byte, which excludes overlong forms, surrogates and what is above U+10FFFF.\<close>

definition utf8_lo :: "nat \<Rightarrow> nat" where
  "utf8_lo b = (if b = 0xE0 then 0xA0 else if b = 0xF0 then 0x90 else 0x80)"

definition utf8_hi :: "nat \<Rightarrow> nat" where
  "utf8_hi b = (if b = 0xED then 0x9F else if b = 0xF4 then 0x8F else 0xBF)"

definition utf8_need :: "nat \<Rightarrow> nat" where
  "utf8_need b = (if 0xC2 \<le> b \<and> b \<le> 0xDF then 1 else if 0xE0 \<le> b \<and> b \<le> 0xEF then 2
     else if 0xF0 \<le> b \<and> b \<le> 0xF4 then 3 else 0)"

text \<open>The number of bytes after the first one, when they form a valid multi-byte sequence.\<close>

definition utf8_tail :: "char \<Rightarrow> string \<Rightarrow> nat option" where
  "utf8_tail c s = (let b = of_char c :: nat; n = utf8_need b in
     if n \<le> length s \<and> (case take n s of [] \<Rightarrow> False
          | d # ds \<Rightarrow> utf8_cont (utf8_lo b) (utf8_hi b) d \<and> list_all (utf8_cont 0x80 0xBF) ds)
     then Some n else None)"

definition is_surrogate :: "nat \<Rightarrow> bool" where
  "is_surrogate r \<longleftrightarrow> 0xD800 \<le> r \<and> r < 0xE000"

definition utf8_encode :: "nat \<Rightarrow> string" where
  "utf8_encode r =
     (if r < 0x80 then [char_of r]
      else if r < 0x800 then [char_of (0xC0 + r div 0x40), char_of (0x80 + r mod 0x40)]
      else if is_surrogate r \<or> 0x110000 \<le> r then [CHR 0xEF, CHR 0xBF, CHR 0xBD]
      else if r < 0x10000 then
        [char_of (0xE0 + r div 0x1000), char_of (0x80 + r div 0x40 mod 0x40), char_of (0x80 + r mod 0x40)]
      else [char_of (0xF0 + r div 0x40000), char_of (0x80 + r div 0x1000 mod 0x40),
            char_of (0x80 + r div 0x40 mod 0x40), char_of (0x80 + r mod 0x40)])"

definition hex4 :: "string \<Rightarrow> nat option" where
  "hex4 s = (if length s < 4 then None else
     (case map hex_value (take 4 s) of
        [Some a, Some b, Some c, Some d] \<Rightarrow> Some (((a * 16 + b) * 16 + c) * 16 + d)
      | _ \<Rightarrow> None))"

definition getu4 :: "string \<Rightarrow> nat option" where
  "getu4 s = (if 2 \<le> length s \<and> s ! 0 = CHR 0x5C \<and> s ! 1 = CHR ''u'' then hex4 (drop 2 s) else None)"

definition escaped_char :: "char \<Rightarrow> char" where
  "escaped_char e = (if e = CHR ''b'' then CHR 0x08 else if e = CHR ''f'' then CHR 0x0C else if e = CHR ''n'' then CHR 0x0A
     else if e = CHR ''r'' then CHR 0x0D else if e = CHR ''t'' then CHR 0x09 else e)"

text \<open>A unit that follows \<open>\u\<close>: the second half of a surrogate pair is read with the first.\<close>

definition unquote_unit :: "nat \<Rightarrow> string \<Rightarrow> string \<times> string" where
  "unquote_unit r s =
     (if is_surrogate r
      then (case getu4 s of
              Some r' \<Rightarrow> (if r < 0xDC00 \<and> 0xDC00 \<le> r' \<and> r' < 0xE000
                         then (utf8_encode ((r - 0xD800) * 0x400 + (r' - 0xDC00) + 0x10000), drop 6 s)
                         else (utf8_encode r, s))
            | None \<Rightarrow> (utf8_encode r, s))
      else (utf8_encode r, s))"

definition unquote_step :: "char \<Rightarrow> string \<Rightarrow> string \<times> string" where
  "unquote_step c s =
     (if c = CHR 0x5C then
        (case s of
           [] \<Rightarrow> ([], [])
         | e # s' \<Rightarrow> (if e = CHR ''u'' then (case hex4 s' of Some r \<Rightarrow> unquote_unit r (drop 4 s') | None \<Rightarrow> ([], []))
                     else ([escaped_char e], s')))
      else if (of_char c :: nat) < 0x80 then ([c], s)
      else (case utf8_tail c s of
              Some n \<Rightarrow> (c # take n s, drop n s)
            | None \<Rightarrow> ([CHR 0xEF, CHR 0xBF, CHR 0xBD], s)))"

lemma length_unquote_step: "length (snd (unquote_step c s)) \<le> length s"
  by (auto simp: unquote_step_def unquote_unit_def split: list.splits option.splits)

function unquote :: "string \<Rightarrow> string" where
  "unquote [] = []"
| "unquote (c # s) = fst (unquote_step c s) @ unquote (snd (unquote_step c s))"
  by pat_completeness auto
termination by (relation "measure length") (auto simp: less_Suc_eq_le length_unquote_step)

section \<open>The scanner\<close>

definition maxNestingDepth :: nat where
  "maxNestingDepth = 10000"

datatype frame = InArray "json list" | InObject "(string \<times> json) list" string

definition scan_scalar :: "char \<Rightarrow> string \<Rightarrow> go_error + json \<times> string" where
  "scan_scalar c s =
     (if c = CHR 0x22 then map_sum id (apfst (\<lambda>raw. JString (unquote raw))) (scan_string InString s)
      else if c = CHR ''t'' then map_sum id (Pair (JBool True)) (scan_literal ''rue'' s)
      else if c = CHR ''f'' then map_sum id (Pair (JBool False)) (scan_literal ''alse'' s)
      else if c = CHR ''n'' then map_sum id (Pair JNull) (scan_literal ''ull'' s)
      else if c = CHR ''-'' \<or> is_digit c then map_sum id (apfst JNumber) (scan_number (c # s))
      else Inl SyntaxError)"

text \<open>One character that has to come next, after white space; what follows a key up to its value.\<close>

definition expect :: "string \<Rightarrow> go_error + char \<times> string" where
  "expect s = (case skip_space s of [] \<Rightarrow> Inl io_ErrUnexpectedEOF | c # r \<Rightarrow> Inr (c, r))"

definition scan_key :: "string \<Rightarrow> go_error + string \<times> string" where
  "scan_key s =
     (case expect s of Inl e \<Rightarrow> Inl e | Inr (c, s1) \<Rightarrow>
      if c \<noteq> CHR 0x22 then Inl SyntaxError else
      case scan_string InString s1 of Inl e \<Rightarrow> Inl e | Inr (raw, s2) \<Rightarrow>
      case expect s2 of Inl e \<Rightarrow> Inl e | Inr (d, s3) \<Rightarrow>
      if d \<noteq> CHR '':'' then Inl SyntaxError else Inr (unquote raw, s3))"

lemma length_skip_space: "length (skip_space s) \<le> length s"
  by (simp add: length_dropWhile_le)

lemma length_expect: "expect s = Inr (c, r) \<Longrightarrow> length r < length s"
  using length_skip_space [of s] by (auto simp: expect_def split: list.splits)

lemma length_scan_string: "scan_string st s = Inr (raw, r) \<Longrightarrow> length r < length s"
  by (induction st s arbitrary: raw rule: scan_string.induct)
    (auto split: if_splits simp: map_sum_def less_Suc_eq split: sum.splits)

lemma length_scan_literal: "scan_literal w s = Inr r \<Longrightarrow> length r \<le> length s"
  by (induction w s rule: scan_literal.induct) (auto split: if_splits)

lemma length_scan_key: "scan_key s = Inr (k, r) \<Longrightarrow> length r < length s"
  by (auto simp: scan_key_def split: sum.splits if_splits dest!: length_expect length_scan_string)

lemma map_sum_eq_Inr: "map_sum f g x = Inr y \<longleftrightarrow> (\<exists>z. x = Inr z \<and> g z = y)"
  by (cases x) auto

lemma length_scan_digits: "scan_digits s = Inr (d, r) \<Longrightarrow> length r < length s"
  by (auto simp: scan_digits_def less_Suc_eq_le length_dropWhile_le split: list.splits if_splits)

lemma length_scan_number: "scan_number s = Inr (d, r) \<Longrightarrow> length r < length s"
proof -
  have int: "length r < length s" if "scan_int s = Inr (d, r)" for s d r
    using that by (auto simp: scan_int_def less_Suc_eq_le length_dropWhile_le split: list.splits if_splits)
  have frac: "length r \<le> length s" if "scan_fraction s = Inr (d, r)" for s d r
    using that by (auto simp: scan_fraction_def map_sum_eq_Inr split: list.splits if_splits dest!: length_scan_digits)
  have ex: "length r \<le> length s" if "scan_exponent s = Inr (d, r)" for s d r
    using that by (auto simp: scan_exponent_def map_sum_eq_Inr split: list.splits if_splits dest!: length_scan_digits)
  have unsigned: "length r < length s" if "scan_unsigned s = Inr (d, r)" for s d r
    using that by (auto simp: scan_unsigned_def split: sum.splits dest!: int frac ex)
  show "scan_number s = Inr (d, r) \<Longrightarrow> length r < length s"
    by (auto simp: scan_number_def map_sum_eq_Inr split: list.splits if_splits dest!: unsigned)
qed

lemma length_scan_scalar: "scan_scalar c s = Inr (v, r) \<Longrightarrow> length r \<le> length s"
  by (auto simp: scan_scalar_def map_sum_eq_Inr split: if_splits
      dest!: length_scan_string length_scan_literal length_scan_number)

function run_value :: "frame list \<Rightarrow> string \<Rightarrow> go_error + json \<times> string"
  and run_end :: "frame list \<Rightarrow> json \<Rightarrow> string \<Rightarrow> go_error + json \<times> string" where
  "run_value st s =
     (case expect s of Inl e \<Rightarrow> Inl e | Inr (c, s1) \<Rightarrow>
      if c = CHR ''{'' then
        (if maxNestingDepth \<le> length st then Inl DepthError else
         case expect s1 of Inl e \<Rightarrow> Inl e | Inr (d, s2) \<Rightarrow>
         if d = CHR ''}'' then run_end st (JObject []) s2 else
         case scan_key s1 of Inl e \<Rightarrow> Inl e | Inr (k, s3) \<Rightarrow> run_value (InObject [] k # st) s3)
      else if c = CHR ''['' then
        (if maxNestingDepth \<le> length st then Inl DepthError else
         case expect s1 of Inl e \<Rightarrow> Inl e | Inr (d, s2) \<Rightarrow>
         if d = CHR '']'' then run_end st (JArray []) s2 else run_value (InArray [] # st) s1)
      else (case scan_scalar c s1 of Inl e \<Rightarrow> Inl e | Inr (v, s2) \<Rightarrow> run_end st v s2))"
| "run_end [] v s = Inr (v, s)"
| "run_end (InArray vs # st) v s =
     (case expect s of Inl e \<Rightarrow> Inl e | Inr (c, s1) \<Rightarrow>
      if c = CHR '','' then run_value (InArray (vs @ [v]) # st) s1
      else if c = CHR '']'' then run_end st (JArray (vs @ [v])) s1
      else Inl SyntaxError)"
| "run_end (InObject kvs k # st) v s =
     (case expect s of Inl e \<Rightarrow> Inl e | Inr (c, s1) \<Rightarrow>
      if c = CHR '','' then
        (case scan_key s1 of Inl e \<Rightarrow> Inl e | Inr (k', s2) \<Rightarrow> run_value (InObject (kvs @ [(k, v)]) k' # st) s2)
      else if c = CHR ''}'' then run_end st (JObject (kvs @ [(k, v)])) s1
      else Inl SyntaxError)"
  by pat_completeness auto
termination
  by (relation "measure (\<lambda>x. case x of Inl (st, s) \<Rightarrow> length s | Inr (st, v, s) \<Rightarrow> length s)")
    (auto dest!: length_expect length_scan_key length_scan_scalar)

declare run_value.simps [simp del]

text \<open>
  \<open>readValue\<close> and the scan that comes before decoding: the first value of the input. A blank input is
  \<open>io.EOF\<close>. The machine is total, so every input has a value or an error.
\<close>

definition readValue :: "string \<Rightarrow> go_error + json \<times> string" where
  "readValue s = (if skip_space s = [] then Inl io_EOF else run_value [] s)"

section \<open>Decoding into a variable\<close>

text \<open>The Go types that are decoded into: a struct is the list of its JSON field names with their types.\<close>

datatype ty = TString | TUint32 | TMap | TPtr ty | TSlice ty | TStruct "(string \<times> ty) list"

definition to_upper :: "char \<Rightarrow> char" where
  "to_upper c = (if 97 \<le> (of_char c :: nat) \<and> (of_char c :: nat) < 123 then char_of ((of_char c :: nat) - 32) else c)"

text \<open>
  Names that are equal up to case. Two characters outside ASCII fold to a letter: the long s, U+017F, and the
  Kelvin sign, U+212A.
\<close>

fun foldName :: "string \<Rightarrow> string" where
  "foldName [] = []"
| "foldName (c # s) =
     (if c = CHR 0xC5 \<and> take 1 s = [CHR 0xBF] then CHR ''S'' # foldName (drop 1 s)
      else if c = CHR 0xE2 \<and> take 2 s = [CHR 0x84, CHR 0xAA] then CHR ''K'' # foldName (drop 2 s)
      else to_upper c # foldName s)"

text \<open>The field a key belongs to: the one of that name, otherwise one whose name is equal up to case.\<close>

definition resolve_field :: "string list \<Rightarrow> string \<Rightarrow> string option" where
  "resolve_field names k = (if k \<in> set names then Some k else find (\<lambda>n. foldName n = foldName k) names)"

fun json_kind :: "json \<Rightarrow> string" where
  "json_kind JNull = ''null''"
| "json_kind (JBool b) = ''bool''"
| "json_kind (JNumber l) = ''number''"
| "json_kind (JString s) = ''string''"
| "json_kind (JArray vs) = ''array''"
| "json_kind (JObject kvs) = ''object''"

definition is_uint32 :: "string \<Rightarrow> bool" where
  "is_uint32 l \<longleftrightarrow> list_all is_digit l \<and> decimal_value l < 2 ^ 32"

fun first_error :: "go_error option list \<Rightarrow> go_error option" where
  "first_error [] = None"
| "first_error (None # es) = first_error es"
| "first_error (Some e # es) = Some e"

lemma first_error_None [simp]: "first_error es = None \<longleftrightarrow> (\<forall>e \<in> set es. e = None)"
  by (induction es rule: first_error.induct) auto

lemma size_entry: "kv \<in> set kvs \<Longrightarrow> size (snd kv) < Suc (size_list (size_prod (\<lambda>x. 0) size) kvs)"
  by (induction kvs) (auto simp: less_Suc_eq_le)

lemma size_elem: "v \<in> set vs \<Longrightarrow> size v < Suc (size_list size vs)"
  by (induction vs) (auto simp: less_Suc_eq_le)

text \<open>The first error of decoding a value; \<open>null\<close> is accepted everywhere.\<close>

function json_check :: "ty \<Rightarrow> json \<Rightarrow> go_error option" where
  "json_check TString v = (case v of JNull \<Rightarrow> None | JString s \<Rightarrow> None | _ \<Rightarrow> Some (UnmarshalTypeError (json_kind v)))"
| "json_check TUint32 v = (case v of
       JNull \<Rightarrow> None
     | JNumber l \<Rightarrow> (if is_uint32 l then None else Some (UnmarshalTypeError (''number '' @ l)))
     | _ \<Rightarrow> Some (UnmarshalTypeError (json_kind v)))"
| "json_check TMap v = (case v of
       JNull \<Rightarrow> None
     | JObject kvs \<Rightarrow> first_error (map (\<lambda>kv. json_check TString (snd kv)) kvs)
     | _ \<Rightarrow> Some (UnmarshalTypeError (json_kind v)))"
| "json_check (TPtr t) v = (case v of JNull \<Rightarrow> None | _ \<Rightarrow> json_check t v)"
| "json_check (TSlice t) v = (case v of
       JNull \<Rightarrow> None
     | JArray vs \<Rightarrow> first_error (map (json_check t) vs)
     | _ \<Rightarrow> Some (UnmarshalTypeError (json_kind v)))"
| "json_check (TStruct fs) v = (case v of
       JNull \<Rightarrow> None
     | JObject kvs \<Rightarrow> first_error (map (\<lambda>kv. case resolve_field (map fst fs) (fst kv) of
           None \<Rightarrow> Some (UnknownField (fst kv))
         | Some n \<Rightarrow> (case map_of fs n of None \<Rightarrow> None | Some t \<Rightarrow> json_check t (snd kv))) kvs)
     | _ \<Rightarrow> Some (UnmarshalTypeError (json_kind v)))"
  by pat_completeness auto
termination
  by (relation "measures [\<lambda>(t, v). size v, \<lambda>(t, v). size t]") (auto dest: size_entry size_elem)

text \<open>
  The contents of a variable after the values of a list were decoded into it in turn. A string or a
  number keeps the last value that is not \<open>null\<close>; \<open>null\<close> clears a pointer or a map, and later values are decoded into
  what is there; an element of a slice is decoded into the memory of the earlier element of that index,
  since a shorter array only shortens the slice, while \<open>null\<close> and the empty array give it up.
\<close>

definition build_string :: "json list \<Rightarrow> string" where
  "build_string vs = foldl (\<lambda>old v. case v of JString s \<Rightarrow> s | _ \<Rightarrow> old) [] vs"

definition build_uint32 :: "json list \<Rightarrow> 32 word" where
  "build_uint32 vs = foldl (\<lambda>old v. case v of JNumber l \<Rightarrow> of_nat (decimal_value l) | _ \<Rightarrow> old) 0 vs"

definition since :: "('a \<Rightarrow> bool) \<Rightarrow> 'a list \<Rightarrow> 'a list" where
  "since reset vs = rev (takeWhile (\<lambda>v. \<not> reset v) (rev vs))"

definition build_ptr :: "(json list \<Rightarrow> 'a) \<Rightarrow> json list \<Rightarrow> 'a option" where
  "build_ptr build vs = (let vs' = since (\<lambda>v. v = JNull) vs in if vs' = [] then None else Some (build vs'))"

fun json_entries :: "json \<Rightarrow> (string \<times> json) list" where
  "json_entries (JObject kvs) = kvs"
| "json_entries _ = []"

fun json_elements :: "json \<Rightarrow> json list" where
  "json_elements (JArray vs) = vs"
| "json_elements _ = []"

definition build_map :: "json list \<Rightarrow> string \<rightharpoonup> string" where
  "build_map vs = foldl (\<lambda>m (k, v). m(k \<mapsto> build_string [v])) Map.empty
     (concat (map json_entries (since (\<lambda>v. v = JNull) vs)))"

definition build_slice :: "(json list \<Rightarrow> 'a) \<Rightarrow> json list \<Rightarrow> 'a list" where
  "build_slice build vs = (let arrays = map json_elements (since (\<lambda>v. v = JNull \<or> v = JArray []) vs) in
     if arrays = [] then []
     else map (\<lambda>j. build (concat (map (\<lambda>a. if j < length a then [a ! j] else []) arrays))) [0..<length (last arrays)])"

text \<open>The values that are decoded into one field of a struct, over all values decoded into the struct.\<close>

definition field_values :: "string list \<Rightarrow> string \<Rightarrow> json list \<Rightarrow> json list" where
  "field_values names n vs =
     map snd (filter (\<lambda>kv. resolve_field names (fst kv) = Some n) (concat (map json_entries vs)))"

definition Decode :: "ty \<Rightarrow> (json list \<Rightarrow> 'a) \<Rightarrow> string \<Rightarrow> go_error + 'a" where
  "Decode t build s =
     (case readValue s of Inl e \<Rightarrow> Inl e | Inr (v, rest) \<Rightarrow>
      case json_check t v of Some e \<Rightarrow> Inl e | None \<Rightarrow> Inr (build [v]))"

section \<open>The values a type accepts\<close>

inductive well_typed :: "ty \<Rightarrow> json \<Rightarrow> bool" where
  well_typed_null: "well_typed t JNull"
| well_typed_string: "well_typed TString (JString s)"
| well_typed_uint32: "is_uint32 l \<Longrightarrow> well_typed TUint32 (JNumber l)"
| well_typed_map: "\<forall>kv \<in> set kvs. well_typed TString (snd kv) \<Longrightarrow> well_typed TMap (JObject kvs)"
| well_typed_ptr: "well_typed t v \<Longrightarrow> well_typed (TPtr t) v"
| well_typed_slice: "\<forall>v \<in> set vs. well_typed t v \<Longrightarrow> well_typed (TSlice t) (JArray vs)"
| well_typed_struct: "\<forall>kv \<in> set kvs. \<exists>n t. resolve_field (map fst fs) (fst kv) = Some n \<and> map_of fs n = Some t \<and> well_typed t (snd kv)
    \<Longrightarrow> well_typed (TStruct fs) (JObject kvs)"

inductive_simps well_typed_simps [simp]:
  "well_typed TString v" "well_typed TUint32 v" "well_typed (TPtr t) v" "well_typed (TSlice t) v" "well_typed (TStruct fs) v"

inductive_simps well_typed_TMap: "well_typed TMap v"

declare well_typed_null [simp]

lemma resolve_field_in: "resolve_field names k = Some n \<Longrightarrow> n \<in> set names"
  by (auto simp: resolve_field_def find_Some_iff split: if_splits)

lemma resolve_field_map_of: "resolve_field (map fst fs) k = Some n \<Longrightarrow> \<exists>t. map_of fs n = Some t"
  by (metis resolve_field_in list.set_map map_of_eq_None_iff not_Some_eq)

lemma json_check_iff: "json_check t v = None \<longleftrightarrow> well_typed t v"
proof (induction t v rule: json_check.induct)
  case (6 fs v)
  show ?case
  proof (cases v)
    case (JObject kvs)
    have "(case resolve_field (map fst fs) (fst kv) of None \<Rightarrow> Some (UnknownField (fst kv))
        | Some n \<Rightarrow> (case map_of fs n of None \<Rightarrow> None | Some t \<Rightarrow> json_check t (snd kv))) = None
      \<longleftrightarrow> (\<exists>n t. resolve_field (map fst fs) (fst kv) = Some n \<and> map_of fs n = Some t \<and> well_typed t (snd kv))"
      if "kv \<in> set kvs" for kv
      using 6 [OF JObject that] by (auto split: option.splits dest: resolve_field_map_of)
    with JObject show ?thesis by auto
  qed simp_all
qed (auto simp: well_typed_TMap split: json.splits)

lemma Decode_Inr_iff:
  "Decode t build s = Inr x \<longleftrightarrow> (\<exists>v rest. readValue s = Inr (v, rest) \<and> well_typed t v \<and> x = build [v])"
  by (auto simp: Decode_def json_check_iff split: sum.splits option.splits) (metis json_check_iff option.distinct(1))+

end
