(* ===== verification/Istio_Factory.thy ===== *)
theory Istio_Factory
  imports Samples Networking Json
begin

text \<open>
  The factory of Istio resources, \<open>internal/pkg/istio/config_factory.go\<close>: one definition per method
  of \<open>ConfigFactory\<close>, over records for the specs of the resources with the fields the program sets.
  An operation that may return an error or panic (a nil gateway port, a host name without a dot)
  has an \<open>outcome\<close>. Arguments stand for the code outside the program: the Service lister (a field of
  the factory), the resolver of the host (\<open>lookupIP\<close>), the JSON to \<open>structpb\<close> conversion
  (\<open>unmarshalStruct\<close>), and the order in which Go walks a map (\<open>ord\<close>).
\<close>

section \<open>Specs\<close>

datatype ClientTLSmode = ISTIO_MUTUAL

record ClientTLSSettings =
  ctls_Mode :: ClientTLSmode
  ctls_Sni :: string

record PortTrafficPolicy =
  ptp_Port :: "32 word"
  ptp_Tls :: ClientTLSSettings

record TrafficPolicy =
  tp_Tls :: "ClientTLSSettings option"
  tp_PortLevelSettings :: "PortTrafficPolicy list"

record DestinationRuleSpec =
  dr_Host :: string
  dr_TrafficPolicy :: TrafficPolicy

datatype ServerTLSmode = AUTO_PASSTHROUGH

record GatewayServer =
  srv_Hosts :: "string list"
  srv_PortNumber :: "32 word"
  srv_PortName :: string
  srv_PortProtocol :: string
  srv_TlsMode :: ServerTLSmode

record GatewaySpec =
  gw_Selector :: labels
  gw_Servers :: "GatewayServer list"

datatype EnvoyApplyTo = FILTER_CHAIN

datatype EnvoyOperation = MERGE

record EnvoyPatch =
  ep_ApplyTo :: EnvoyApplyTo
  ep_ListenerName :: string
  ep_FilterChainSni :: string
  ep_Operation :: EnvoyOperation
  ep_Value :: json

record EnvoyFilterSpec =
  ef_WorkloadSelector :: labels
  ef_ConfigPatches :: "EnvoyPatch list"

record WorkloadEntrySpec =
  we_Address :: string
  we_Labels :: labels
  we_Ports :: "string \<rightharpoonup> 32 word"
  we_Network :: string

datatype SELocation = MESH_INTERNAL

datatype SEResolution = STATIC | DNS

record SEPort =
  sep_Name :: string
  sep_Number :: "32 word"
  sep_Protocol :: string
  sep_TargetPort :: "32 word"

record ServiceEntrySpec =
  se_Hosts :: "string list"
  se_Ports :: "SEPort list"
  se_Endpoints :: "WorkloadEntrySpec list"
  se_Location :: SELocation
  se_Resolution :: SEResolution

type_synonym DestinationRule = "DestinationRuleSpec kobject"
type_synonym Gateway = "GatewaySpec kobject"
type_synonym EnvoyFilter = "EnvoyFilterSpec kobject"
type_synonym ServiceEntry = "ServiceEntrySpec kobject"
type_synonym WorkloadEntry = "WorkloadEntrySpec kobject"

section \<open>The factory\<close>

record ConfigFactory =
  cf_cfg :: Federation
  cf_serviceLister :: ServiceLister
  cf_importedServiceStore :: ImportedServiceStore
  cf_namespace :: string

definition NewConfigFactory :: "Federation \<Rightarrow> ServiceLister \<Rightarrow> ImportedServiceStore \<Rightarrow> string \<Rightarrow> ConfigFactory" where
  "NewConfigFactory cfg lister store ns =
     \<lparr>cf_cfg = cfg, cf_serviceLister = lister, cf_importedServiceStore = store, cf_namespace = ns\<rparr>"

definition federationIngressGatewayName :: string where
  "federationIngressGatewayName = ''federation-ingress-gateway''"

definition routerCompatibleSNI :: "string \<Rightarrow> string \<Rightarrow> 32 word \<Rightarrow> string" where
  "routerCompatibleSNI svcName svcNs port =
     svcName @ ''-'' @ fmt_uint32 port @ ''.'' @ svcNs @ ''.svc.cluster.local''"

fun makePortsMap :: "FedPort list \<Rightarrow> 32 word \<Rightarrow> (string \<rightharpoonup> 32 word)" where
  "makePortsMap ports remotePort = foldl (\<lambda>m p. m(fp_Name p \<mapsto> remotePort)) Map.empty ports"

definition separateWithDash :: "string \<Rightarrow> string" where
  "separateWithDash hostname = strings_Join (strings_Split (CHR ''.'') hostname) ''-''"

definition getServiceNameAndNs :: "string \<Rightarrow> (string \<times> string) outcome" where
  "getServiceNameAndNs hostname =
     (let domainLabels = strings_Split (CHR ''.'') hostname
      in obind (index domainLabels 0) (\<lambda>n. obind (index domainLabels 1) (\<lambda>ns. Val (n, ns))))"

section \<open>DestinationRules\<close>

definition dr_meta :: "ConfigFactory \<Rightarrow> string \<Rightarrow> ObjectMeta" where
  "dr_meta cf hostname =
     \<lparr>om_Name = ''mtls-sni-'' @ separateWithDash hostname,
      om_Namespace = control_plane_namespace (cf_cfg cf),
      om_Labels = peer_labels\<rparr>"

definition dr_for_remote_controller :: "ConfigFactory \<Rightarrow> Remote \<Rightarrow> DestinationRule" where
  "dr_for_remote_controller cf remote =
     \<lparr>ko_Meta = dr_meta cf (ServiceName remote @ ''.istio-system.svc.cluster.local''),
      ko_Spec = \<lparr>dr_Host = ServiceFQDN remote,
                 dr_TrafficPolicy =
                   \<lparr>tp_Tls = Some \<lparr>ctls_Mode = ISTIO_MUTUAL,
                                   ctls_Sni = routerCompatibleSNI (ServiceName remote) ''istio-system'' (ServicePort remote)\<rparr>,
                    tp_PortLevelSettings = []\<rparr>\<rparr>\<rparr>"

definition dr_port_settings :: "FederatedService \<Rightarrow> FedPort \<Rightarrow> PortTrafficPolicy list outcome" where
  "dr_port_settings svc port =
     obind (getServiceNameAndNs (GetHostname (Some svc))) (\<lambda>(svcName, svcNs).
       Val [\<lparr>ptp_Port = fp_Number port,
             ptp_Tls = \<lparr>ctls_Mode = ISTIO_MUTUAL,
                        ctls_Sni = routerCompatibleSNI svcName svcNs (fp_Number port)\<rparr>\<rparr>])"

definition dr_for_service :: "ConfigFactory \<Rightarrow> FederatedService \<Rightarrow> DestinationRule outcome" where
  "dr_for_service cf svc =
     obind (collect (dr_port_settings svc) (fs_Ports svc)) (\<lambda>settings.
       Val \<lparr>ko_Meta = dr_meta cf (GetHostname (Some svc)),
            ko_Spec = \<lparr>dr_Host = GetHostname (Some svc),
                       dr_TrafficPolicy = \<lparr>tp_Tls = None, tp_PortLevelSettings = settings\<rparr>\<rparr>\<rparr>)"

text \<open>
  The map \<open>destinationRulesAlreadyCreated\<close> is consulted for each imported service; no statement of
  the method writes it, so it stays the map the method starts with.
\<close>

definition DestinationRules :: "ConfigFactory \<Rightarrow> DestinationRule list outcome" where
  "DestinationRules cf =
     (let destinationRulesAlreadyCreated = (\<lambda>name :: string. False) in
      collect (\<lambda>remote.
        if remote_IngressType remote \<noteq> OpenShiftRouter then Val []
        else obind (collect (\<lambda>svc.
                 if \<not> destinationRulesAlreadyCreated (om_Name (dr_meta cf (GetHostname (Some svc))))
                 then obind (dr_for_service cf svc) (\<lambda>dr. Val [dr])
                 else Val [])
               (From (cf_importedServiceStore cf) remote))
             (\<lambda>drs. Val (dr_for_remote_controller cf remote # drs)))
        (remotes_of (cf_cfg cf)))"

section \<open>IngressGateway\<close>

definition service_host :: "Service \<Rightarrow> string" where
  "service_host svc = svc_Name svc @ ''.'' @ svc_Namespace svc @ ''.svc.cluster.local''"

definition discovery_host :: "ConfigFactory \<Rightarrow> string" where
  "discovery_host cf = ''federation-discovery-service-'' @ local_name (cf_cfg cf) @ ''.'' @ cf_namespace cf
     @ ''.svc.cluster.local''"

definition IngressGateway :: "ConfigFactory \<Rightarrow> Gateway outcome" where
  "IngressGateway cf =
     obind (deref (lg_Port (local_ingress (cf_cfg cf)))) (\<lambda>port.
     obind (collect (\<lambda>sel.
              obind (of_result ''error listing services'' (lister_List (cf_serviceLister cf) (ls_MatchLabels sel)))
                (\<lambda>svcs. Val (map service_host svcs)))
            (export_selectors (cf_cfg cf))) (\<lambda>exported.
     let hosts = sort (discovery_host cf # exported) in
     Val \<lparr>ko_Meta = \<lparr>om_Name = federationIngressGatewayName,
                     om_Namespace = control_plane_namespace (cf_cfg cf),
                     om_Labels = peer_labels\<rparr>,
          ko_Spec = \<lparr>gw_Selector = lg_Selector (local_ingress (cf_cfg cf)),
                     gw_Servers = [\<lparr>srv_Hosts = hosts, srv_PortNumber = gp_Number port,
                                    srv_PortName = gp_Name port, srv_PortProtocol = ''TLS'',
                                    srv_TlsMode = AUTO_PASSTHROUGH\<rparr>]\<rparr>\<rparr>))"

section \<open>EnvoyFilters\<close>

type_synonym struct_unmarshaller = "string \<Rightarrow> json \<times> go_error option"

definition buildPatchStruct :: "struct_unmarshaller \<Rightarrow> string \<Rightarrow> json" where
  "buildPatchStruct unmarshalStruct config = fst (unmarshalStruct config)"

definition patch_text :: "string \<Rightarrow> string" where
  "patch_text sni = ''{'' @ [CHR 0x22] @ ''filter_chain_match'' @ [CHR 0x22] @ '':{'' @ [CHR 0x22] @ ''server_names''
     @ [CHR 0x22] @ '':['' @ [CHR 0x22] @ sni @ [CHR 0x22] @ '']}}''"

definition createEnvoyFilter :: "struct_unmarshaller \<Rightarrow> ConfigFactory \<Rightarrow> string \<Rightarrow> string \<Rightarrow> 32 word
    \<Rightarrow> EnvoyFilter outcome" where
  "createEnvoyFilter unmarshalStruct cf svcName svcNamespace port =
     obind (deref (lg_Port (local_ingress (cf_cfg cf)))) (\<lambda>gatewayPort.
     Val \<lparr>ko_Meta = \<lparr>om_Name = ''sni-'' @ svcName @ ''-'' @ svcNamespace @ ''-'' @ fmt_int32 port,
                     om_Namespace = control_plane_namespace (cf_cfg cf),
                     om_Labels = peer_labels\<rparr>,
          ko_Spec = \<lparr>ef_WorkloadSelector = lg_Selector (local_ingress (cf_cfg cf)),
                     ef_ConfigPatches = [\<lparr>ep_ApplyTo = FILTER_CHAIN,
                       ep_ListenerName = ''0.0.0.0_'' @ fmt_uint32 (gp_Number gatewayPort),
                       ep_FilterChainSni = ''outbound_.'' @ fmt_int32 port @ ''_._.'' @ svcName @ ''.'' @ svcNamespace
                         @ ''.svc.cluster.local'',
                       ep_Operation = MERGE,
                       ep_Value = buildPatchStruct unmarshalStruct
                         (patch_text (routerCompatibleSNI svcName svcNamespace port))\<rparr>]\<rparr>\<rparr>)"

definition EnvoyFilters :: "struct_unmarshaller \<Rightarrow> ConfigFactory \<Rightarrow> EnvoyFilter list outcome" where
  "EnvoyFilters unmarshalStruct cf =
     (if local_IngressType (mp_Local (fed_MeshPeers (cf_cfg cf))) \<noteq> OpenShiftRouter then Val []
      else
        obind (createEnvoyFilter unmarshalStruct cf
                 (''federation-discovery-service-'' @ local_name (cf_cfg cf)) ''istio-system'' 15080) (\<lambda>fds.
        obind (collect (\<lambda>sel.
                 (case lister_List (cf_serviceLister cf) (ls_MatchLabels sel) of (svcs, err) \<Rightarrow>
                    collect (\<lambda>svc. collect (\<lambda>port.
                        obind (createEnvoyFilter unmarshalStruct cf (svc_Name svc) (svc_Namespace svc) (core_Port port))
                          (\<lambda>ef. Val [ef]))
                      (svc_Ports svc)) svcs))
               (export_selectors (cf_cfg cf))) (\<lambda>efs.
        Val (fds # efs))))"

section \<open>ServiceEntries\<close>

definition istio_tls_label :: labels where
  "istio_tls_label = [''security.istio.io/tlsMode'' \<mapsto> ''istio'']"

definition resolution_of :: "Remote \<Rightarrow> SEResolution outcome" where
  "resolution_of remote =
     obind (index (remote_Addresses remote) 0) (\<lambda>addr. Val (if IsIP addr then STATIC else DNS))"

definition serviceEntryForRemoteFederationController :: "ConfigFactory \<Rightarrow> Remote \<Rightarrow> ServiceEntry outcome" where
  "serviceEntryForRemoteFederationController cf remote =
     obind (resolution_of remote) (\<lambda>resolution.
     Val \<lparr>ko_Meta = \<lparr>om_Name = ServiceName remote,
                     om_Namespace = control_plane_namespace (cf_cfg cf),
                     om_Labels = peer_labels\<rparr>,
          ko_Spec = \<lparr>se_Hosts = [ServiceFQDN remote],
                     se_Ports = [\<lparr>sep_Name = ''grpc'', sep_Number = ServicePort remote,
                                  sep_Protocol = ''GRPC'', sep_TargetPort = 0\<rparr>],
                     se_Endpoints = map (\<lambda>addr. \<lparr>we_Address = addr, we_Labels = istio_tls_label,
                         we_Ports = [''grpc'' \<mapsto> GetPort (Some remote)], we_Network = remote_Network remote\<rparr>)
                       (remote_Addresses remote),
                     se_Location = MESH_INTERNAL,
                     se_Resolution = resolution\<rparr>\<rparr>)"

definition import_endpoint :: "Remote \<Rightarrow> FederatedService \<Rightarrow> string \<Rightarrow> WorkloadEntrySpec" where
  "import_endpoint remote svc addr =
     \<lparr>we_Address = addr, we_Labels = fs_Labels svc ++ istio_tls_label,
      we_Ports = makePortsMap (fs_Ports svc) (GetPort (Some remote)), we_Network = remote_Network remote\<rparr>"

definition import_name :: "Remote \<Rightarrow> FederatedService \<Rightarrow> string" where
  "import_name remote svc = ''import-'' @ separateWithDash (GetHostname (Some svc)) @ ''-'' @ remote_Name remote"

definition new_service_entry :: "ConfigFactory \<Rightarrow> Remote \<Rightarrow> SEResolution \<Rightarrow> FederatedService \<Rightarrow> ServiceEntry" where
  "new_service_entry cf remote resolution svc =
     \<lparr>ko_Meta = \<lparr>om_Name = import_name remote svc,
                 om_Namespace = control_plane_namespace (cf_cfg cf),
                 om_Labels = peer_labels\<rparr>,
      ko_Spec = \<lparr>se_Hosts = [GetHostname (Some svc)],
                 se_Ports = map (\<lambda>p. \<lparr>sep_Name = fp_Name p, sep_Number = fp_Number p,
                                      sep_Protocol = fp_Protocol p, sep_TargetPort = fp_TargetPort p\<rparr>) (fs_Ports svc),
                 se_Endpoints = map (import_endpoint remote svc) (remote_Addresses remote),
                 se_Location = MESH_INTERNAL,
                 se_Resolution = resolution\<rparr>\<rparr>"

definition append_endpoints :: "ServiceEntry \<Rightarrow> WorkloadEntrySpec list \<Rightarrow> ServiceEntry" where
  "append_endpoints entry eps =
     entry\<lparr>ko_Spec := (ko_Spec entry)\<lparr>se_Endpoints := se_Endpoints (ko_Spec entry) @ eps\<rparr>\<rparr>"

type_synonym entries_by_name = "(string \<times> ServiceEntry) list"

definition service_entry_step :: "ConfigFactory \<Rightarrow> Remote \<Rightarrow> SEResolution \<Rightarrow> FederatedService
    \<Rightarrow> entries_by_name \<Rightarrow> entries_by_name outcome" where
  "service_entry_step cf remote resolution svc byName =
     obind (getServiceNameAndNs (GetHostname (Some svc))) (\<lambda>(svcName, svcNs).
     (case lister_Get (cf_serviceLister cf) svcNs svcName of
        Inr _ \<Rightarrow> Val byName
      | Inl err \<Rightarrow>
          if \<not> IsNotFound err then Fail (Wrap ''failed to get Service'' err)
          else
            let name = import_name remote svc;
                entry = (case map_of byName name of
                    Some old \<Rightarrow> append_endpoints old (map (import_endpoint remote svc) (remote_Addresses remote))
                  | None \<Rightarrow> new_service_entry cf remote resolution svc)
            in Val (AList.update name entry byName)))"

definition service_entries_for_remote :: "ConfigFactory \<Rightarrow> Remote
    \<Rightarrow> ServiceEntry list \<times> entries_by_name \<Rightarrow> (ServiceEntry list \<times> entries_by_name) outcome" where
  "service_entries_for_remote cf remote = (\<lambda>(entries, byName).
     if remote_Addresses remote = [] then Val (entries, byName)
     else
       obind (serviceEntryForRemoteFederationController cf remote) (\<lambda>fds.
       obind (resolution_of remote) (\<lambda>resolution.
       obind (for_each (service_entry_step cf remote resolution)
                (From (cf_importedServiceStore cf) remote) byName) (\<lambda>byName'.
       Val (entries @ [fds], byName')))))"

definition ServiceEntries :: "(ServiceEntry list \<Rightarrow> ServiceEntry list) \<Rightarrow> ConfigFactory \<Rightarrow> ServiceEntry list outcome" where
  "ServiceEntries ord cf =
     obind (for_each (service_entries_for_remote cf) (remotes_of (cf_cfg cf)) ([], [])) (\<lambda>(entries, byName).
     Val (entries @ ord (map snd byName)))"

section \<open>WorkloadEntries\<close>

definition workload_entry :: "Remote \<Rightarrow> FederatedService \<Rightarrow> string \<Rightarrow> string \<Rightarrow> nat \<Rightarrow> string \<Rightarrow> WorkloadEntry" where
  "workload_entry remote svc svcName svcNs idx ip =
     \<lparr>ko_Meta = \<lparr>om_Name = ''import-'' @ remote_Name remote @ ''-'' @ svcName @ ''-'' @ fmt_nat idx,
                 om_Namespace = svcNs, om_Labels = peer_labels\<rparr>,
      ko_Spec = \<lparr>we_Address = ip, we_Labels = fs_Labels svc ++ istio_tls_label,
                 we_Ports = makePortsMap (fs_Ports svc) (GetPort (Some remote)),
                 we_Network = remote_Network remote\<rparr>\<rparr>"

definition workload_entries_for :: "resolver \<Rightarrow> ConfigFactory \<Rightarrow> Remote \<Rightarrow> FederatedService \<Rightarrow> WorkloadEntry list outcome" where
  "workload_entries_for lookupIP cf remote svc =
     obind (getServiceNameAndNs (GetHostname (Some svc))) (\<lambda>(svcName, svcNs).
     (case lister_Get (cf_serviceLister cf) svcNs svcName of
        Inl err \<Rightarrow> if \<not> IsNotFound err then Fail (Wrap ''failed to get Service'' err) else Val []
      | Inr _ \<Rightarrow> Val (map (\<lambda>(idx, ip). workload_entry remote svc svcName svcNs idx ip)
                        (enumerate 0 (Resolve lookupIP (remote_Addresses remote))))))"

definition WorkloadEntries :: "resolver \<Rightarrow> ConfigFactory \<Rightarrow> WorkloadEntry list outcome" where
  "WorkloadEntries lookupIP cf =
     collect (\<lambda>remote. collect (workload_entries_for lookupIP cf remote) (From (cf_importedServiceStore cf) remote))
       (remotes_of (cf_cfg cf))"

section \<open>Host names\<close>

lemma NewConfigFactory_sel [simp]:
  "cf_cfg (NewConfigFactory cfg l st ns) = cfg"
  "cf_serviceLister (NewConfigFactory cfg l st ns) = l"
  "cf_importedServiceStore (NewConfigFactory cfg l st ns) = st"
  "cf_namespace (NewConfigFactory cfg l st ns) = ns"
  by (simp_all add: NewConfigFactory_def)

lemma separateWithDash_eq: "separateWithDash h = map (\<lambda>c. if c = CHR ''.'' then CHR ''-'' else c) h"
  by (simp add: separateWithDash_def Join_Split_replace)

lemma getServiceNameAndNs_dotted:
  assumes "CHR ''.'' \<notin> set n" and "CHR ''.'' \<notin> set ns"
  shows "getServiceNameAndNs (n @ CHR ''.'' # ns @ CHR ''.'' # t) = Val (n, ns)"
  by (simp add: getServiceNameAndNs_def Let_def strings_Split_append [OF assms(1)]
      strings_Split_append [OF assms(2)])

lemma getServiceNameAndNs_no_dot:
  "CHR ''.'' \<notin> set h \<Longrightarrow> getServiceNameAndNs h = Panic IndexOutOfRange"
  by (simp add: getServiceNameAndNs_def Let_def strings_Split_no_sep)

lemma getServiceNameAndNs_dot:
  assumes "CHR ''.'' \<in> set h"
  obtains n ns where "getServiceNameAndNs h = Val (n, ns)"
proof -
  have "count_list h (CHR ''.'') \<noteq> 0"
    using assms by (simp add: count_list_0_iff)
  then have "1 < length (strings_Split (CHR ''.'') h)"
    by (simp add: length_strings_Split)
  then obtain a b xs where "strings_Split (CHR ''.'') h = a # b # xs"
    by (cases "strings_Split (CHR ''.'') h"; cases "tl (strings_Split (CHR ''.'') h)") auto
  then have "getServiceNameAndNs h = Val (a, b)"
    by (simp add: getServiceNameAndNs_def Let_def)
  then show ?thesis by (rule that)
qed

lemma getServiceNameAndNs_not_Fail [simp]: "getServiceNameAndNs h \<noteq> Fail e"
  by (simp add: getServiceNameAndNs_def Let_def outcome_simps)

lemma getServiceNameAndNs_exported:
  assumes "CHR ''.'' \<notin> set (svc_Name svc)" and "CHR ''.'' \<notin> set (svc_Namespace svc)"
  shows "getServiceNameAndNs (exported_hostname svc) = Val (svc_Name svc, svc_Namespace svc)"
  using getServiceNameAndNs_dotted [OF assms] by (simp add: exported_hostname_def)

lemma makePortsMap_eq:
  "makePortsMap ports p = (\<lambda>n. if n \<in> fp_Name ` set ports then Some p else None)"
proof -
  have "foldl (\<lambda>m q. m(fp_Name q \<mapsto> p)) m ports =
      (\<lambda>n. if n \<in> fp_Name ` set ports then Some p else m n)" for m
    by (induction ports arbitrary: m) auto
  then show ?thesis by simp
qed

declare makePortsMap.simps [simp del]

section \<open>A sample factory\<close>

definition sample_factory :: "Remote list \<Rightarrow> ConfigFactory" where
  "sample_factory remotes = NewConfigFactory (east_cfg OpenShiftRouter remotes) plain_lister west_store ''istio-system''"

lemma sample_factory_sel [simp]:
  "cf_cfg (sample_factory rs) = east_cfg OpenShiftRouter rs"
  "cf_serviceLister (sample_factory rs) = plain_lister"
  "cf_importedServiceStore (sample_factory rs) = west_store"
  "cf_namespace (sample_factory rs) = ''istio-system''"
  by (simp_all add: sample_factory_def)

end
