(* ===== verification/Istio_Imports.thy ===== *)
theory Istio_Imports
  imports Istio_Factory
begin

text \<open>
  The import side of the Istio factory: what \<open>ServiceEntries\<close> and \<open>WorkloadEntries\<close> of
  \<open>config_factory.go\<close> return. \<open>ServiceEntries\<close> is shown equal to a grouping by resource name of the
  imports that have no local Service (\<open>imports_of\<close>, \<open>merged_entry\<close>); the properties say that it returns,
  what it returns, that an import is configured in exactly one way, when it panics, and what happens
  to imports whose resource names collide.
\<close>

section \<open>ServiceEntries as a grouping of the imports without a local Service\<close>

definition missing_locally :: "Service list \<Rightarrow> FederatedService \<Rightarrow> bool" where
  "missing_locally svcs svc = (case getServiceNameAndNs (fs_Hostname svc) of
       Val (n, ns) \<Rightarrow> \<not> (\<exists>s \<in> set svcs. svc_Namespace s = ns \<and> svc_Name s = n)
     | _ \<Rightarrow> False)"

definition all_dotted :: "ConfigFactory \<Rightarrow> bool" where
  "all_dotted cf \<longleftrightarrow> (\<forall>r \<in> set (remotes_of (cf_cfg cf)). \<forall>svc \<in> set (From (cf_importedServiceStore cf) r).
     CHR ''.'' \<in> set (fs_Hostname svc))"

definition remote_resolution :: "Remote \<Rightarrow> SEResolution" where
  "remote_resolution r = (if IsIP (hd (remote_Addresses r)) then STATIC else DNS)"

definition remote_imports :: "ConfigFactory \<Rightarrow> Service list \<Rightarrow> Remote \<Rightarrow> (Remote \<times> FederatedService) list" where
  "remote_imports cf svcs r = (if remote_Addresses r = [] then []
     else map (Pair r) (filter (missing_locally svcs) (From (cf_importedServiceStore cf) r)))"

definition imports_of :: "ConfigFactory \<Rightarrow> Service list \<Rightarrow> (Remote \<times> FederatedService) list" where
  "imports_of cf svcs = concat (map (remote_imports cf svcs) (remotes_of (cf_cfg cf)))"

definition pair_endpoints :: "Remote \<times> FederatedService \<Rightarrow> WorkloadEntrySpec list" where
  "pair_endpoints = (\<lambda>(r, svc). map (import_endpoint r svc) (remote_Addresses r))"

definition pair_name :: "Remote \<times> FederatedService \<Rightarrow> string" where
  "pair_name = (\<lambda>(r, svc). import_name r svc)"

definition pair_entry :: "ConfigFactory \<Rightarrow> Remote \<times> FederatedService \<Rightarrow> ServiceEntry" where
  "pair_entry cf = (\<lambda>(r, svc). new_service_entry cf r (remote_resolution r) svc)"

text \<open>The entry of one name: the first import gives host, ports and resolution, all give endpoints.\<close>

fun merged_entry :: "ConfigFactory \<Rightarrow> (Remote \<times> FederatedService) list \<Rightarrow> ServiceEntry option" where
  "merged_entry cf [] = None"
| "merged_entry cf (p # ps) = Some (append_endpoints (pair_entry cf p) (concat (map pair_endpoints ps)))"

definition add_import :: "ConfigFactory \<Rightarrow> Remote \<times> FederatedService \<Rightarrow> entries_by_name \<Rightarrow> entries_by_name" where
  "add_import cf p m = AList.update (pair_name p)
     (case map_of m (pair_name p) of Some old \<Rightarrow> append_endpoints old (pair_endpoints p)
      | None \<Rightarrow> pair_entry cf p) m"

lemma append_endpoints_append [simp]:
  "append_endpoints (append_endpoints e xs) ys = append_endpoints e (xs @ ys)"
  by (simp add: append_endpoints_def)

lemma append_endpoints_Nil [simp]: "append_endpoints e [] = e"
  by (simp add: append_endpoints_def)

lemma map_of_add_imports:
  "map_of (fold (add_import cf) ps []) n = merged_entry cf (filter (\<lambda>p. pair_name p = n) ps)"
proof (induction ps rule: rev_induct)
  case Nil
  show ?case by simp
next
  case (snoc p ps)
  have "map_of (fold (add_import cf) (ps @ [p]) []) n =
    ((map_of (fold (add_import cf) ps []))(pair_name p \<mapsto>
       (case map_of (fold (add_import cf) ps []) (pair_name p) of
          Some old \<Rightarrow> append_endpoints old (pair_endpoints p) | None \<Rightarrow> pair_entry cf p))) n"
    by (simp add: add_import_def update_conv')
  with snoc.IH show ?case
    by (cases "filter (\<lambda>p. pair_name p = n) ps") auto
qed

lemma distinct_add_imports: "distinct (map fst (fold (add_import cf) ps []))"
  by (induction ps rule: rev_induct) (auto simp: add_import_def distinct_update)

lemma keys_add_imports: "set (map fst (fold (add_import cf) ps [])) = pair_name ` set ps"
  by (induction ps rule: rev_induct) (auto simp: add_import_def dom_update)

lemma entries_add_imports:
  "mset (map snd (fold (add_import cf) ps [])) =
   mset (map (\<lambda>n. the (merged_entry cf (filter (\<lambda>p. pair_name p = n) ps))) (remdups (map pair_name ps)))"
proof -
  let ?m = "fold (add_import cf) ps []"
  have "map snd ?m = map (\<lambda>n. the (map_of ?m n)) (map fst ?m)"
    using distinct_add_imports [of cf ps] by (auto simp: map_of_is_SomeI)
  then have "mset (map snd ?m) = image_mset (\<lambda>n. the (map_of ?m n)) (mset (map fst ?m))"
    by (simp only: mset_map)
  moreover have "mset (map fst ?m) = mset (remdups (map pair_name ps))"
    using distinct_add_imports [of cf ps] keys_add_imports [of cf ps]
    by (subst set_eq_iff_mset_eq_distinct [symmetric]) auto
  ultimately show ?thesis
    by (simp only: map_of_add_imports mset_map)
qed

lemma resolution_of_Val: "remote_Addresses r \<noteq> [] \<Longrightarrow> resolution_of r = Val (remote_resolution r)"
  by (cases "remote_Addresses r") (simp_all add: resolution_of_def remote_resolution_def)

lemma service_entry_step_eq:
  assumes "serves_cache matches svcs (cf_serviceLister cf)" and "CHR ''.'' \<in> set (fs_Hostname svc)"
  shows "service_entry_step cf r (remote_resolution r) svc m =
    Val (if missing_locally svcs svc then add_import cf (r, svc) m else m)"
proof -
  obtain n ns where n: "getServiceNameAndNs (fs_Hostname svc) = Val (n, ns)"
    using assms(2) by (rule getServiceNameAndNs_dot)
  have "case lister_Get (cf_serviceLister cf) ns n of
          Inr s \<Rightarrow> s \<in> set svcs \<and> svc_Namespace s = ns \<and> svc_Name s = n
        | Inl e \<Rightarrow> IsNotFound e \<and> (\<forall>s \<in> set svcs. \<not> (svc_Namespace s = ns \<and> svc_Name s = n))"
    using assms(1) by (simp add: serves_cache_def)
  with n show ?thesis
    by (auto simp: service_entry_step_def missing_locally_def add_import_def pair_name_def pair_entry_def
        pair_endpoints_def Let_def split: sum.splits option.splits)
qed

lemma service_entry_loop_eq:
  assumes "serves_cache matches svcs (cf_serviceLister cf)" and "\<forall>svc \<in> set ss. CHR ''.'' \<in> set (fs_Hostname svc)"
  shows "for_each (service_entry_step cf r (remote_resolution r)) ss m =
    Val (fold (add_import cf) (map (Pair r) (filter (missing_locally svcs) ss)) m)"
  using assms(2) by (induction ss arbitrary: m) (simp_all add: service_entry_step_eq [OF assms(1)])

definition controller_entries :: "ConfigFactory \<Rightarrow> Remote list \<Rightarrow> ServiceEntry list outcome" where
  "controller_entries cf rs = collect (\<lambda>r. if remote_Addresses r = [] then Val []
     else obind (serviceEntryForRemoteFederationController cf r) (\<lambda>e. Val [e])) rs"

lemma controller_entry_Val:
  "remote_Addresses r \<noteq> [] \<Longrightarrow> \<exists>e. serviceEntryForRemoteFederationController cf r = Val e"
  by (simp add: serviceEntryForRemoteFederationController_def resolution_of_Val)

lemma controller_entries_Val: "\<exists>es. controller_entries cf rs = Val es"
  unfolding controller_entries_def
  by (rule collect_total) (auto dest: controller_entry_Val [of _ cf])

lemma service_entries_loop_eq:
  assumes cache: "serves_cache matches svcs (cf_serviceLister cf)"
    and dotted: "\<forall>r \<in> set rs. \<forall>svc \<in> set (From (cf_importedServiceStore cf) r). CHR ''.'' \<in> set (fs_Hostname svc)"
    and fds: "controller_entries cf rs = Val fds"
  shows "for_each (service_entries_for_remote cf) rs (es, m) =
    Val (es @ fds, fold (add_import cf) (concat (map (remote_imports cf svcs) rs)) m)"
  using dotted fds
proof (induction rs arbitrary: es m fds)
  case Nil
  then show ?case by (simp add: controller_entries_def)
next
  case (Cons r rs)
  obtain fs where fs: "controller_entries cf rs = Val fs"
    using controller_entries_Val by blast
  note IH = Cons.IH [OF _ fs]
  show ?case
  proof (cases "remote_Addresses r = []")
    case True
    with Cons.prems IH fs show ?thesis
      by (simp add: service_entries_for_remote_def remote_imports_def controller_entries_def)
  next
    case False
    obtain e where e: "serviceEntryForRemoteFederationController cf r = Val e"
      using controller_entry_Val [OF False] by blast
    have "fds = e # fs"
      using Cons.prems(2) False e fs by (simp add: controller_entries_def)
    with False e IH Cons.prems(1) show ?thesis
      by (simp add: service_entries_for_remote_def remote_imports_def resolution_of_Val
          service_entry_loop_eq [OF cache])
  qed
qed

section \<open>WorkloadEntries\<close>

lemma workload_entries_for_eq:
  assumes "serves_cache matches svcs (cf_serviceLister cf)" and "getServiceNameAndNs (fs_Hostname svc) = Val (n, ns)"
  shows "workload_entries_for dns cf r svc = Val (if missing_locally svcs svc then []
    else map (\<lambda>(idx, ip). workload_entry r svc n ns idx ip) (enumerate 0 (Resolve dns (remote_Addresses r))))"
proof -
  have "case lister_Get (cf_serviceLister cf) ns n of
          Inr s \<Rightarrow> s \<in> set svcs \<and> svc_Namespace s = ns \<and> svc_Name s = n
        | Inl e \<Rightarrow> IsNotFound e \<and> (\<forall>s \<in> set svcs. \<not> (svc_Namespace s = ns \<and> svc_Name s = n))"
    using assms(1) by (simp add: serves_cache_def)
  with assms(2) show ?thesis
    by (auto simp: workload_entries_for_def missing_locally_def split: sum.splits)
qed

lemma workload_entry_address: "we_Address (ko_Spec (workload_entry r svc n ns i ip)) = ip"
  by (simp add: workload_entry_def)

lemma workload_entries_addresses:
  "map (\<lambda>e. we_Address (ko_Spec e)) (map (\<lambda>(i, ip). workload_entry r svc n ns i ip) (enumerate k ips)) = ips"
  by (simp add: comp_def case_prod_unfold workload_entry_address)

lemma workload_entry_key:
  "obj_key (workload_entry r svc n ns i ip) = obj_key (workload_entry r svc n ns j ip') \<longleftrightarrow> i = j"
  by (simp add: workload_entry_def obj_key_def)

lemma workload_entries_distinct:
  "distinct (map obj_key (map (\<lambda>(i, ip). workload_entry r svc n ns i ip) (enumerate k ips)))"
  by (auto simp: distinct_map inj_on_def workload_entry_key in_set_enumerate_eq)

lemma WorkloadEntries_total:
  assumes "serves_cache matches svcs (cf_serviceLister cf)" and "all_dotted cf"
  shows "\<exists>wes. WorkloadEntries dns cf = Val wes"
  unfolding WorkloadEntries_def
proof (intro collect_total)
  fix r svc assume "r \<in> set (remotes_of (cf_cfg cf))" "svc \<in> set (From (cf_importedServiceStore cf) r)"
  then have "CHR ''.'' \<in> set (fs_Hostname svc)" using assms(2) by (simp add: all_dotted_def)
  then obtain n ns where "getServiceNameAndNs (fs_Hostname svc) = Val (n, ns)"
    by (rule getServiceNameAndNs_dot)
  from workload_entries_for_eq [OF assms(1) this] show "\<exists>zs. workload_entries_for dns cf r svc = Val zs" by blast
qed

section \<open>Names\<close>

lemma pair_entry_name: "om_Name (ko_Meta (append_endpoints (pair_entry cf p) eps)) = pair_name p"
  by (simp add: append_endpoints_def pair_entry_def pair_name_def new_service_entry_def split: prod.splits)

lemma pair_entry_hosts: "se_Hosts (ko_Spec (append_endpoints (pair_entry cf (r, svc)) eps)) = [fs_Hostname svc]"
  by (simp add: append_endpoints_def pair_entry_def new_service_entry_def)

lemma pair_entry_endpoints:
  "se_Endpoints (ko_Spec (append_endpoints (pair_entry cf p) eps)) = pair_endpoints p @ eps"
  by (simp add: append_endpoints_def pair_entry_def new_service_entry_def pair_endpoints_def split: prod.splits)

lemma controller_entry_name:
  "controller_entries cf rs = Val fds \<Longrightarrow> e \<in> set fds \<Longrightarrow>
   \<exists>r \<in> set rs. remote_Addresses r \<noteq> [] \<and> om_Name (ko_Meta e) = ServiceName r"
  by (fastforce simp: controller_entries_def serviceEntryForRemoteFederationController_def outcome_simps
      collect_Val_set split: if_splits)

lemma import_name_not_ServiceName: "import_name r svc \<noteq> ServiceName r'"
  by (simp add: import_name_def ServiceName_def)

lemma import_entry_iff:
  assumes "mset es = mset (map (\<lambda>n. the (merged_entry cf (filter (\<lambda>p. pair_name p = n) ps))) (remdups (map pair_name ps)))"
    and "inj_on pair_name (set ps \<union> {(r, svc)})"
  shows "(\<exists>e \<in> set es. om_Name (ko_Meta e) = import_name r svc \<and> se_Hosts (ko_Spec e) = [fs_Hostname svc])
    \<longleftrightarrow> (r, svc) \<in> set ps"
proof -
  have group: "\<exists>qs. filter (\<lambda>q. pair_name q = pair_name p) ps = p # qs" if p: "p \<in> set ps" for p
  proof -
    have "filter (\<lambda>q. pair_name q = pair_name p) ps = filter (\<lambda>q. q = p) ps"
      using assms(2) p by (auto intro!: filter_cong simp: inj_on_def)
    moreover have "\<exists>qs. filter (\<lambda>q. q = p) ps = p # qs"
      using p by (induction ps) auto
    ultimately show ?thesis by simp
  qed
  have es: "set es = (\<lambda>n. the (merged_entry cf (filter (\<lambda>p. pair_name p = n) ps))) ` pair_name ` set ps"
    using mset_eq_setD [OF assms(1)] by simp
  show ?thesis
  proof
    assume "\<exists>e \<in> set es. om_Name (ko_Meta e) = import_name r svc \<and> se_Hosts (ko_Spec e) = [fs_Hostname svc]"
    then obtain p where p: "p \<in> set ps"
      and n: "om_Name (ko_Meta (the (merged_entry cf (filter (\<lambda>q. pair_name q = pair_name p) ps)))) = import_name r svc"
      unfolding es by auto
    with group [OF p] have "pair_name p = pair_name (r, svc)"
      by (auto simp: pair_entry_name) (simp add: pair_name_def)
    with assms(2) p have "p = (r, svc)" by (auto simp: inj_on_def)
    with p show "(r, svc) \<in> set ps" by simp
  next
    assume p: "(r, svc) \<in> set ps"
    then have "the (merged_entry cf (filter (\<lambda>q. pair_name q = pair_name (r, svc)) ps)) \<in> set es"
      unfolding es by blast
    with group [OF p] show "\<exists>e \<in> set es. om_Name (ko_Meta e) = import_name r svc \<and> se_Hosts (ko_Spec e) = [fs_Hostname svc]"
      by (force simp: pair_entry_name pair_entry_hosts pair_name_def)
  qed
qed

section \<open>Properties\<close>

lemma all_dotted_sample: "all_dotted (sample_factory [west, central])"
  by (simp add: all_dotted_def importedA_ns1_def importedB_ns1_def importedA_ns2_def)

lemma service_entries_total:
  assumes "serves_cache matches svcs (cf_serviceLister cf)" and "all_dotted cf" and "is_order ord"
  shows "\<exists>fds es. controller_entries cf (remotes_of (cf_cfg cf)) = Val fds \<and> ServiceEntries ord cf = Val (fds @ es)
    \<and> mset es = mset (map (\<lambda>n. the (merged_entry cf (filter (\<lambda>p. pair_name p = n) (imports_of cf svcs))))
                  (remdups (map pair_name (imports_of cf svcs))))"
proof -
  let ?imports = "imports_of cf svcs"
  obtain fds where fds: "controller_entries cf (remotes_of (cf_cfg cf)) = Val fds"
    using controller_entries_Val by blast
  have "ServiceEntries ord cf = Val (fds @ ord (map snd (fold (add_import cf) ?imports [])))"
    using service_entries_loop_eq [OF assms(1) _ fds, of "[]" "[]"] assms(2)
    by (simp add: ServiceEntries_def all_dotted_def imports_of_def)
  moreover have "mset (ord (map snd (fold (add_import cf) ?imports []))) = mset (map snd (fold (add_import cf) ?imports []))"
    using assms(3) by (simp add: is_order_def)
  ultimately show ?thesis
    using fds entries_add_imports by metis
qed



definition imported_pairs :: "ConfigFactory \<Rightarrow> (Remote \<times> FederatedService) set" where
  "imported_pairs cf = {(r, svc). r \<in> set (remotes_of (cf_cfg cf)) \<and> svc \<in> set (From (cf_importedServiceStore cf) r)}"

lemma imports_of_iff:
  "(r, svc) \<in> set (imports_of cf svcs) \<longleftrightarrow>
   (r, svc) \<in> imported_pairs cf \<and> remote_Addresses r \<noteq> [] \<and> missing_locally svcs svc"
  by (auto simp: imports_of_def remote_imports_def imported_pairs_def)

text \<open>
  C12: an imported service of a remote with an address is configured in exactly one of two ways. If no
  local Service has its name and namespace, there is a \<open>ServiceEntry\<close> with its host and no
  \<open>WorkloadEntry\<close>; otherwise there is no \<open>ServiceEntry\<close> for it and there is one \<open>WorkloadEntry\<close> per
  resolved address of the remote, under distinct names. (Resource names of different imports must
  differ: see the collision theorem below.)
\<close>

theorem import_configured_exactly_once:
  assumes "serves_cache matches svcs (cf_serviceLister cf)" and "all_dotted cf" and "is_order ord"
    and inj: "inj_on pair_name (imported_pairs cf)"
    and pair: "(r, svc) \<in> imported_pairs cf" and addr: "remote_Addresses r \<noteq> []"
  shows "\<exists>ses wes. ServiceEntries ord cf = Val ses \<and> workload_entries_for dns cf r svc = Val wes
    \<and> ((\<exists>e \<in> set ses. om_Name (ko_Meta e) = import_name r svc \<and> se_Hosts (ko_Spec e) = [fs_Hostname svc])
         \<longleftrightarrow> missing_locally svcs svc)
    \<and> map (\<lambda>e. we_Address (ko_Spec e)) wes =
        (if missing_locally svcs svc then [] else Resolve dns (remote_Addresses r))
    \<and> distinct (map obj_key wes)"
proof -
  obtain fds es where fds: "controller_entries cf (remotes_of (cf_cfg cf)) = Val fds"
    and ses: "ServiceEntries ord cf = Val (fds @ es)"
    and es: "mset es = mset (map (\<lambda>n. the (merged_entry cf (filter (\<lambda>p. pair_name p = n) (imports_of cf svcs))))
                  (remdups (map pair_name (imports_of cf svcs))))"
    using service_entries_total [OF assms(1-3)] by blast
  have "set (imports_of cf svcs) \<union> {(r, svc)} \<subseteq> imported_pairs cf"
    using pair by (auto simp: imports_of_iff)
  then have "inj_on pair_name (set (imports_of cf svcs) \<union> {(r, svc)})"
    by (rule inj_on_subset [OF inj])
  note iff = import_entry_iff [OF es this]
  have fds_no: "om_Name (ko_Meta e) \<noteq> import_name r svc" if "e \<in> set fds" for e
    using controller_entry_name [OF fds that] import_name_not_ServiceName by metis
  have "CHR ''.'' \<in> set (fs_Hostname svc)"
    using assms(2) pair by (auto simp: all_dotted_def imported_pairs_def)
  then obtain n ns where n: "getServiceNameAndNs (fs_Hostname svc) = Val (n, ns)"
    by (rule getServiceNameAndNs_dot)
  show ?thesis
    using ses iff fds_no pair addr
    by (auto simp: imports_of_iff workload_entries_for_eq [OF assms(1) n] workload_entries_addresses
        workload_entries_distinct simp del: map_map)
qed

theorem import_configured_exactly_once_witness:
  "inj_on pair_name (imported_pairs (sample_factory [west])) \<and>
   (\<exists>ses wes. ServiceEntries rev (sample_factory [west]) = Val ses
      \<and> workload_entries_for (\<lambda>_. ([], None)) (sample_factory [west]) west importedA_ns1 = Val wes
      \<and> \<not> (\<exists>e \<in> set ses. om_Name (ko_Meta e) = import_name west importedA_ns1
              \<and> se_Hosts (ko_Spec e) = [fs_Hostname importedA_ns1])
      \<and> map (\<lambda>e. we_Address (ko_Spec e)) wes = [''1.1.1.1'', ''2.2.2.2''] \<and> distinct (map obj_key wes))"
proof -
  have pairs: "imported_pairs (sample_factory [west]) = {(west, importedA_ns1), (west, importedB_ns1), (west, importedA_ns2)}"
    by (auto simp: imported_pairs_def)
  have inj: "inj_on pair_name (imported_pairs (sample_factory [west]))"
    unfolding pairs by (simp add: pair_name_def import_name_def separateWithDash_eq sample_defs)
  have dotted: "all_dotted (sample_factory [west])"
    by (simp add: all_dotted_def importedA_ns1_def importedB_ns1_def importedA_ns2_def)
  have present: "\<not> missing_locally [svcA_ns1] importedA_ns1"
    by (simp add: missing_locally_def sample_defs getServiceNameAndNs_def Let_def)
  have addrs: "Resolve (\<lambda>_. ([], None)) (remote_Addresses west) = [''1.1.1.1'', ''2.2.2.2'']"
    by (simp add: west_def IsIP_def parseIPv4_def is_digit_def digit_value_def)
  have cache: "serves_cache (\<subseteq>\<^sub>m) [svcA_ns1] (cf_serviceLister (sample_factory [west]))"
    by (simp add: plain_lister_serves)
  have "(west, importedA_ns1) \<in> imported_pairs (sample_factory [west])" and "remote_Addresses west \<noteq> []"
    by (simp_all add: pairs) (simp add: west_def)
  from import_configured_exactly_once [OF cache dotted is_order_rev inj this, of "\<lambda>_. ([], None)"] inj
  show ?thesis
    unfolding addrs using present by simp
qed

subsection \<open>Host names without a dot\<close>

lemma service_entry_step_no_dot:
  "CHR ''.'' \<notin> set (fs_Hostname svc) \<Longrightarrow> service_entry_step cf r res svc m = Panic IndexOutOfRange"
  by (simp add: service_entry_step_def getServiceNameAndNs_no_dot)

lemma workload_entries_for_no_dot:
  "CHR ''.'' \<notin> set (fs_Hostname svc) \<Longrightarrow> workload_entries_for dns cf r svc = Panic IndexOutOfRange"
  by (simp add: workload_entries_for_def getServiceNameAndNs_no_dot)

lemma service_entry_step_cases:
  assumes "serves_cache matches svcs (cf_serviceLister cf)"
  shows "(\<exists>m'. service_entry_step cf r (remote_resolution r) svc m = Val m')
    \<or> service_entry_step cf r (remote_resolution r) svc m = Panic IndexOutOfRange"
  using service_entry_step_eq [OF assms, of svc r m] service_entry_step_no_dot [of svc cf r _ m]
  by (cases "CHR ''.'' \<in> set (fs_Hostname svc)") auto

lemma workload_entries_for_cases:
  assumes "serves_cache matches svcs (cf_serviceLister cf)"
  shows "(\<exists>wes. workload_entries_for dns cf r svc = Val wes) \<or> workload_entries_for dns cf r svc = Panic IndexOutOfRange"
proof (cases "CHR ''.'' \<in> set (fs_Hostname svc)")
  case True
  then obtain n ns where "getServiceNameAndNs (fs_Hostname svc) = Val (n, ns)"
    by (rule getServiceNameAndNs_dot)
  then show ?thesis using workload_entries_for_eq [OF assms] by blast
next
  case False
  then show ?thesis by (simp add: workload_entries_for_no_dot)
qed

lemma service_entries_for_remote_cases:
  assumes "serves_cache matches svcs (cf_serviceLister cf)"
  shows "(\<exists>t. service_entries_for_remote cf r s = Val t) \<or> service_entries_for_remote cf r s = Panic IndexOutOfRange"
proof (cases "remote_Addresses r = []")
  case True
  then show ?thesis by (simp add: service_entries_for_remote_def split: prod.splits)
next
  case False
  obtain es m where s: "s = (es, m)" by (cases s)
  obtain e where "serviceEntryForRemoteFederationController cf r = Val e"
    using controller_entry_Val [OF False] by blast
  moreover have "(\<exists>t. for_each (service_entry_step cf r (remote_resolution r)) (From (cf_importedServiceStore cf) r) m = Val t)
      \<or> for_each (service_entry_step cf r (remote_resolution r)) (From (cf_importedServiceStore cf) r) m = Panic IndexOutOfRange"
    by (rule for_each_Val_or_Panic) (rule service_entry_step_cases [OF assms])
  ultimately show ?thesis
    using False by (auto simp: s service_entries_for_remote_def resolution_of_Val)
qed

lemma service_entries_for_remote_no_dot:
  assumes cache: "serves_cache matches svcs (cf_serviceLister cf)" and addr: "remote_Addresses r \<noteq> []"
    and svc: "svc \<in> set (From (cf_importedServiceStore cf) r)" "CHR ''.'' \<notin> set (fs_Hostname svc)"
  shows "service_entries_for_remote cf r s = Panic IndexOutOfRange"
proof -
  obtain es m where s: "s = (es, m)" by (cases s)
  have "for_each (service_entry_step cf r (remote_resolution r)) (From (cf_importedServiceStore cf) r) m = Panic IndexOutOfRange"
    by (rule for_each_Panic [OF svc(1)])
      (simp_all add: service_entry_step_no_dot [OF svc(2)] service_entry_step_cases [OF cache])
  with addr show ?thesis
    using controller_entry_Val [OF addr, of cf] by (auto simp: s service_entries_for_remote_def resolution_of_Val)
qed

text \<open>
  C33: the host name of an imported service comes from the remote peer and is not checked. If it has
  no dot, \<open>getServiceNameAndNs\<close> indexes past the end of the split name: \<open>WorkloadEntries\<close> panics, and so
  does \<open>ServiceEntries\<close> when the remote has an address.
\<close>

theorem dotless_host_panics:
  assumes "serves_cache matches svcs (cf_serviceLister cf)" and "(r, svc) \<in> imported_pairs cf"
    and "CHR ''.'' \<notin> set (fs_Hostname svc)"
  shows "WorkloadEntries dns cf = Panic IndexOutOfRange \<and>
    (if remote_Addresses r = [] then True else ServiceEntries ord cf = Panic IndexOutOfRange)"
proof
  from assms(2) have r: "r \<in> set (remotes_of (cf_cfg cf))" and svc: "svc \<in> set (From (cf_importedServiceStore cf) r)"
    by (auto simp: imported_pairs_def)
  have "collect (workload_entries_for dns cf r) (From (cf_importedServiceStore cf) r) = Panic IndexOutOfRange"
    by (rule collect_Panic [OF svc]) (simp_all add: workload_entries_for_no_dot [OF assms(3)]
        workload_entries_for_cases [OF assms(1)])
  then show "WorkloadEntries dns cf = Panic IndexOutOfRange"
    unfolding WorkloadEntries_def
    by (rule collect_Panic [OF r]) (rule collect_Val_or_Panic, rule workload_entries_for_cases [OF assms(1)])
  have "for_each (service_entries_for_remote cf) (remotes_of (cf_cfg cf)) ([], []) = Panic IndexOutOfRange"
    if "remote_Addresses r \<noteq> []"
    by (rule for_each_Panic [OF r]) (rule service_entries_for_remote_no_dot [OF assms(1) that svc assms(3)]
        service_entries_for_remote_cases [OF assms(1)])+
  then show "if remote_Addresses r = [] then True else ServiceEntries ord cf = Panic IndexOutOfRange"
    by (simp add: ServiceEntries_def)
qed

definition dotless_factory :: ConfigFactory where
  "dotless_factory = NewConfigFactory (east_cfg Istio [west]) plain_lister
     (Update NewImportedServiceStore ''west'' [importedA_ns1\<lparr>fs_Hostname := ''localhost''\<rparr>]) ''istio-system''"

theorem dotless_host_panics_witness:
  "WorkloadEntries (\<lambda>_. ([], None)) dotless_factory = Panic IndexOutOfRange \<and>
   ServiceEntries rev dotless_factory = Panic IndexOutOfRange"
proof -
  let ?svc = "importedA_ns1\<lparr>fs_Hostname := ''localhost''\<rparr>"
  have "serves_cache (\<subseteq>\<^sub>m) [svcA_ns1] (cf_serviceLister dotless_factory)"
    by (simp add: dotless_factory_def NewConfigFactory_def plain_lister_serves)
  moreover have "(west, ?svc) \<in> imported_pairs dotless_factory"
    by (simp add: imported_pairs_def dotless_factory_def NewConfigFactory_def) (simp add: west_def)
  moreover have "CHR ''.'' \<notin> set (fs_Hostname ?svc)" by simp
  ultimately show ?thesis
    using dotless_host_panics [of "(\<subseteq>\<^sub>m)" "[svcA_ns1]" dotless_factory west ?svc "\<lambda>_. ([], None)" rev]
    by (simp add: west_def)
qed

subsection \<open>Resource names\<close>

lemma separateWithDash_inj:
  assumes "CHR ''-'' \<notin> set h" and "CHR ''-'' \<notin> set h'" and "separateWithDash h = separateWithDash h'"
  shows "h = h'"
  using assms(3) unfolding separateWithDash_eq
proof (rule map_inj_on [OF _ inj_onI])
  fix a b
  assume "a \<in> set h \<union> set h'" and "b \<in> set h \<union> set h'"
    and "(if a = CHR ''.'' then CHR ''-'' else a) = (if b = CHR ''.'' then CHR ''-'' else b)"
  with assms(1,2) show "a = b" by (auto split: if_splits)
qed

lemma import_name_inj_no_dash:
  assumes "CHR ''-'' \<notin> set (fs_Hostname s)" and "CHR ''-'' \<notin> set (fs_Hostname s')"
    and "import_name r s = import_name r s'"
  shows "fs_Hostname s = fs_Hostname s'"
  using assms separateWithDash_inj by (simp add: import_name_def)

text \<open>
  C37: the resource name of an import replaces the dots of its host by dashes, so two different hosts
  such as \<open>x.y-z\<close> and \<open>x-y.z\<close> (service \<open>x\<close> of namespace \<open>y-z\<close>, service \<open>x-y\<close> of namespace \<open>z\<close>) get the same name.
  \<open>ServiceEntries\<close> then returns one entry for both: it carries the host of the first alone and the
  endpoints of both, so the second service has no entry.
\<close>

theorem colliding_imports_lose_a_host:
  assumes "serves_cache matches svcs (cf_serviceLister cf)" and "all_dotted cf" and "is_order ord"
    and "imports_of cf svcs = [(r, s1), (r, s2)]"
    and "fs_Hostname s1 = x @ ''.'' @ y @ ''-'' @ z" and "fs_Hostname s2 = x @ ''-'' @ y @ ''.'' @ z"
  shows "fs_Hostname s1 \<noteq> fs_Hostname s2 \<and>
    (\<exists>fds e. controller_entries cf (remotes_of (cf_cfg cf)) = Val fds \<and> ServiceEntries ord cf = Val (fds @ [e])
       \<and> se_Hosts (ko_Spec e) = [fs_Hostname s1]
       \<and> length (se_Endpoints (ko_Spec e)) = 2 * length (remote_Addresses r))"
proof -
  have "import_name r s1 = import_name r s2"
    by (simp add: import_name_def separateWithDash_eq assms(5,6))
  then have name: "pair_name (r, s1) = pair_name (r, s2)" by (simp add: pair_name_def)
  obtain fds es where "controller_entries cf (remotes_of (cf_cfg cf)) = Val fds" and "ServiceEntries ord cf = Val (fds @ es)"
    and "mset es = {#the (merged_entry cf [(r, s1), (r, s2)])#}"
    using service_entries_total [OF assms(1-3)] by (auto simp: assms(4) name)
  then show ?thesis
    using assms(5,6) by (auto simp: mset_single_iff pair_entry_hosts pair_entry_endpoints pair_endpoints_def)
qed

definition collision_store :: ImportedServiceStore where
  "collision_store = Update NewImportedServiceStore ''west''
     [importedA_ns1\<lparr>fs_Hostname := ''web.eu-shop.svc.cluster.local''\<rparr>,
      importedA_ns1\<lparr>fs_Hostname := ''web-eu.shop.svc.cluster.local''\<rparr>]"

theorem colliding_imports_lose_a_host_witness:
  "\<exists>fds e. ServiceEntries rev (NewConfigFactory (east_cfg Istio [west]) plain_lister collision_store ''istio-system'')
       = Val (fds @ [e]) \<and> se_Hosts (ko_Spec e) = [''web.eu-shop.svc.cluster.local'']
       \<and> length (se_Endpoints (ko_Spec e)) = 4"
proof -
  let ?cf = "NewConfigFactory (east_cfg Istio [west]) plain_lister collision_store ''istio-system''"
  let ?s1 = "importedA_ns1\<lparr>fs_Hostname := ''web.eu-shop.svc.cluster.local''\<rparr>"
  let ?s2 = "importedA_ns1\<lparr>fs_Hostname := ''web-eu.shop.svc.cluster.local''\<rparr>"
  have from_west: "From collision_store west = [?s1, ?s2]"
    by (simp add: collision_store_def west_def)
  have addr: "remote_Addresses west = [''1.1.1.1'', ''2.2.2.2'']"
    by (simp add: west_def)
  have cache: "serves_cache (\<subseteq>\<^sub>m) [svcA_ns1] (cf_serviceLister ?cf)"
    by (simp add: plain_lister_serves)
  have dotted: "all_dotted ?cf"
    by (simp add: all_dotted_def from_west)
  have "missing_locally [svcA_ns1] ?s1" "missing_locally [svcA_ns1] ?s2"
    by (simp_all add: missing_locally_def getServiceNameAndNs_def Let_def) (simp_all add: svcA_ns1_def)
  then have pairs: "imports_of ?cf [svcA_ns1] = [(west, ?s1), (west, ?s2)]"
    by (simp add: imports_of_def remote_imports_def from_west addr)
  show ?thesis
    using colliding_imports_lose_a_host [OF cache dotted is_order_rev pairs,
        of "''web''" "''eu''" "''shop.svc.cluster.local''"] addr
    by auto
qed

end
