(* ===== verification/Istio_Exports.thy ===== *)
theory Istio_Exports
  imports Istio_Factory
begin

text \<open>
  The export side of the Istio factory and the client TLS settings: what \<open>IngressGateway\<close>,
  \<open>EnvoyFilters\<close> and \<open>DestinationRules\<close> of \<open>config_factory.go\<close> return.
\<close>

section \<open>IngressGateway\<close>

definition exported_hosts :: "ConfigFactory \<Rightarrow> string list" where
  "exported_hosts cf = map service_host (exported_services (cf_serviceLister cf) (export_selectors (cf_cfg cf)))"

definition gateway_with :: "ConfigFactory \<Rightarrow> GatewayPort \<Rightarrow> string list \<Rightarrow> Gateway" where
  "gateway_with cf port hosts =
     \<lparr>ko_Meta = \<lparr>om_Name = federationIngressGatewayName, om_Namespace = control_plane_namespace (cf_cfg cf),
                 om_Labels = peer_labels\<rparr>,
      ko_Spec = \<lparr>gw_Selector = lg_Selector (local_ingress (cf_cfg cf)),
                 gw_Servers = [\<lparr>srv_Hosts = hosts, srv_PortNumber = gp_Number port, srv_PortName = gp_Name port,
                                srv_PortProtocol = ''TLS'', srv_TlsMode = AUTO_PASSTHROUGH\<rparr>]\<rparr>\<rparr>"

lemma IngressGateway_eq:
  assumes "serves_cache matches svcs (cf_serviceLister cf)" and "lg_Port (local_ingress (cf_cfg cf)) = Some port"
  shows "IngressGateway cf = Val (gateway_with cf port (sort (discovery_host cf # exported_hosts cf)))"
proof -
  let ?l = "cf_serviceLister cf"
  have *: "of_result msg (lister_List ?l sel) = Val (fst (lister_List ?l sel))" for msg sel
    using serves_cache_List [OF assms(1), of sel] by (metis of_result.simps(1))
  have "collect (\<lambda>sel. obind (of_result ''error listing services'' (lister_List ?l (ls_MatchLabels sel)))
           (\<lambda>svcs. Val (map service_host svcs))) sels
       = Val (concat (map (\<lambda>sel. map service_host (fst (lister_List ?l (ls_MatchLabels sel)))) sels))"
    for sels :: "LabelSelectors list"
    by (rule collect_Val) (simp add: *)
  with assms(2) show ?thesis
    by (simp add: IngressGateway_def gateway_with_def exported_hosts_def exported_services_def Let_def map_concat comp_def)
qed

lemma exported_services_mset:
  assumes "serves_cache matches svcs l" and "serves_cache matches svcs l'"
  shows "mset (exported_services l sels) = mset (exported_services l' sels)"
proof -
  have "mset (fst (lister_List l sel)) = mset (fst (lister_List l' sel))" for sel
    using assms by (simp add: serves_cache_def)
  then show ?thesis
    by (induction sels) (simp_all add: exported_services_def)
qed

lemma sort_mset_cong: "mset xs = mset ys \<Longrightarrow> sort xs = sort ys"
  by (metis sorted_list_of_multiset_mset)

text \<open>
  C13: with a gateway port configured, \<open>IngressGateway\<close> returns a gateway with one TLS auto-passthrough
  server on that port, whose hosts are in order and are exactly the discovery service and the Services
  that match an export rule.
\<close>

theorem IngressGateway_exposes_exports:
  assumes "serves_cache matches svcs (cf_serviceLister cf)" and "lg_Port (local_ingress (cf_cfg cf)) = Some port"
  shows "\<exists>gw srv. IngressGateway cf = Val gw \<and> gw_Servers (ko_Spec gw) = [srv]
    \<and> srv_PortNumber srv = gp_Number port \<and> srv_TlsMode srv = AUTO_PASSTHROUGH \<and> sorted (srv_Hosts srv)
    \<and> set (srv_Hosts srv) = insert (discovery_host cf)
        (service_host ` {s \<in> set svcs. MatchExportRules matches s (export_selectors (cf_cfg cf))})"
  by (simp add: IngressGateway_eq [OF assms] gateway_with_def exported_hosts_def
      set_exported_services [OF assms(1)] set_insort_key sorted_insort)

theorem IngressGateway_exposes_exports_witness:
  "\<exists>gw srv. IngressGateway (NewConfigFactory (east_cfg Istio []) east_lister NewImportedServiceStore ''istio-system'') = Val gw
    \<and> gw_Servers (ko_Spec gw) = [srv] \<and> srv_PortNumber srv = 443
    \<and> set (srv_Hosts srv) = {''federation-discovery-service-east.istio-system.svc.cluster.local'',
        ''b.ns1.svc.cluster.local'', ''a.ns2.svc.cluster.local''}"
proof -
  let ?cf = "NewConfigFactory (east_cfg Istio []) east_lister NewImportedServiceStore ''istio-system''"
  have cache: "serves_cache (\<subseteq>\<^sub>m) [svcA_ns1, svcB_ns1, svcA_ns2] (cf_serviceLister ?cf)"
    by (simp add: east_lister_serves)
  have port: "lg_Port (local_ingress (cf_cfg ?cf)) = Some \<lparr>gp_Name = ''tls'', gp_Number = 443\<rparr>"
    by (simp add: east_cfg_def)
  have "{s \<in> set [svcA_ns1, svcB_ns1, svcA_ns2]. MatchExportRules (\<subseteq>\<^sub>m) s (export_selectors (cf_cfg ?cf))}
      = {svcB_ns1, svcA_ns2}"
    by auto
  moreover have "discovery_host ?cf = ''federation-discovery-service-east.istio-system.svc.cluster.local''"
    by (simp add: discovery_host_def east_cfg_def)
  moreover have "service_host svcB_ns1 = ''b.ns1.svc.cluster.local''" "service_host svcA_ns2 = ''a.ns2.svc.cluster.local''"
    by (simp_all add: service_host_def sample_defs)
  ultimately show ?thesis
    using IngressGateway_exposes_exports [OF cache port] by auto
qed

text \<open>
  The gateway does not depend on the order in which the Service cache lists its content: two
  listers over the same Services give the same resource, so a reconciliation that changes nothing
  causes no new push to the proxies.
\<close>

lemma IngressGateway_deterministic:
  assumes "serves_cache matches svcs l" and "serves_cache matches svcs l'"
  shows "IngressGateway (NewConfigFactory cfg l store ns) = IngressGateway (NewConfigFactory cfg l' store ns)"
proof (cases "lg_Port (local_ingress cfg)")
  case None
  then show ?thesis by (simp add: IngressGateway_def NewConfigFactory_def)
next
  case (Some port)
  let ?cf = "NewConfigFactory cfg l store ns" and ?cf' = "NewConfigFactory cfg l' store ns"
  have "mset (exported_hosts ?cf) = mset (exported_hosts ?cf')"
    using exported_services_mset [OF assms] by (simp add: exported_hosts_def NewConfigFactory_def)
  then have "sort (discovery_host ?cf # exported_hosts ?cf) = sort (discovery_host ?cf' # exported_hosts ?cf')"
    by (intro sort_mset_cong) (simp add: discovery_host_def NewConfigFactory_def)
  moreover have "gateway_with ?cf = gateway_with ?cf'"
    by (simp add: fun_eq_iff gateway_with_def NewConfigFactory_def)
  moreover have "IngressGateway ?cf = Val (gateway_with ?cf port (sort (discovery_host ?cf # exported_hosts ?cf)))"
    by (rule IngressGateway_eq [where matches = matches and svcs = svcs]) (simp_all add: assms Some)
  moreover have "IngressGateway ?cf' = Val (gateway_with ?cf' port (sort (discovery_host ?cf' # exported_hosts ?cf')))"
    by (rule IngressGateway_eq [where matches = matches and svcs = svcs]) (simp_all add: assms Some)
  ultimately show ?thesis by simp
qed



section \<open>EnvoyFilters\<close>

lemma createEnvoyFilter_Val_iff:
  "(\<exists>ef. createEnvoyFilter u cf n ns p = Val ef) \<longleftrightarrow> lg_Port (local_ingress (cf_cfg cf)) \<noteq> None"
  by (cases "lg_Port (local_ingress (cf_cfg cf))") (simp_all add: createEnvoyFilter_def)

section \<open>DestinationRules\<close>

lemma dr_for_service_Val:
  assumes "getServiceNameAndNs (fs_Hostname svc) = Val (n, ns)"
  shows "dr_for_service cf svc = Val \<lparr>ko_Meta = dr_meta cf (fs_Hostname svc),
     ko_Spec = \<lparr>dr_Host = fs_Hostname svc, dr_TrafficPolicy = \<lparr>tp_Tls = None,
       tp_PortLevelSettings = map (\<lambda>p. \<lparr>ptp_Port = fp_Number p,
          ptp_Tls = \<lparr>ctls_Mode = ISTIO_MUTUAL, ctls_Sni = routerCompatibleSNI n ns (fp_Number p)\<rparr>\<rparr>) (fs_Ports svc)\<rparr>\<rparr>\<rparr>"
proof -
  let ?f = "\<lambda>p. \<lparr>ptp_Port = fp_Number p,
          ptp_Tls = \<lparr>ctls_Mode = ISTIO_MUTUAL, ctls_Sni = routerCompatibleSNI n ns (fp_Number p)\<rparr>\<rparr>"
  have "collect (dr_port_settings svc) (fs_Ports svc) = Val (concat (map (\<lambda>p. [?f p]) (fs_Ports svc)))"
    by (rule collect_Val) (simp add: dr_port_settings_def assms)
  then show ?thesis
    by (simp add: dr_for_service_def)
qed

text \<open>The rules of one remote: its federation controller, then each service it exports.\<close>

definition remote_rules :: "ConfigFactory \<Rightarrow> Remote \<Rightarrow> DestinationRule list outcome" where
  "remote_rules cf remote = (if remote_IngressType remote \<noteq> OpenShiftRouter then Val []
     else obind (collect (\<lambda>svc. obind (dr_for_service cf svc) (\<lambda>dr. Val [dr])) (From (cf_importedServiceStore cf) remote))
       (\<lambda>drs. Val (dr_for_remote_controller cf remote # drs)))"

lemma DestinationRules_eq: "DestinationRules cf = collect (remote_rules cf) (remotes_of (cf_cfg cf))"
  by (simp add: DestinationRules_def remote_rules_def [abs_def] Let_def cong: if_cong)

lemma remote_rules_Val:
  assumes "remote_IngressType r = OpenShiftRouter"
    and "\<forall>svc \<in> set (From (cf_importedServiceStore cf) r). CHR ''.'' \<in> set (fs_Hostname svc)"
  shows "\<exists>drs. remote_rules cf r = Val (dr_for_remote_controller cf r # drs)
    \<and> map (\<lambda>dr. dr_Host (ko_Spec dr)) drs = map fs_Hostname (From (cf_importedServiceStore cf) r)
    \<and> (\<forall>dr \<in> set drs. ko_Meta dr = dr_meta cf (dr_Host (ko_Spec dr)))"
proof -
  have "\<exists>drs. collect (\<lambda>svc. obind (dr_for_service cf svc) (\<lambda>dr. Val [dr])) ss = Val drs
      \<and> map (\<lambda>dr. dr_Host (ko_Spec dr)) drs = map fs_Hostname ss
      \<and> (\<forall>dr \<in> set drs. ko_Meta dr = dr_meta cf (dr_Host (ko_Spec dr)))"
    if "\<forall>svc \<in> set ss. CHR ''.'' \<in> set (fs_Hostname svc)" for ss
    using that
  proof (induction ss)
    case Nil
    show ?case by simp
  next
    case (Cons svc ss)
    then have "CHR ''.'' \<in> set (fs_Hostname svc)" by simp
    then obtain n ns where "getServiceNameAndNs (fs_Hostname svc) = Val (n, ns)"
      by (rule getServiceNameAndNs_dot)
    from dr_for_service_Val [OF this] Cons show ?case by auto
  qed
  from this [OF assms(2)] assms(1) show ?thesis
    by (auto simp: remote_rules_def)
qed

lemma DestinationRules_total:
  assumes "\<forall>r \<in> set (remotes_of (cf_cfg cf)). \<forall>svc \<in> set (From (cf_importedServiceStore cf) r).
      CHR ''.'' \<in> set (fs_Hostname svc)"
  shows "\<exists>drs. DestinationRules cf = Val drs"
  unfolding DestinationRules_eq
proof (rule collect_total)
  fix r assume "r \<in> set (remotes_of (cf_cfg cf))"
  then show "\<exists>zs. remote_rules cf r = Val zs"
    using assms remote_rules_Val [of r cf]
    by (cases "remote_IngressType r = OpenShiftRouter") (auto simp: remote_rules_def)
qed

lemma DestinationRules_split:
  assumes "remotes_of (cf_cfg cf) = xs @ r # ys" and "DestinationRules cf = Val drs"
  shows "\<exists>us zs vs. collect (remote_rules cf) xs = Val us \<and> remote_rules cf r = Val zs
    \<and> collect (remote_rules cf) ys = Val vs \<and> drs = us @ zs @ vs"
proof -
  have "\<exists>us zs vs. collect f xs = Val us \<and> f r = Val zs \<and> collect f ys = Val vs \<and> ws = us @ zs @ vs"
    if "collect f (xs @ r # ys) = Val ws" for f :: "Remote \<Rightarrow> DestinationRule list outcome" and ws
    using that by (induction xs arbitrary: ws) (fastforce simp: outcome_simps)+
  with assms show ?thesis by (simp add: DestinationRules_eq)
qed

text \<open>
  With dotted host names \<open>DestinationRules\<close> returns, and for each remote behind an OpenShift router
  it holds a rule for the federation controller of the remote and one rule per service the remote
  exports. The rule is produced for every such remote: a service exported by two of them gets two
  rules with the same namespace and name, so the check for rules that were created before never
  takes effect.
\<close>

lemma DestinationRules_per_remote:
  assumes dotted: "\<forall>r \<in> set (remotes_of (cf_cfg cf)). \<forall>svc \<in> set (From (cf_importedServiceStore cf) r).
      CHR ''.'' \<in> set (fs_Hostname svc)"
    and remotes: "remotes_of (cf_cfg cf) = xs @ r1 # ys @ r2 # zs"
    and router: "remote_IngressType r1 = OpenShiftRouter" "remote_IngressType r2 = OpenShiftRouter"
    and shared: "svc1 \<in> set (From (cf_importedServiceStore cf) r1)" "svc2 \<in> set (From (cf_importedServiceStore cf) r2)"
      "fs_Hostname svc1 = fs_Hostname svc2"
  shows "\<exists>us vs ws dr1 dr2. DestinationRules cf = Val (us @ dr1 # vs @ dr2 # ws)
    \<and> dr_Host (ko_Spec dr1) = fs_Hostname svc1 \<and> dr_Host (ko_Spec dr2) = fs_Hostname svc1
    \<and> obj_key dr1 = obj_key dr2"
proof -
  let ?from = "From (cf_importedServiceStore cf)"
  obtain drs where drs: "DestinationRules cf = Val drs"
    using DestinationRules_total [OF dotted] ..
  obtain u z v where 1: "remote_rules cf r1 = Val z" "collect (remote_rules cf) (ys @ r2 # zs) = Val v" "drs = u @ z @ v"
    using DestinationRules_split [OF remotes drs] by blast
  obtain z2 where 2: "remote_rules cf r2 = Val z2" and sub: "set z2 \<subseteq> set v"
    using 1(2) collect_Val_all [OF 1(2), of r2] collect_Val_set [OF 1(2)] by auto
  obtain d1 where d1: "z = dr_for_remote_controller cf r1 # d1" "map (\<lambda>dr. dr_Host (ko_Spec dr)) d1 = map fs_Hostname (?from r1)"
      "\<forall>dr \<in> set d1. ko_Meta dr = dr_meta cf (dr_Host (ko_Spec dr))"
    using remote_rules_Val [OF router(1)] dotted remotes 1(1) by force
  obtain d2 where d2: "z2 = dr_for_remote_controller cf r2 # d2" "map (\<lambda>dr. dr_Host (ko_Spec dr)) d2 = map fs_Hostname (?from r2)"
      "\<forall>dr \<in> set d2. ko_Meta dr = dr_meta cf (dr_Host (ko_Spec dr))"
    using remote_rules_Val [OF router(2)] dotted remotes 2 by force
  have "fs_Hostname svc1 \<in> set (map (\<lambda>dr. dr_Host (ko_Spec dr)) d1)"
    unfolding d1(2) using shared(1) by simp
  then obtain dr1 where dr1: "dr1 \<in> set d1" "dr_Host (ko_Spec dr1) = fs_Hostname svc1" by auto
  have "fs_Hostname svc2 \<in> set (map (\<lambda>dr. dr_Host (ko_Spec dr)) d2)"
    unfolding d2(2) using shared(2) by simp
  then obtain dr2 where dr2: "dr2 \<in> set d2" "dr_Host (ko_Spec dr2) = fs_Hostname svc1" using shared(3) by auto
  have key: "obj_key dr1 = obj_key dr2"
    using dr1 dr2 d1(3) d2(3) by (simp add: obj_key_def)
  have "dr1 \<in> set (u @ z)" and "dr2 \<in> set v"
    using dr1(1) dr2(1) d1(1) d2(1) sub by auto
  then obtain a b c d where "u @ z = a @ dr1 # b" and "v = c @ dr2 # d"
    by (meson split_list)
  then have "drs = a @ dr1 # (b @ c) @ dr2 # d" using 1(3) by simp
  with drs dr1(2) dr2(2) key show ?thesis by blast
qed

end
