(* ===== verification/OpenShift_Factory.thy ===== *)
theory OpenShift_Factory
  imports Kube_Types
begin

text \<open>
  The factory of OpenShift Routes, \<open>internal/pkg/openshift/config_factory.go\<close>: one Route for the
  discovery service of the local mesh and one per port of each exported Service, all pointing to
  the federation ingress gateway with TLS passthrough.
\<close>

datatype TLSTermination = TLSTerminationPassthrough

record RouteSpec =
  rt_Host :: string
  rt_ToKind :: string
  rt_ToName :: string
  rt_TargetPort :: string
  rt_Termination :: TLSTermination

type_synonym Route = "RouteSpec kobject"

record RouteFactory =
  rf_cfg :: Federation
  rf_serviceLister :: ServiceLister

definition NewRouteFactory :: "Federation \<Rightarrow> ServiceLister \<Rightarrow> RouteFactory" where
  "NewRouteFactory cfg lister = \<lparr>rf_cfg = cfg, rf_serviceLister = lister\<rparr>"

definition createRoute :: "RouteFactory \<Rightarrow> string \<Rightarrow> string \<Rightarrow> 32 word \<Rightarrow> Route outcome" where
  "createRoute cf svcName svcNamespace port =
     obind (deref (lg_Port (local_ingress (rf_cfg cf)))) (\<lambda>gatewayPort.
     Val \<lparr>ko_Meta = \<lparr>om_Name = svcName @ ''-'' @ svcNamespace @ ''-'' @ fmt_int32 port @ ''-to-federation-ingress-gateway'',
                     om_Namespace = control_plane_namespace (rf_cfg cf),
                     om_Labels = peer_labels\<rparr>,
          ko_Spec = \<lparr>rt_Host = svcName @ ''-'' @ fmt_int32 port @ ''.'' @ svcNamespace @ ''.svc.cluster.local'',
                     rt_ToKind = ''Service'',
                     rt_ToName = ''federation-ingress-gateway'',
                     rt_TargetPort = gp_Name gatewayPort,
                     rt_Termination = TLSTerminationPassthrough\<rparr>\<rparr>)"

definition Routes :: "RouteFactory \<Rightarrow> Route list outcome" where
  "Routes cf =
     obind (createRoute cf (''federation-discovery-service-'' @ local_name (rf_cfg cf)) ''istio-system'' 15080) (\<lambda>fds.
     obind (collect (\<lambda>sel.
              obind (of_result ''error listing services'' (lister_List (rf_serviceLister cf) (ls_MatchLabels sel)))
                (\<lambda>svcs. collect (\<lambda>svc. collect (\<lambda>port.
                     obind (createRoute cf (svc_Name svc) (svc_Namespace svc) (core_Port port)) (\<lambda>r. Val [r]))
                   (svc_Ports svc)) svcs))
            (export_selectors (rf_cfg cf))) (\<lambda>routes.
     Val (fds # routes)))"

end
