(* ===== verification/Kube_Sync.thy ===== *)
theory Kube_Sync
  imports Kube_Types
begin

text \<open>
  The loop the resource reconcilers of \<open>internal/pkg/legacy/kube\<close> share: index the desired objects
  by namespace and name, list the objects that carry the label of the controller, apply every
  desired object that is absent or whose spec differs, then delete every listed object that is no
  longer desired. Five reconcilers repeat these statements; \<open>sync_resources\<close> is their common part with
  the kind, the label selector and the error texts as arguments.

  \<open>kind_env\<close> gathers what one reconciler runs against: the client of the kind, \<open>reflect.DeepEqual\<close> on
  two specs (old, new), and the orders in which Go walks the two maps. \<open>reflect.DeepEqual\<close> also reads
  the internal state of protobuf messages, so it may call two equal specs different; the locale
  \<open>resource_sync\<close> only assumes that specs it calls equal conform.
\<close>

record ('s, 'spec) kind_env =
  ke_client :: "('s, 'spec) kube_client"
  ke_deepEqual :: "'spec \<Rightarrow> 'spec \<Rightarrow> bool"
  ke_applyOrder :: "(key \<times> 'spec kobject) list \<Rightarrow> (key \<times> 'spec kobject) list"
  ke_deleteOrder :: "(key \<times> 'spec kobject) list \<Rightarrow> (key \<times> 'spec kobject) list"

record sync_texts =
  st_list :: string
  st_apply :: string
  st_delete :: string

definition apply_configuration_of :: "string \<Rightarrow> string \<Rightarrow> 'spec kobject \<Rightarrow> 'spec apply_configuration" where
  "apply_configuration_of kind api_version obj =
     \<lparr>ac_Kind = kind, ac_APIVersion = api_version, ac_Meta = ko_Meta obj, ac_Spec = ko_Spec obj,
      ac_Force = True, ac_FieldManager = ''federation-controller''\<rparr>"

definition needs_apply :: "('spec \<Rightarrow> 'spec \<Rightarrow> bool) \<Rightarrow> (key \<times> 'spec kobject) list \<Rightarrow> key \<Rightarrow> 'spec kobject \<Rightarrow> bool" where
  "needs_apply deepEqual olds k obj =
     (case map_of olds k of None \<Rightarrow> True | Some old \<Rightarrow> \<not> deepEqual (ko_Spec old) (ko_Spec obj))"

fun apply_loop :: "('s, 'spec) kind_env \<Rightarrow> string \<Rightarrow> string \<Rightarrow> string \<Rightarrow> (key \<times> 'spec kobject) list
    \<Rightarrow> (key \<times> 'spec kobject) list \<Rightarrow> 's \<Rightarrow> 's \<times> unit outcome" where
  "apply_loop env kind api_version msg olds [] s = (s, Val ())"
| "apply_loop env kind api_version msg olds ((k, obj) # rest) s =
     (if needs_apply (ke_deepEqual env) olds k obj
      then (case kc_Apply (ke_client env) s (apply_configuration_of kind api_version obj) of
              (s', Inl e) \<Rightarrow> (s', Fail (Wrap msg e))
            | (s', Inr _) \<Rightarrow> apply_loop env kind api_version msg olds rest s')
      else apply_loop env kind api_version msg olds rest s)"

fun delete_loop :: "('s, 'spec) kind_env \<Rightarrow> string \<Rightarrow> (key \<times> 'spec kobject) list
    \<Rightarrow> (key \<times> 'spec kobject) list \<Rightarrow> 's \<Rightarrow> 's \<times> unit outcome" where
  "delete_loop env msg desired [] s = (s, Val ())"
| "delete_loop env msg desired ((k, old) # rest) s =
     (if map_of desired k = None
      then (case kc_Delete (ke_client env) s (om_Namespace (ko_Meta old)) (om_Name (ko_Meta old)) of
              (s', None) \<Rightarrow> delete_loop env msg desired rest s'
            | (s', Some e) \<Rightarrow> if IsNotFound e then delete_loop env msg desired rest s' else (s', Fail (Wrap msg e)))
      else delete_loop env msg desired rest s)"

definition sync_resources :: "('s, 'spec) kind_env \<Rightarrow> string \<Rightarrow> string \<Rightarrow> labels \<Rightarrow> sync_texts
    \<Rightarrow> 'spec kobject list \<Rightarrow> 's \<Rightarrow> 's \<times> unit outcome" where
  "sync_resources env kind api_version selector texts objs s =
     (let desired = index_by obj_key objs in
      case kc_List (ke_client env) s selector of
        (items, Some e) \<Rightarrow> (s, Fail (Wrap (st_list texts) e))
      | (items, None) \<Rightarrow>
          let olds = index_by obj_key items in
          (case apply_loop env kind api_version (st_apply texts) olds (ke_applyOrder env desired) s of
             (s', Val _) \<Rightarrow> delete_loop env (st_delete texts) desired (ke_deleteOrder env olds) s'
           | (s', Fail e) \<Rightarrow> (s', Fail e)
           | (s', Panic p) \<Rightarrow> (s', Panic p)))"

lemma ac_key_of [simp]: "ac_key (apply_configuration_of kind api_version obj) = obj_key obj"
  by (simp add: ac_key_def apply_configuration_of_def obj_key_def)

lemma ac_of_sel [simp]:
  "ac_Kind (apply_configuration_of kind api_version obj) = kind"
  "ac_APIVersion (apply_configuration_of kind api_version obj) = api_version"
  "ac_Meta (apply_configuration_of kind api_version obj) = ko_Meta obj"
  "ac_Spec (apply_configuration_of kind api_version obj) = ko_Spec obj"
  "ac_Force (apply_configuration_of kind api_version obj)"
  by (simp_all add: apply_configuration_of_def)

lemma apply_loop_not_Panic: "apply_loop env kind api_version msg olds es s \<noteq> (s', Panic p)"
  by (induction env kind api_version msg olds es s rule: apply_loop.induct)
    (auto split: prod.splits sum.splits)

lemma delete_loop_not_Panic: "delete_loop env msg desired es s \<noteq> (s', Panic p)"
  by (induction env msg desired es s rule: delete_loop.induct) (auto split: prod.splits option.splits)

section \<open>What a synchronisation achieves\<close>

text \<open>
  The contract of a synchronisation, on the objects the server stores before and after it: a desired
  object is stored with a conforming spec and with the label; any other object is gone if it carried
  the label and untouched if it did not. Of two desired objects with the same key the last one counts.
\<close>

definition synced :: "('spec \<Rightarrow> 'spec \<Rightarrow> bool) \<Rightarrow> labels \<Rightarrow> 'spec kobject list
    \<Rightarrow> (key \<rightharpoonup> 'spec kobject) \<Rightarrow> (key \<rightharpoonup> 'spec kobject) \<Rightarrow> bool" where
  "synced conforms sel objs before after \<longleftrightarrow>
     (\<forall>k. case map_of (index_by obj_key objs) k of
        Some obj \<Rightarrow> \<exists>new. after k = Some new \<and> conforms (ko_Spec obj) (ko_Spec new) \<and> sel \<subseteq>\<^sub>m om_Labels (ko_Meta new)
      | None \<Rightarrow> after k = (case before k of None \<Rightarrow> None
          | Some old \<Rightarrow> if sel \<subseteq>\<^sub>m om_Labels (ko_Meta old) then None else Some old))"

lemma synced_desired:
  "synced conforms sel objs before after \<Longrightarrow> map_of (index_by obj_key objs) k = Some obj \<Longrightarrow>
   \<exists>new. after k = Some new \<and> conforms (ko_Spec obj) (ko_Spec new) \<and> sel \<subseteq>\<^sub>m om_Labels (ko_Meta new)"
  unfolding synced_def by (drule spec [of _ k]) simp

lemma synced_other:
  "synced conforms sel objs before after \<Longrightarrow> k \<notin> obj_key ` set objs \<Longrightarrow>
   after k = (case before k of None \<Rightarrow> None | Some old \<Rightarrow> if sel \<subseteq>\<^sub>m om_Labels (ko_Meta old) then None else Some old)"
  unfolding synced_def by (drule spec [of _ k]) (simp add: map_of_index_by_None [symmetric])

locale resource_sync = kube_api "ke_client env" view conforms
  for env :: "('s, 'spec) kind_env" and view and conforms +
  assumes apply_order: "is_order (ke_applyOrder env)"
    and delete_order: "is_order (ke_deleteOrder env)"
    and deepEqual_conforms: "ke_deepEqual env old new \<Longrightarrow> conforms new old"
begin

lemma apply_loop_other:
  assumes "apply_loop env kind api_version msg olds es s = (s', r)"
    and "\<forall>(j, obj) \<in> set es. obj_key obj = j" and "k \<notin> fst ` set es"
  shows "view s' k = view s k"
  using assms
proof (induction es arbitrary: s)
  case Nil
  then show ?case by simp
next
  case (Cons e es)
  obtain j obj where e: "e = (j, obj)" by (cases e)
  have step: "view s1 k = view s k"
    if "kc_Apply (ke_client env) s (apply_configuration_of kind api_version obj) = (s1, q)" for s1 q
  proof -
    have "k \<noteq> obj_key obj" using Cons.prems(2,3) by (auto simp: e)
    with that apply_ok [of s _ s1] apply_frame [of s _ s1] show ?thesis
      by (cases q) auto
  qed
  have tail: "view s' k = view s1 k" if "apply_loop env kind api_version msg olds es s1 = (s', r)" for s1
    using Cons.IH [OF that] Cons.prems(2,3) by simp
  show ?case
  proof (cases "needs_apply (ke_deepEqual env) olds j obj")
    case True
    obtain s1 q where ap: "kc_Apply (ke_client env) s (apply_configuration_of kind api_version obj) = (s1, q)"
      by (cases "kc_Apply (ke_client env) s (apply_configuration_of kind api_version obj)")
    with True Cons.prems(1) tail [of s1] step [OF ap] show ?thesis
      by (cases q) (simp_all add: e)
  next
    case False
    with Cons.prems(1) tail show ?thesis by (simp add: e)
  qed
qed

lemma apply_loop_applied:
  assumes "apply_loop env kind api_version msg olds es s = (s', Val ())"
    and "\<forall>(j, obj) \<in> set es. obj_key obj = j" and "distinct (map fst es)" and "(k, obj) \<in> set es"
  shows "if needs_apply (ke_deepEqual env) olds k obj
    then \<exists>new. view s' k = Some new \<and> conforms (ko_Spec obj) (ko_Spec new)
           \<and> om_Labels (ko_Meta obj) \<subseteq>\<^sub>m om_Labels (ko_Meta new)
    else view s' k = view s k"
  using assms
proof (induction es arbitrary: s)
  case Nil
  then show ?case by simp
next
  case (Cons e es)
  obtain j x where e: "e = (j, x)" by (cases e)
  show ?case
  proof (cases "k = j")
    case True
    with Cons.prems e have obj: "obj = x" and k: "obj_key obj = k" and notin: "k \<notin> fst ` set es"
      by (force simp: image_iff)+
    show ?thesis
    proof (cases "needs_apply (ke_deepEqual env) olds k obj")
      case True
      then obtain s1 new where ap: "kc_Apply (ke_client env) s (apply_configuration_of kind api_version obj) = (s1, Inr new)"
        and rest: "apply_loop env kind api_version msg olds es s1 = (s', Val ())"
        using Cons.prems(1) \<open>k = j\<close> obj e by (auto split: prod.splits sum.splits)
      have "view s' k = view s1 k"
        using apply_loop_other [OF rest _ notin] Cons.prems(2) by simp
      with apply_ok [OF ap] k True show ?thesis by simp
    next
      case False
      then have "apply_loop env kind api_version msg olds es s = (s', Val ())"
        using Cons.prems(1) \<open>k = j\<close> obj e by simp
      with apply_loop_other [OF this _ notin] Cons.prems(2) False show ?thesis by simp
    qed
  next
    case False
    with Cons.prems(4) e have in_es: "(k, obj) \<in> set es" by simp
    obtain s1 where rest: "apply_loop env kind api_version msg olds es s1 = (s', Val ())" and same: "view s1 k = view s k"
    proof (cases "needs_apply (ke_deepEqual env) olds j x")
      case True
      then obtain s1 new where ap: "kc_Apply (ke_client env) s (apply_configuration_of kind api_version x) = (s1, Inr new)"
        and rest: "apply_loop env kind api_version msg olds es s1 = (s', Val ())"
        using Cons.prems(1) e by (auto split: prod.splits sum.splits)
      have "obj_key x = j" using Cons.prems(2) e by simp
      with apply_ok [OF ap] False have "view s1 k = view s k" by simp
      with rest show ?thesis by (rule that)
    next
      case False
      then have "apply_loop env kind api_version msg olds es s = (s', Val ())"
        using Cons.prems(1) e by simp
      then show ?thesis using that by simp
    qed
    from Cons.IH [OF rest] Cons.prems(2,3) in_es same show ?thesis by simp
  qed
qed

lemma delete_loop_view:
  assumes "delete_loop env msg desired es s = (s', Val ())" and "\<forall>(j, obj) \<in> set es. obj_key obj = j"
  shows "view s' k = (if k \<in> fst ` set es \<and> map_of desired k = None then None else view s k)"
  using assms
proof (induction es arbitrary: s)
  case Nil
  then show ?case by simp
next
  case (Cons e es)
  obtain j x where e: "e = (j, x)" by (cases e)
  have j: "j = (om_Namespace (ko_Meta x), om_Name (ko_Meta x))"
    using Cons.prems(2) e by (simp add: obj_key_def)
  show ?case
  proof (cases "map_of desired j = None")
    case True
    then obtain s1 q where del: "kc_Delete (ke_client env) s (fst j) (snd j) = (s1, q)"
      and ok: "q = None \<or> (\<exists>e. q = Some e \<and> IsNotFound e)"
      and rest: "delete_loop env msg desired es s1 = (s', Val ())"
      using Cons.prems(1) by (auto simp: e j split: prod.splits option.splits if_splits)
    have "view s1 = (view s)(j := None)"
      using ok del delete_ok delete_not_found by (cases j) (fastforce simp: fun_upd_idem_iff)
    with Cons.IH [OF rest] Cons.prems(2) True e show ?thesis by auto
  next
    case False
    with Cons.prems(1) have "delete_loop env msg desired es s = (s', Val ())"
      by (simp add: e split: if_splits)
    with Cons.IH Cons.prems(2) False e show ?thesis by auto
  qed
qed

lemma listed_iff:
  assumes "kc_List (ke_client env) s sel = (items, None)"
  shows "map_of (index_by obj_key items) k = Some old \<longleftrightarrow> view s k = Some old \<and> sel \<subseteq>\<^sub>m om_Labels (ko_Meta old)"
proof -
  from list_ok [OF assms] have dist: "distinct (map obj_key items)"
    and mem: "\<And>obj. obj \<in> set items \<longleftrightarrow> view s (obj_key obj) = Some obj \<and> sel \<subseteq>\<^sub>m om_Labels (ko_Meta obj)" by auto
  show ?thesis
  proof
    assume "map_of (index_by obj_key items) k = Some old"
    then have "old \<in> set items" and "obj_key old = k" by (auto dest!: map_of_SomeD index_by_keyed)
    with mem show "view s k = Some old \<and> sel \<subseteq>\<^sub>m om_Labels (ko_Meta old)" by auto
  next
    assume "view s k = Some old \<and> sel \<subseteq>\<^sub>m om_Labels (ko_Meta old)"
    with mem view_keyed have "old \<in> set items" and "obj_key old = k" by metis+
    with map_of_index_by_distinct [OF dist] show "map_of (index_by obj_key items) k = Some old" by auto
  qed
qed

lemma ordered_index:
  assumes "is_order ord"
  shows "\<forall>(j, obj) \<in> set (ord (index_by obj_key objs)). obj_key obj = j"
    and "distinct (map fst (ord (index_by obj_key objs)))"
    and "set (ord (index_by obj_key objs)) = set (index_by obj_key objs)"
proof -
  show set: "set (ord (index_by obj_key objs)) = set (index_by obj_key objs)"
    by (rule is_order_set [OF assms])
  then show "\<forall>(j, obj) \<in> set (ord (index_by obj_key objs)). obj_key obj = j"
    by (auto dest: index_by_keyed)
  have "mset (map fst (ord (index_by obj_key objs))) = mset (map fst (index_by obj_key objs))"
    using assms by (simp add: is_order_def)
  then show "distinct (map fst (ord (index_by obj_key objs)))"
    using distinct_index_by mset_eq_imp_distinct_iff by blast
qed

lemma sync_steps:
  assumes "sync_resources env kind api_version sel texts objs s = (s', Val ())"
  obtains items s1 where "kc_List (ke_client env) s sel = (items, None)"
    and "apply_loop env kind api_version (st_apply texts) (index_by obj_key items)
           (ke_applyOrder env (index_by obj_key objs)) s = (s1, Val ())"
    and "delete_loop env (st_delete texts) (index_by obj_key objs) (ke_deleteOrder env (index_by obj_key items)) s1 = (s', Val ())"
  using assms unfolding sync_resources_def Let_def
  by (auto split: prod.splits option.splits outcome.splits)

theorem sync_desired:
  assumes sync: "sync_resources env kind api_version sel texts objs s = (s', Val ())"
    and labelled: "\<forall>obj \<in> set objs. sel \<subseteq>\<^sub>m om_Labels (ko_Meta obj)"
    and obj: "map_of (index_by obj_key objs) k = Some obj"
  shows "\<exists>new. view s' k = Some new \<and> conforms (ko_Spec obj) (ko_Spec new) \<and> sel \<subseteq>\<^sub>m om_Labels (ko_Meta new)"
proof -
  from sync obtain items s1 where l: "kc_List (ke_client env) s sel = (items, None)"
    and a: "apply_loop env kind api_version (st_apply texts) (index_by obj_key items)
           (ke_applyOrder env (index_by obj_key objs)) s = (s1, Val ())"
    and d: "delete_loop env (st_delete texts) (index_by obj_key objs) (ke_deleteOrder env (index_by obj_key items)) s1 = (s', Val ())"
    by (rule sync_steps)
  have "(k, obj) \<in> set (ke_applyOrder env (index_by obj_key objs))"
    using obj ordered_index(3) [OF apply_order] by (auto dest: map_of_SomeD)
  note applied = apply_loop_applied [OF a ordered_index(1,2) [OF apply_order] this]
  have kept: "view s' k = view s1 k"
    using delete_loop_view [OF d ordered_index(1) [OF delete_order]] obj by simp
  have "sel \<subseteq>\<^sub>m om_Labels (ko_Meta obj)"
    using labelled obj by (auto dest!: map_of_SomeD index_by_keyed)
  with applied kept show ?thesis
    using listed_iff [OF l, of k] deepEqual_conforms
    by (fastforce simp: needs_apply_def split: if_splits option.splits intro: map_le_trans)
qed

theorem sync_other:
  assumes sync: "sync_resources env kind api_version sel texts objs s = (s', Val ())"
    and k: "k \<notin> obj_key ` set objs"
  shows "view s' k = (case view s k of None \<Rightarrow> None
     | Some old \<Rightarrow> if sel \<subseteq>\<^sub>m om_Labels (ko_Meta old) then None else Some old)"
proof -
  from sync obtain items s1 where l: "kc_List (ke_client env) s sel = (items, None)"
    and a: "apply_loop env kind api_version (st_apply texts) (index_by obj_key items)
           (ke_applyOrder env (index_by obj_key objs)) s = (s1, Val ())"
    and d: "delete_loop env (st_delete texts) (index_by obj_key objs) (ke_deleteOrder env (index_by obj_key items)) s1 = (s', Val ())"
    by (rule sync_steps)
  have "k \<notin> fst ` set (ke_applyOrder env (index_by obj_key objs))"
    using k ordered_index(3) [OF apply_order, of objs] keys_index_by [of obj_key objs] by simp
  then have "view s1 k = view s k"
    by (rule apply_loop_other [OF a ordered_index(1) [OF apply_order]])
  moreover have "map_of (index_by obj_key objs) k = None"
    using k by (simp add: map_of_index_by_None)
  moreover have "k \<in> fst ` set (ke_deleteOrder env (index_by obj_key items)) \<longleftrightarrow>
      (\<exists>old. view s k = Some old \<and> sel \<subseteq>\<^sub>m om_Labels (ko_Meta old))"
    using listed_iff [OF l, of k] ordered_index(3) [OF delete_order, of items]
    by (metis map_of_eq_None_iff not_Some_eq)
  ultimately show ?thesis
    using delete_loop_view [OF d ordered_index(1) [OF delete_order]] by (auto split: option.splits)
qed

theorem sync_synced:
  assumes "sync_resources env kind api_version sel texts objs s = (s', Val ())"
    and "\<forall>obj \<in> set objs. sel \<subseteq>\<^sub>m om_Labels (ko_Meta obj)"
  shows "synced conforms sel objs (view s) (view s')"
  unfolding synced_def
proof
  fix k
  show "case map_of (index_by obj_key objs) k of
        Some obj \<Rightarrow> \<exists>new. view s' k = Some new \<and> conforms (ko_Spec obj) (ko_Spec new) \<and> sel \<subseteq>\<^sub>m om_Labels (ko_Meta new)
      | None \<Rightarrow> view s' k = (case view s k of None \<Rightarrow> None
          | Some old \<Rightarrow> if sel \<subseteq>\<^sub>m om_Labels (ko_Meta old) then None else Some old)"
  proof (cases "map_of (index_by obj_key objs) k")
    case None
    then have "k \<notin> obj_key ` set objs" by (simp add: map_of_index_by_None)
    from sync_other [OF assms(1) this] None show ?thesis by simp
  next
    case (Some obj)
    with sync_desired [OF assms] show ?thesis by simp
  qed
qed

text \<open>A key that is neither desired nor listed is left alone, whether the synchronisation succeeds or not.\<close>

lemma delete_loop_other:
  assumes "delete_loop env msg desired es s = (s', r)"
    and "\<forall>(j, obj) \<in> set es. obj_key obj = j" and "k \<notin> fst ` set es"
  shows "view s' k = view s k"
  using assms
proof (induction es arbitrary: s)
  case Nil
  then show ?case by simp
next
  case (Cons e es)
  obtain j x where e: "e = (j, x)" by (cases e)
  have "k \<noteq> (om_Namespace (ko_Meta x), om_Name (ko_Meta x))"
    using Cons.prems(2,3) by (auto simp: e obj_key_def)
  then have step: "view s1 k = view s k"
    if "kc_Delete (ke_client env) s (om_Namespace (ko_Meta x)) (om_Name (ko_Meta x)) = (s1, q)" for s1 q
    using that delete_ok [of s _ _ s1] delete_frame [of s _ _ s1] by (cases q) auto
  have tail: "view s' k = view s1 k" if "delete_loop env msg desired es s1 = (s', r)" for s1
    using Cons.IH [OF that] Cons.prems(2,3) by simp
  obtain s1 q where del: "kc_Delete (ke_client env) s (om_Namespace (ko_Meta x)) (om_Name (ko_Meta x)) = (s1, q)"
    by (cases "kc_Delete (ke_client env) s (om_Namespace (ko_Meta x)) (om_Name (ko_Meta x))")
  from Cons.prems(1) step [OF del] tail [of s1] tail [of s] show ?case
    by (cases q) (auto simp: e del split: if_splits)
qed

lemma sync_unlisted:
  assumes "sync_resources env kind api_version sel texts objs s = (s', r)"
    and "k \<notin> obj_key ` set objs" and "view s k = Some old" and "\<not> sel \<subseteq>\<^sub>m om_Labels (ko_Meta old)"
  shows "view s' k = Some old"
proof -
  obtain items e where l: "kc_List (ke_client env) s sel = (items, e)"
    by (cases "kc_List (ke_client env) s sel")
  have notin: "k \<notin> fst ` set (ke_applyOrder env (index_by obj_key objs))"
    using assms(2) ordered_index(3) [OF apply_order, of objs] keys_index_by [of obj_key objs] by simp
  obtain s1 q where a: "apply_loop env kind api_version (st_apply texts) (index_by obj_key items)
           (ke_applyOrder env (index_by obj_key objs)) s = (s1, q)"
    by (cases "apply_loop env kind api_version (st_apply texts) (index_by obj_key items)
           (ke_applyOrder env (index_by obj_key objs)) s")
  have s1: "view s1 k = Some old"
    using apply_loop_other [OF a ordered_index(1) [OF apply_order] notin] assms(3) by simp
  show ?thesis
  proof (cases e)
    case (Some err)
    with assms(1,3) l show ?thesis by (simp add: sync_resources_def)
  next
    case None
    have "map_of (index_by obj_key items) k = None"
    proof (rule ccontr)
      assume "map_of (index_by obj_key items) k \<noteq> None"
      then obtain x where "map_of (index_by obj_key items) k = Some x" by blast
      from iffD1 [OF listed_iff [OF l [unfolded None]] this] assms(3,4) show False by simp
    qed
    then have "k \<notin> fst ` set (ke_deleteOrder env (index_by obj_key items))"
      using ordered_index(3) [OF delete_order, of items] by (simp add: map_of_eq_None_iff)
    note d = delete_loop_other [OF _ ordered_index(1) [OF delete_order] this, of "st_delete texts" "index_by obj_key objs" s1 s' r]
    show ?thesis
    proof (cases q)
      case (Val u)
      with assms(1) l None a have "delete_loop env (st_delete texts) (index_by obj_key objs)
          (ke_deleteOrder env (index_by obj_key items)) s1 = (s', r)"
        by (simp add: sync_resources_def)
      from d [OF this] s1 show ?thesis by simp
    qed (use assms(1) l None a s1 in \<open>auto simp: sync_resources_def\<close>)
  qed
qed

text \<open>After a synchronisation the objects with the label are exactly the desired ones.\<close>

corollary sync_managed:
  assumes "sync_resources env kind api_version sel texts objs s = (s', Val ())"
    and "\<forall>obj \<in> set objs. sel \<subseteq>\<^sub>m om_Labels (ko_Meta obj)"
  shows "(\<exists>obj. view s' k = Some obj \<and> sel \<subseteq>\<^sub>m om_Labels (ko_Meta obj)) \<longleftrightarrow> k \<in> obj_key ` set objs"
proof (cases "k \<in> obj_key ` set objs")
  case True
  then obtain obj where "map_of (index_by obj_key objs) k = Some obj"
    using map_of_index_by_in by metis
  with sync_desired [OF assms] True show ?thesis by blast
next
  case False
  with sync_other [OF assms(1)] show ?thesis by (auto split: option.splits if_splits)
qed

text \<open>Nothing is deleted unless every apply succeeded: an error leaves all other keys alone.\<close>

lemma sync_apply_error:
  assumes "kc_List (ke_client env) s sel = (items, None)"
    and "apply_loop env kind api_version (st_apply texts) (index_by obj_key items)
           (ke_applyOrder env (index_by obj_key objs)) s = (s1, Fail e)"
  shows "sync_resources env kind api_version sel texts objs s = (s1, Fail e)"
    and "k \<notin> obj_key ` set objs \<Longrightarrow> view s1 k = view s k"
proof -
  show "sync_resources env kind api_version sel texts objs s = (s1, Fail e)"
    using assms by (simp add: sync_resources_def)
  assume "k \<notin> obj_key ` set objs"
  then have "k \<notin> fst ` set (ke_applyOrder env (index_by obj_key objs))"
    using ordered_index(3) [OF apply_order, of objs] keys_index_by [of obj_key objs] by simp
  then show "view s1 k = view s k"
    by (rule apply_loop_other [OF assms(2) ordered_index(1) [OF apply_order]])
qed

end

locale resource_sync_up = resource_sync env view conforms + kube_api_up "ke_client env" view conforms kind api_version
  for env :: "('s, 'spec) kind_env" and view and conforms and kind and api_version
begin

lemma apply_loop_up: "\<exists>s'. apply_loop env kind api_version msg olds es s = (s', Val ())"
proof (induction es arbitrary: s)
  case Nil
  show ?case by simp
next
  case (Cons e es)
  obtain k obj where e: "e = (k, obj)" by (cases e)
  obtain s1 new where "kc_Apply (ke_client env) s (apply_configuration_of kind api_version obj) = (s1, Inr new)"
    using apply_up [of "apply_configuration_of kind api_version obj" s] by auto
  with Cons.IH show ?case by (simp add: e)
qed

lemma delete_loop_up: "\<exists>s'. delete_loop env msg desired es s = (s', Val ())"
proof (induction es arbitrary: s)
  case Nil
  show ?case by simp
next
  case (Cons e es)
  obtain k old where e: "e = (k, old)" by (cases e)
  obtain s1 q where "kc_Delete (ke_client env) s (om_Namespace (ko_Meta old)) (om_Name (ko_Meta old)) = (s1, q)"
    by (cases "kc_Delete (ke_client env) s (om_Namespace (ko_Meta old)) (om_Name (ko_Meta old))")
  with Cons.IH delete_up show ?case by (cases q) (auto simp: e)
qed

theorem sync_terminates: "\<exists>s'. sync_resources env kind api_version sel texts objs s = (s', Val ())"
proof -
  obtain items where l: "kc_List (ke_client env) s sel = (items, None)"
    using list_up [of s sel] by (metis prod.collapse)
  obtain s1 where a: "apply_loop env kind api_version (st_apply texts) (index_by obj_key items)
           (ke_applyOrder env (index_by obj_key objs)) s = (s1, Val ())"
    using apply_loop_up by blast
  obtain s2 where "delete_loop env (st_delete texts) (index_by obj_key objs) (ke_deleteOrder env (index_by obj_key items)) s1 = (s2, Val ())"
    using delete_loop_up by blast
  with l a show ?thesis by (simp add: sync_resources_def)
qed

theorem sync_reaches:
  assumes "\<forall>obj \<in> set objs. sel \<subseteq>\<^sub>m om_Labels (ko_Meta obj)"
  shows "\<exists>s'. sync_resources env kind api_version sel texts objs s = (s', Val ()) \<and> synced conforms sel objs (view s) (view s')"
  using sync_terminates [of sel texts objs s] sync_synced [OF _ assms] by blast

end

text \<open>A server that stores specs so that \<open>reflect.DeepEqual\<close> recognises them.\<close>

locale resource_sync_exact = resource_sync_up +
  assumes conforms_deepEqual: "conforms new old \<Longrightarrow> ke_deepEqual env old new"
begin

lemma apply_loop_quiet:
  "\<forall>(k, obj) \<in> set es. \<not> needs_apply (ke_deepEqual env) olds k obj \<Longrightarrow>
   apply_loop env kind' api msg olds es s = (s, Val ())"
  by (induction es) auto

lemma delete_loop_quiet:
  "\<forall>(k, old) \<in> set es. map_of desired k \<noteq> None \<Longrightarrow> delete_loop env msg desired es s = (s, Val ())"
  by (induction es) auto

text \<open>A second synchronisation writes nothing: it returns the very same state.\<close>

theorem sync_idempotent:
  assumes sync: "sync_resources env kind api_version sel texts objs s = (s', Val ())"
    and labelled: "\<forall>obj \<in> set objs. sel \<subseteq>\<^sub>m om_Labels (ko_Meta obj)"
  shows "sync_resources env kind api_version sel texts objs s' = (s', Val ())"
proof -
  obtain items where l: "kc_List (ke_client env) s' sel = (items, None)"
    using list_up [of s' sel] by (metis prod.collapse)
  have "\<not> needs_apply (ke_deepEqual env) (index_by obj_key items) k obj"
    if "(k, obj) \<in> set (ke_applyOrder env (index_by obj_key objs))" for k obj
  proof -
    from that have "map_of (index_by obj_key objs) k = Some obj"
      using ordered_index(3) [OF apply_order] distinct_index_by by (metis map_of_is_SomeI)
    from sync_desired [OF sync labelled this] obtain new where "view s' k = Some new"
      and eq: "conforms (ko_Spec obj) (ko_Spec new)" and "sel \<subseteq>\<^sub>m om_Labels (ko_Meta new)" by blast
    then have "map_of (index_by obj_key items) k = Some new"
      using listed_iff [OF l] by simp
    with conforms_deepEqual [OF eq] show ?thesis
      by (simp add: needs_apply_def)
  qed
  then have "apply_loop env kind api_version (st_apply texts) (index_by obj_key items)
      (ke_applyOrder env (index_by obj_key objs)) s' = (s', Val ())"
    by (intro apply_loop_quiet) auto
  moreover have "map_of (index_by obj_key objs) k \<noteq> None"
    if "(k, old) \<in> set (ke_deleteOrder env (index_by obj_key items))" for k old
  proof -
    from that have "map_of (index_by obj_key items) k = Some old"
      using ordered_index(3) [OF delete_order] distinct_index_by by (metis map_of_is_SomeI)
    then have "k \<in> obj_key ` set objs"
      using listed_iff [OF l, of k] sync_managed [OF sync labelled, of k] by blast
    then show ?thesis by (simp add: map_of_index_by_None)
  qed
  then have "delete_loop env (st_delete texts) (index_by obj_key objs) (ke_deleteOrder env (index_by obj_key items)) s' = (s', Val ())"
    by (intro delete_loop_quiet) auto
  ultimately show ?thesis
    using l by (simp add: sync_resources_def)
qed

end

section \<open>The executable client\<close>

definition memory_env :: "string \<Rightarrow> string \<Rightarrow> ('spec kobject list, 'spec) kind_env" where
  "memory_env kind api_version =
     \<lparr>ke_client = memory_client kind api_version, ke_deepEqual = (=), ke_applyOrder = rev, ke_deleteOrder = (\<lambda>xs. xs)\<rparr>"

lemma memory_env_sel [simp]:
  "ke_client (memory_env kind api_version) = memory_client kind api_version"
  "ke_deepEqual (memory_env kind api_version) = (=)"
  "ke_applyOrder (memory_env kind api_version) = rev"
  "ke_deleteOrder (memory_env kind api_version) = (\<lambda>xs. xs)"
  by (simp_all add: memory_env_def)

interpretation memory_sync: resource_sync_exact "memory_env kind api_version" memory_view "(=)" kind api_version
proof (intro resource_sync_exact.intro resource_sync_up.intro resource_sync.intro
    resource_sync_axioms.intro resource_sync_exact_axioms.intro)
  show "kube_api (ke_client (memory_env kind api_version)) memory_view (=)"
    unfolding memory_env_sel by (rule memory.kube_api_axioms)
  show "kube_api_up (ke_client (memory_env kind api_version)) memory_view (=) kind api_version"
    unfolding memory_env_sel by (rule memory.kube_api_up_axioms)
qed simp_all

section \<open>Several kinds in one cluster\<close>

text \<open>The client of a kind whose objects are one part of a larger state.\<close>

definition part_client :: "('c \<Rightarrow> 's) \<Rightarrow> ('s \<Rightarrow> 'c \<Rightarrow> 'c) \<Rightarrow> ('s, 'spec) kube_client \<Rightarrow> ('c, 'spec) kube_client" where
  "part_client get put c =
     \<lparr>kc_List = (\<lambda>w sel. kc_List c (get w) sel),
      kc_Apply = (\<lambda>w ac. case kc_Apply c (get w) ac of (s, r) \<Rightarrow> (put s w, r)),
      kc_Delete = (\<lambda>w ns n. case kc_Delete c (get w) ns n of (s, r) \<Rightarrow> (put s w, r))\<rparr>"

definition part_env :: "('c \<Rightarrow> 's) \<Rightarrow> ('s \<Rightarrow> 'c \<Rightarrow> 'c) \<Rightarrow> ('s, 'spec) kind_env \<Rightarrow> ('c, 'spec) kind_env" where
  "part_env get put env =
     \<lparr>ke_client = part_client get put (ke_client env), ke_deepEqual = ke_deepEqual env,
      ke_applyOrder = ke_applyOrder env, ke_deleteOrder = ke_deleteOrder env\<rparr>"

lemma part_env_sel [simp]:
  "ke_client (part_env get put env) = part_client get put (ke_client env)"
  "ke_deepEqual (part_env get put env) = ke_deepEqual env"
  "ke_applyOrder (part_env get put env) = ke_applyOrder env"
  "ke_deleteOrder (part_env get put env) = ke_deleteOrder env"
  by (simp_all add: part_env_def)

lemma part_client_cases:
  "kc_List (part_client get put c) w sel = kc_List c (get w) sel"
  "kc_Apply (part_client get put c) w ac = (w', r) \<longleftrightarrow> (\<exists>s. kc_Apply c (get w) ac = (s, r) \<and> w' = put s w)"
  "kc_Delete (part_client get put c) w ns n = (w', e) \<longleftrightarrow> (\<exists>s. kc_Delete c (get w) ns n = (s, e) \<and> w' = put s w)"
  by (auto simp: part_client_def split: prod.splits)

lemma part_kube_api:
  assumes get_put: "\<And>s w. get (put s w) = s" and api: "kube_api c view conforms"
  shows "kube_api (part_client get put c) (\<lambda>w. view (get w)) conforms"
  by (rule kube_api.intro)
    (auto simp: part_client_cases get_put dest: kube_api.view_keyed [OF api] kube_api.list_ok [OF api]
      kube_api.apply_ok [OF api] kube_api.apply_frame [OF api] kube_api.delete_ok [OF api]
      kube_api.delete_not_found [OF api] kube_api.delete_frame [OF api])

lemma part_kube_api_up:
  assumes get_put: "\<And>s w. get (put s w) = s" and api: "kube_api_up c view conforms kind api_version"
  shows "kube_api_up (part_client get put c) (\<lambda>w. view (get w)) conforms kind api_version"
proof (intro kube_api_up.intro kube_api_up_axioms.intro)
  show "kube_api (part_client get put c) (\<lambda>w. view (get w)) conforms"
    using get_put api kube_api_up.axioms(1) by (intro part_kube_api) 
qed (use kube_api_up.list_up [OF api] kube_api_up.apply_up [OF api] kube_api_up.delete_up [OF api]
    in \<open>fastforce simp: part_client_cases\<close>)+

lemma part_resource_sync_exact:
  assumes get_put: "\<And>s w. get (put s w) = s" and sync: "resource_sync_exact env view conforms kind api_version"
  shows "resource_sync_exact (part_env get put env) (\<lambda>w. view (get w)) conforms kind api_version"
proof -
  have up: "kube_api_up (ke_client env) view conforms kind api_version" and rs: "resource_sync env view conforms"
    using sync by (auto simp: resource_sync_exact_def resource_sync_up_def)
  show ?thesis
    using part_kube_api_up [of get put, OF get_put up] resource_sync.apply_order [OF rs] resource_sync.delete_order [OF rs]
      resource_sync.deepEqual_conforms [OF rs] resource_sync_exact.conforms_deepEqual [OF sync]
    by (intro resource_sync_exact.intro resource_sync_up.intro resource_sync.intro resource_sync_axioms.intro
        resource_sync_exact_axioms.intro) (auto simp: kube_api_up_def)
qed

text \<open>The client of one kind leaves the objects of another kind alone.\<close>

definition keeps_view :: "('c, 'spec) kind_env \<Rightarrow> ('c \<Rightarrow> 'v) \<Rightarrow> bool" where
  "keeps_view env v \<longleftrightarrow>
     (\<forall>w ac. v (fst (kc_Apply (ke_client env) w ac)) = v w) \<and> (\<forall>w ns n. v (fst (kc_Delete (ke_client env) w ns n)) = v w)"

lemma keeps_view_steps:
  assumes "keeps_view env v"
  shows "kc_Apply (ke_client env) w ac = (w', r) \<Longrightarrow> v w' = v w"
    and "kc_Delete (ke_client env) w ns n = (w', e) \<Longrightarrow> v w' = v w"
  using assms unfolding keeps_view_def by (metis fst_conv)+

lemma apply_loop_keeps:
  assumes "keeps_view env v" and "apply_loop env kind api_version msg olds es w = (w', r)"
  shows "v w' = v w"
  using assms(2)
proof (induction es arbitrary: w)
  case Nil
  then show ?case by simp
next
  case (Cons e es)
  then show ?case
    by (cases e) (auto split: if_splits prod.splits sum.splits dest: keeps_view_steps [OF assms(1)])
qed

lemma delete_loop_keeps:
  assumes "keeps_view env v" and "delete_loop env msg desired es w = (w', r)"
  shows "v w' = v w"
  using assms(2)
proof (induction es arbitrary: w)
  case Nil
  then show ?case by simp
next
  case (Cons e es)
  then show ?case
    by (cases e) (auto split: if_splits prod.splits option.splits dest: keeps_view_steps [OF assms(1)])
qed

lemma sync_keeps:
  assumes "keeps_view env v" and "sync_resources env kind api_version sel texts objs w = (w', r)"
  shows "v w' = v w"
  using assms(2) apply_loop_keeps [OF assms(1)] delete_loop_keeps [OF assms(1)]
  unfolding sync_resources_def Let_def by (fastforce split: prod.splits option.splits outcome.splits)

lemma part_env_keeps: "(\<And>s w. v (put s w) = v w) \<Longrightarrow> keeps_view (part_env get put env) v"
  by (auto simp: keeps_view_def part_client_def split: prod.splits)

end
