(* ===== verification/Kube_Reconcilers.thy ===== *)
theory Kube_Reconcilers
  imports Kube_Sync Istio_Imports Istio_Exports OpenShift_Factory
begin

text \<open>
  The reconcilers of \<open>internal/pkg/legacy/kube\<close> and the \<open>ReconcilerManager\<close> that runs them. One
  reconciler brings one kind of resource in the cluster to what its factory returns; the manager
  keeps them by type URL and runs the one a push request names. \<open>cluster_api\<close> is the set of typed
  clients over one cluster state, with what else the reconcilers depend on outside the program:
  the resolver of the host, the conversion of JSON to a protobuf \<open>Struct\<close>, and the order in which
  \<open>ServiceEntries\<close> walks its map.
\<close>

section \<open>Kinds, labels and error texts\<close>

datatype MutualTLSMode = STRICT

record PeerAuthenticationSpec =
  pa_Selector :: labels
  pa_Mode :: MutualTLSMode

type_synonym PeerAuthentication = "PeerAuthenticationSpec kobject"

record 's cluster_api =
  api_DestinationRules :: "('s, DestinationRuleSpec) kind_env"
  api_EnvoyFilters :: "('s, EnvoyFilterSpec) kind_env"
  api_Gateways :: "('s, GatewaySpec) kind_env"
  api_PeerAuthentications :: "('s, PeerAuthenticationSpec) kind_env"
  api_Routes :: "('s, RouteSpec) kind_env"
  api_ServiceEntries :: "('s, ServiceEntrySpec) kind_env"
  api_WorkloadEntries :: "('s, WorkloadEntrySpec) kind_env"
  api_lookupIP :: resolver
  api_unmarshalStruct :: struct_unmarshaller
  api_entryOrder :: "ServiceEntry list \<Rightarrow> ServiceEntry list"

definition networking_v1alpha3 :: string where
  "networking_v1alpha3 = ''networking.istio.io/v1alpha3''"

definition destination_rule_texts :: sync_texts where
  "destination_rule_texts = \<lparr>st_list = ''failed to list destination rules'',
     st_apply = ''failed to apply destination rule'', st_delete = ''failed to delete old destination rule''\<rparr>"

definition envoy_filter_texts :: sync_texts where
  "envoy_filter_texts = \<lparr>st_list = ''failed to list envoy filters'',
     st_apply = ''failed to apply envoy filter'', st_delete = ''failed to delete old envoy filter''\<rparr>"

definition service_entry_texts :: sync_texts where
  "service_entry_texts = \<lparr>st_list = ''failed to list service entries'',
     st_apply = ''failed to apply service entry'', st_delete = ''failed to delete old service entry''\<rparr>"

definition workload_entry_texts :: sync_texts where
  "workload_entry_texts = \<lparr>st_list = ''failed to list workload entries'',
     st_apply = ''failed to apply workload entry'', st_delete = ''failed to delete old workload entry''\<rparr>"

definition route_texts :: sync_texts where
  "route_texts = \<lparr>st_list = ''failed to list routes'',
     st_apply = ''failed to apply route'', st_delete = ''failed to delete old route''\<rparr>"

text \<open>The label the Route reconciler selects by. It is not the label \<open>createRoute\<close> sets.\<close>

definition route_selector :: labels where
  "route_selector = [''federation.openshift.io/peer'' \<mapsto> ''todo'']"

section \<open>Reconcilers\<close>

text \<open>
  The value a factory method returns, handed to the rest of \<open>Reconcile\<close>; an error of the method is
  returned under \<open>msg\<close>, a panic goes on.
\<close>

fun generated :: "string \<Rightarrow> 'a outcome \<Rightarrow> ('a \<Rightarrow> 's \<Rightarrow> 's \<times> unit outcome) \<Rightarrow> 's \<Rightarrow> 's \<times> unit outcome" where
  "generated msg (Val x) k s = k x s"
| "generated msg (Fail e) k s = (s, Fail (Wrap msg e))"
| "generated msg (Panic p) k s = (s, Panic p)"

definition apply_one :: "('s, 'spec) kind_env \<Rightarrow> string \<Rightarrow> string \<Rightarrow> string \<Rightarrow> 'spec kobject \<Rightarrow> 's \<Rightarrow> 's \<times> unit outcome" where
  "apply_one env kind api_version msg obj s =
     (case kc_Apply (ke_client env) s (apply_configuration_of kind api_version obj) of
        (s', Inl e) \<Rightarrow> (s', Fail (Wrap msg e))
      | (s', Inr _) \<Rightarrow> (s', Val ()))"

definition DestinationRule_Reconcile :: "'s cluster_api \<Rightarrow> ConfigFactory \<Rightarrow> 's \<Rightarrow> 's \<times> unit outcome" where
  "DestinationRule_Reconcile api cf =
     generated [] (DestinationRules cf) (\<lambda>destinationRules s.
       if length destinationRules = 0 then (s, Val ())
       else sync_resources (api_DestinationRules api) ''DestinationRule'' networking_v1alpha3 peer_labels
              destination_rule_texts destinationRules s)"

definition EnvoyFilter_Reconcile :: "'s cluster_api \<Rightarrow> ConfigFactory \<Rightarrow> 's \<Rightarrow> 's \<times> unit outcome" where
  "EnvoyFilter_Reconcile api cf =
     generated [] (EnvoyFilters (api_unmarshalStruct api) cf) (\<lambda>envoyFilters s.
       if length envoyFilters = 0 then (s, Val ())
       else sync_resources (api_EnvoyFilters api) ''EnvoyFilter'' networking_v1alpha3 peer_labels
              envoy_filter_texts envoyFilters s)"

definition ServiceEntry_Reconcile :: "'s cluster_api \<Rightarrow> ConfigFactory \<Rightarrow> 's \<Rightarrow> 's \<times> unit outcome" where
  "ServiceEntry_Reconcile api cf =
     generated ''error generating service entries'' (ServiceEntries (api_entryOrder api) cf) (\<lambda>serviceEntries.
       sync_resources (api_ServiceEntries api) ''ServiceEntry'' networking_v1alpha3 peer_labels
         service_entry_texts serviceEntries)"

definition WorkloadEntry_Reconcile :: "'s cluster_api \<Rightarrow> ConfigFactory \<Rightarrow> 's \<Rightarrow> 's \<times> unit outcome" where
  "WorkloadEntry_Reconcile api cf =
     generated ''error generating workload entries'' (WorkloadEntries (api_lookupIP api) cf) (\<lambda>workloadEntries.
       sync_resources (api_WorkloadEntries api) ''WorkloadEntry'' networking_v1alpha3 peer_labels
         workload_entry_texts workloadEntries)"

definition Route_Reconcile :: "'s cluster_api \<Rightarrow> RouteFactory \<Rightarrow> 's \<Rightarrow> 's \<times> unit outcome" where
  "Route_Reconcile api cf =
     generated ''could not reconcile routes'' (Routes cf) (\<lambda>routes.
       sync_resources (api_Routes api) ''Route'' ''route.openshift.io/v1'' route_selector route_texts routes)"

definition Gateway_Reconcile :: "'s cluster_api \<Rightarrow> ConfigFactory \<Rightarrow> 's \<Rightarrow> 's \<times> unit outcome" where
  "Gateway_Reconcile api cf =
     generated ''error generating ingress gateway'' (IngressGateway cf) (\<lambda>gw.
       apply_one (api_Gateways api) ''Gateway'' networking_v1alpha3 ''error applying ingress gateway'' gw)"

definition peer_authentication :: "string \<Rightarrow> PeerAuthentication" where
  "peer_authentication ns =
     \<lparr>ko_Meta = \<lparr>om_Name = ''fds-strict-mtls'', om_Namespace = ns, om_Labels = peer_labels\<rparr>,
      ko_Spec = \<lparr>pa_Selector = [''app.kubernetes.io/name'' \<mapsto> ''federation-controller''], pa_Mode = STRICT\<rparr>\<rparr>"

definition PeerAuth_Reconcile :: "'s cluster_api \<Rightarrow> string \<Rightarrow> 's \<Rightarrow> 's \<times> unit outcome" where
  "PeerAuth_Reconcile api ns =
     apply_one (api_PeerAuthentications api) ''PeerAuthentication'' ''security.istio.io/v1beta1''
       ''error applying peer authentication'' (peer_authentication ns)"

section \<open>The interface and the manager\<close>

record 's Reconciler =
  rec_GetTypeUrl :: string
  rec_Reconcile :: "'s \<Rightarrow> 's \<times> unit outcome"

definition NewDestinationRuleReconciler :: "'s cluster_api \<Rightarrow> ConfigFactory \<Rightarrow> 's Reconciler" where
  "NewDestinationRuleReconciler api cf = \<lparr>rec_GetTypeUrl = DestinationRuleTypeUrl, rec_Reconcile = DestinationRule_Reconcile api cf\<rparr>"

definition NewEnvoyFilterReconciler :: "'s cluster_api \<Rightarrow> ConfigFactory \<Rightarrow> 's Reconciler" where
  "NewEnvoyFilterReconciler api cf = \<lparr>rec_GetTypeUrl = EnvoyFilterTypeUrl, rec_Reconcile = EnvoyFilter_Reconcile api cf\<rparr>"

definition NewServiceEntryReconciler :: "'s cluster_api \<Rightarrow> ConfigFactory \<Rightarrow> 's Reconciler" where
  "NewServiceEntryReconciler api cf = \<lparr>rec_GetTypeUrl = ServiceEntryTypeUrl, rec_Reconcile = ServiceEntry_Reconcile api cf\<rparr>"

definition NewWorkloadEntryReconciler :: "'s cluster_api \<Rightarrow> ConfigFactory \<Rightarrow> 's Reconciler" where
  "NewWorkloadEntryReconciler api cf = \<lparr>rec_GetTypeUrl = WorkloadEntryTypeUrl, rec_Reconcile = WorkloadEntry_Reconcile api cf\<rparr>"

definition NewRouteReconciler :: "'s cluster_api \<Rightarrow> RouteFactory \<Rightarrow> 's Reconciler" where
  "NewRouteReconciler api cf = \<lparr>rec_GetTypeUrl = RouteTypeUrl, rec_Reconcile = Route_Reconcile api cf\<rparr>"

definition NewGatewayResourceReconciler :: "'s cluster_api \<Rightarrow> ConfigFactory \<Rightarrow> 's Reconciler" where
  "NewGatewayResourceReconciler api cf = \<lparr>rec_GetTypeUrl = GatewayTypeUrl, rec_Reconcile = Gateway_Reconcile api cf\<rparr>"

definition NewPeerAuthResourceReconciler :: "'s cluster_api \<Rightarrow> string \<Rightarrow> 's Reconciler" where
  "NewPeerAuthResourceReconciler api ns = \<lparr>rec_GetTypeUrl = PeerAuthenticationTypeUrl, rec_Reconcile = PeerAuth_Reconcile api ns\<rparr>"

record 's ReconcilerManager =
  rm_reconcilers :: "(string \<times> 's Reconciler) list"

definition NewReconcilerManager :: "'s Reconciler list \<Rightarrow> 's ReconcilerManager" where
  "NewReconcilerManager reconcilers = \<lparr>rm_reconcilers = index_by rec_GetTypeUrl reconcilers\<rparr>"

fun reconcile_each :: "'s Reconciler list \<Rightarrow> 's \<Rightarrow> go_error option list \<Rightarrow> 's \<times> go_error option list outcome" where
  "reconcile_each [] s errs = (s, Val errs)"
| "reconcile_each (r # rs) s errs =
     (case rec_Reconcile r s of
        (s', Val _) \<Rightarrow> reconcile_each rs s' (errs @ [None])
      | (s', Fail e) \<Rightarrow> reconcile_each rs s' (errs @ [Some e])
      | (s', Panic p) \<Rightarrow> (s', Panic p))"

definition ReconcileAll :: "((string \<times> 's Reconciler) list \<Rightarrow> (string \<times> 's Reconciler) list)
    \<Rightarrow> 's ReconcilerManager \<Rightarrow> 's \<Rightarrow> 's \<times> go_error option outcome" where
  "ReconcileAll ord rm s =
     (case reconcile_each (map snd (ord (rm_reconcilers rm))) s [] of
        (s', Val errs) \<Rightarrow> (s', Val (errors_Join errs))
      | (s', Fail e) \<Rightarrow> (s', Fail e)
      | (s', Panic p) \<Rightarrow> (s', Panic p))"

text \<open>
  One round of the \<open>select\<close> in \<open>Start\<close>: the context is done, or a push request is received.
  The manager goes on with \<open>Val True\<close>, leaves the loop with \<open>Val False\<close>, and dies with a panic.
\<close>

datatype manager_event = CtxDone | PushReceived PushRequest

definition manager_step :: "'s ReconcilerManager \<Rightarrow> manager_event \<Rightarrow> 's \<Rightarrow> 's \<times> bool outcome" where
  "manager_step rm ev s =
     (case ev of
        CtxDone \<Rightarrow> (s, Val False)
      | PushReceived pushRequest \<Rightarrow>
          (case map_of (rm_reconcilers rm) (pr_TypeUrl pushRequest) of
             None \<Rightarrow> (s, Val True)
           | Some r \<Rightarrow>
               (case rec_Reconcile r s of
                  (s', Val _) \<Rightarrow> (s', Val True)
                | (s', Fail err) \<Rightarrow> (s', Val True)
                | (s', Panic p) \<Rightarrow> (s', Panic p))))"

text \<open>\<open>Start\<close> on the events the two channels deliver, in order: the loop is still running (\<open>Val True\<close>) or left.\<close>

fun Start :: "'s ReconcilerManager \<Rightarrow> manager_event list \<Rightarrow> 's \<Rightarrow> 's \<times> bool outcome" where
  "Start rm [] s = (s, Val True)"
| "Start rm (ev # evs) s =
     (case manager_step rm ev s of
        (s', Val True) \<Rightarrow> Start rm evs s'
      | (s', r) \<Rightarrow> (s', r))"

section \<open>Every generated object carries the label of the controller\<close>

definition labelled :: "'spec kobject list \<Rightarrow> bool" where
  "labelled objs \<longleftrightarrow> (\<forall>obj \<in> set objs. om_Labels (ko_Meta obj) = peer_labels)"

lemma labelled_le: "labelled objs \<Longrightarrow> \<forall>obj \<in> set objs. peer_labels \<subseteq>\<^sub>m om_Labels (ko_Meta obj)"
  by (simp add: labelled_def)

lemma service_entry_step_labelled:
  assumes "service_entry_step cf r res svc m = Val m'" and "\<forall>p \<in> set m. om_Labels (ko_Meta (snd p)) = peer_labels"
  shows "\<forall>p \<in> set m'. om_Labels (ko_Meta (snd p)) = peer_labels"
proof -
  have old: "om_Labels (ko_Meta e) = peer_labels" if "map_of m n = Some e" for n e
    using assms(2) map_of_SomeD [OF that] by fastforce
  consider "m' = m" | entry where "m' = AList.update (import_name r svc) entry m" "om_Labels (ko_Meta entry) = peer_labels"
  proof -
    obtain n ns where "getServiceNameAndNs (GetHostname (Some svc)) = Val (n, ns)"
      using assms(1) by (auto simp: service_entry_step_def outcome_simps)
    with assms(1) that old show ?thesis
      by (cases "lister_Get (cf_serviceLister cf) ns n"; cases "map_of m (import_name r svc)")
        (auto simp: service_entry_step_def Let_def append_endpoints_def new_service_entry_def split: if_splits)
  qed
  then show ?thesis
    using assms(2) set_update_subset by cases fastforce+
qed

lemma ServiceEntries_labelled:
  assumes "is_order ord" and "ServiceEntries ord cf = Val ses"
  shows "labelled ses"
proof -
  obtain es m where loop: "for_each (service_entries_for_remote cf) (remotes_of (cf_cfg cf)) ([], []) = Val (es, m)"
    and ses: "ses = es @ ord (map snd m)"
    using assms(2) by (auto simp: ServiceEntries_def outcome_simps)
  let ?I = "\<lambda>(es, m). labelled es \<and> (\<forall>p \<in> set m. om_Labels (ko_Meta (snd p)) = peer_labels)"
  have "?I (es, m)"
    using loop
  proof (rule for_each_invariant)
    show "?I ([], [])" by (simp add: labelled_def)
    fix r s t
    assume "?I s" and step: "service_entries_for_remote cf r s = Val t"
    then obtain es m where s: "s = (es, m)" and I: "labelled es" "\<forall>p \<in> set m. om_Labels (ko_Meta (snd p)) = peer_labels"
      by (cases s) auto
    have "\<forall>p \<in> set m'. om_Labels (ko_Meta (snd p)) = peer_labels"
      if "for_each (service_entry_step cf r res) svcs m = Val m'" for res svcs m'
      using that I(2) by (rule for_each_invariant) (rule service_entry_step_labelled)
    note entries = this
    show "?I t"
    proof (cases "remote_Addresses r = []")
      case True
      with step I show ?thesis by (auto simp: s service_entries_for_remote_def)
    next
      case False
      then obtain fds res m' where "t = (es @ [fds], m')" and "serviceEntryForRemoteFederationController cf r = Val fds"
        and "for_each (service_entry_step cf r res) (From (cf_importedServiceStore cf) r) m = Val m'"
        using step by (auto simp: s service_entries_for_remote_def outcome_simps)
      with I(1) entries show ?thesis
        by (auto simp: labelled_def serviceEntryForRemoteFederationController_def outcome_simps)
    qed
  qed
  with ses is_order_set [OF assms(1), of "map snd m"] show ?thesis
    by (auto simp: labelled_def)
qed

lemma workload_entries_for_labelled:
  assumes "workload_entries_for dns cf r svc = Val wes"
  shows "labelled wes"
proof -
  obtain n ns where "getServiceNameAndNs (GetHostname (Some svc)) = Val (n, ns)"
    using assms by (auto simp: workload_entries_for_def outcome_simps)
  with assms show ?thesis
    by (cases "lister_Get (cf_serviceLister cf) ns n")
      (auto simp: workload_entries_for_def workload_entry_def labelled_def split: if_splits)
qed

lemma WorkloadEntries_labelled: "WorkloadEntries dns cf = Val wes \<Longrightarrow> labelled wes"
  unfolding WorkloadEntries_def labelled_def
  by (elim collect_Ball) (rule workload_entries_for_labelled [unfolded labelled_def])

lemma remote_rules_labelled:
  assumes "remote_rules cf r = Val drs"
  shows "labelled drs"
proof -
  have "labelled ds" if "collect (\<lambda>svc. obind (dr_for_service cf svc) (\<lambda>dr. Val [dr])) svcs = Val ds" for svcs ds
    using that unfolding labelled_def by (rule collect_Ball) (auto simp: dr_for_service_def dr_meta_def outcome_simps)
  with assms show ?thesis
    by (auto simp: remote_rules_def dr_for_remote_controller_def dr_meta_def labelled_def outcome_simps split: if_splits)
qed

lemma DestinationRules_labelled: "DestinationRules cf = Val drs \<Longrightarrow> labelled drs"
  unfolding DestinationRules_eq labelled_def
  by (elim collect_Ball) (rule remote_rules_labelled [unfolded labelled_def])

lemma createEnvoyFilter_labels: "createEnvoyFilter u cf n ns p = Val ef \<Longrightarrow> om_Labels (ko_Meta ef) = peer_labels"
  by (auto simp: createEnvoyFilter_def outcome_simps)

lemma EnvoyFilters_labelled:
  assumes "EnvoyFilters u cf = Val efs"
  shows "labelled efs"
proof -
  have ports: "\<forall>ef \<in> set efs. om_Labels (ko_Meta ef) = peer_labels"
    if "collect (\<lambda>port. obind (createEnvoyFilter u cf n ns (core_Port port)) (\<lambda>ef. Val [ef])) ps = Val efs" for n ns ps efs
    using that by (rule collect_Ball) (auto simp: outcome_simps dest: createEnvoyFilter_labels)
  have svcs: "\<forall>ef \<in> set efs. om_Labels (ko_Meta ef) = peer_labels"
    if "collect (\<lambda>svc. collect (\<lambda>port. obind (createEnvoyFilter u cf (svc_Name svc) (svc_Namespace svc) (core_Port port))
          (\<lambda>ef. Val [ef])) (svc_Ports svc)) ss = Val efs" for ss efs
    using that by (rule collect_Ball) (rule ports)
  have "\<forall>ef \<in> set efs. om_Labels (ko_Meta ef) = peer_labels"
    if "collect (\<lambda>sel. case lister_List (cf_serviceLister cf) (ls_MatchLabels sel) of (ss, err) \<Rightarrow>
          collect (\<lambda>svc. collect (\<lambda>port. obind (createEnvoyFilter u cf (svc_Name svc) (svc_Namespace svc) (core_Port port))
            (\<lambda>ef. Val [ef])) (svc_Ports svc)) ss) sels = Val efs" for sels efs
    using that by (rule collect_Ball) (auto split: prod.splits dest: svcs)
  note sels = this
  show ?thesis
  proof (cases "local_IngressType (mp_Local (fed_MeshPeers (cf_cfg cf))) = OpenShiftRouter")
    case True
    then obtain fds rest where "efs = fds # rest" and "om_Labels (ko_Meta fds) = peer_labels"
      and "\<forall>ef \<in> set rest. om_Labels (ko_Meta ef) = peer_labels"
      using assms sels [of "export_selectors (cf_cfg cf)"]
      by (fastforce simp: EnvoyFilters_def outcome_simps dest: createEnvoyFilter_labels)
    then show ?thesis by (simp add: labelled_def)
  next
    case False
    with assms show ?thesis by (simp add: EnvoyFilters_def labelled_def)
  qed
qed

lemma createRoute_labels: "createRoute cf n ns p = Val rt \<Longrightarrow> om_Labels (ko_Meta rt) = peer_labels"
  by (auto simp: createRoute_def outcome_simps)

lemma route_selector_misses: "\<not> route_selector \<subseteq>\<^sub>m peer_labels"
  by (simp add: route_selector_def peer_labels_def map_le_def)

section \<open>An executable cluster\<close>

record cluster =
  cl_DestinationRules :: "DestinationRule list"
  cl_EnvoyFilters :: "EnvoyFilter list"
  cl_Gateways :: "Gateway list"
  cl_PeerAuthentications :: "PeerAuthentication list"
  cl_Routes :: "Route list"
  cl_ServiceEntries :: "ServiceEntry list"
  cl_WorkloadEntries :: "WorkloadEntry list"

definition memory_api :: "cluster cluster_api" where
  "memory_api =
     \<lparr>api_DestinationRules = part_env cl_DestinationRules (\<lambda>x. cl_DestinationRules_update (\<lambda>_. x))
        (memory_env ''DestinationRule'' networking_v1alpha3),
      api_EnvoyFilters = part_env cl_EnvoyFilters (\<lambda>x. cl_EnvoyFilters_update (\<lambda>_. x))
        (memory_env ''EnvoyFilter'' networking_v1alpha3),
      api_Gateways = part_env cl_Gateways (\<lambda>x. cl_Gateways_update (\<lambda>_. x))
        (memory_env ''Gateway'' networking_v1alpha3),
      api_PeerAuthentications = part_env cl_PeerAuthentications (\<lambda>x. cl_PeerAuthentications_update (\<lambda>_. x))
        (memory_env ''PeerAuthentication'' ''security.istio.io/v1beta1''),
      api_Routes = part_env cl_Routes (\<lambda>x. cl_Routes_update (\<lambda>_. x))
        (memory_env ''Route'' ''route.openshift.io/v1''),
      api_ServiceEntries = part_env cl_ServiceEntries (\<lambda>x. cl_ServiceEntries_update (\<lambda>_. x))
        (memory_env ''ServiceEntry'' networking_v1alpha3),
      api_WorkloadEntries = part_env cl_WorkloadEntries (\<lambda>x. cl_WorkloadEntries_update (\<lambda>_. x))
        (memory_env ''WorkloadEntry'' networking_v1alpha3),
      api_lookupIP = (\<lambda>_. ([], None)),
      api_unmarshalStruct = (\<lambda>s. (JString s, None)),
      api_entryOrder = rev\<rparr>"

definition empty_cluster :: cluster where
  "empty_cluster = \<lparr>cl_DestinationRules = [], cl_EnvoyFilters = [], cl_Gateways = [], cl_PeerAuthentications = [],
     cl_Routes = [], cl_ServiceEntries = [], cl_WorkloadEntries = []\<rparr>"

lemma memory_api_exact:
  "resource_sync_exact (api_DestinationRules memory_api) (\<lambda>w. memory_view (cl_DestinationRules w)) (=) ''DestinationRule'' networking_v1alpha3"
  "resource_sync_exact (api_EnvoyFilters memory_api) (\<lambda>w. memory_view (cl_EnvoyFilters w)) (=) ''EnvoyFilter'' networking_v1alpha3"
  "resource_sync_exact (api_Gateways memory_api) (\<lambda>w. memory_view (cl_Gateways w)) (=) ''Gateway'' networking_v1alpha3"
  "resource_sync_exact (api_PeerAuthentications memory_api) (\<lambda>w. memory_view (cl_PeerAuthentications w)) (=)
     ''PeerAuthentication'' ''security.istio.io/v1beta1''"
  "resource_sync_exact (api_Routes memory_api) (\<lambda>w. memory_view (cl_Routes w)) (=) ''Route'' ''route.openshift.io/v1''"
  "resource_sync_exact (api_ServiceEntries memory_api) (\<lambda>w. memory_view (cl_ServiceEntries w)) (=) ''ServiceEntry'' networking_v1alpha3"
  "resource_sync_exact (api_WorkloadEntries memory_api) (\<lambda>w. memory_view (cl_WorkloadEntries w)) (=) ''WorkloadEntry'' networking_v1alpha3"
  unfolding memory_api_def cluster_api.simps
  by (rule part_resource_sync_exact, simp, rule memory_sync.resource_sync_exact_axioms)+

lemmas memory_api_up = memory_api_exact [THEN resource_sync_exact.axioms(1)]

lemma memory_api_args [simp]:
  "api_lookupIP memory_api = (\<lambda>_. ([], None))" "api_unmarshalStruct memory_api = (\<lambda>s. (JString s, None))"
  "api_entryOrder memory_api = rev"
  by (simp_all add: memory_api_def)

definition stale_entry :: ServiceEntry where
  "stale_entry = new_service_entry (sample_factory []) west STATIC importedB_ns1"

definition stale_rule :: DestinationRule where
  "stale_rule = dr_for_remote_controller (sample_factory []) west"

definition stale_route :: Route where
  "stale_route = \<lparr>ko_Meta = \<lparr>om_Name = ''old-ns1-80-to-federation-ingress-gateway'', om_Namespace = ''istio-system'',
                             om_Labels = peer_labels\<rparr>,
     ko_Spec = \<lparr>rt_Host = ''old-80.ns1.svc.cluster.local'', rt_ToKind = ''Service'', rt_ToName = ''federation-ingress-gateway'',
                rt_TargetPort = ''tls'', rt_Termination = TLSTerminationPassthrough\<rparr>\<rparr>"

definition stale_cluster :: cluster where
  "stale_cluster = empty_cluster\<lparr>cl_ServiceEntries := [stale_entry], cl_DestinationRules := [stale_rule], cl_Routes := [stale_route]\<rparr>"

lemma stale_cluster_sel [simp]:
  "cl_ServiceEntries stale_cluster = [stale_entry]" "cl_DestinationRules stale_cluster = [stale_rule]"
  "cl_Routes stale_cluster = [stale_route]" "cl_WorkloadEntries stale_cluster = []" "cl_EnvoyFilters stale_cluster = []"
  by (simp_all add: stale_cluster_def empty_cluster_def)

lemma no_remotes [simp]:
  "ServiceEntries ord (sample_factory []) = Val (ord [])" "DestinationRules (sample_factory []) = Val []"
  "WorkloadEntries dns (sample_factory []) = Val []"
  by (simp_all add: ServiceEntries_def DestinationRules_def WorkloadEntries_def)

lemma synced_Nil_deletes:
  "synced conforms sel [] before after \<Longrightarrow> before k = Some old \<Longrightarrow> sel \<subseteq>\<^sub>m om_Labels (ko_Meta old) \<Longrightarrow> after k = None"
  using synced_other [of conforms sel "[]" before after k] by simp

section \<open>Runs of the reconcilers\<close>

lemma ServiceEntry_run:
  assumes "resource_sync_up (api_ServiceEntries api) view conforms ''ServiceEntry'' networking_v1alpha3"
    and "is_order (api_entryOrder api)" and "ServiceEntries (api_entryOrder api) cf = Val ses"
  shows "\<exists>s'. ServiceEntry_Reconcile api cf s = (s', Val ()) \<and> synced conforms peer_labels ses (view s) (view s')"
  using resource_sync_up.sync_reaches [OF assms(1) labelled_le [OF ServiceEntries_labelled [OF assms(2,3)]]] assms(3)
  by (simp add: ServiceEntry_Reconcile_def)

lemma WorkloadEntry_run:
  assumes "resource_sync_up (api_WorkloadEntries api) view conforms ''WorkloadEntry'' networking_v1alpha3"
    and "WorkloadEntries (api_lookupIP api) cf = Val wes"
  shows "\<exists>s'. WorkloadEntry_Reconcile api cf s = (s', Val ()) \<and> synced conforms peer_labels wes (view s) (view s')"
  using resource_sync_up.sync_reaches [OF assms(1) labelled_le [OF WorkloadEntries_labelled [OF assms(2)]]] assms(2)
  by (simp add: WorkloadEntry_Reconcile_def)

lemma DestinationRule_run:
  assumes "resource_sync_up (api_DestinationRules api) view conforms ''DestinationRule'' networking_v1alpha3"
    and "DestinationRules cf = Val drs"
  shows "\<exists>s'. DestinationRule_Reconcile api cf s = (s', Val ())
    \<and> (if drs = [] then s' = s else synced conforms peer_labels drs (view s) (view s'))"
  using resource_sync_up.sync_reaches [OF assms(1) labelled_le [OF DestinationRules_labelled [OF assms(2)]]] assms(2)
  by (simp add: DestinationRule_Reconcile_def)

lemma generated_keeps:
  "generated msg m k s = (s', r) \<Longrightarrow> (\<And>x s'. k x s = (s', r) \<Longrightarrow> v s' = v s) \<Longrightarrow> v s' = v s"
  by (cases m) auto

lemma Reconcile_keeps:
  shows "keeps_view (api_ServiceEntries api) v \<Longrightarrow> ServiceEntry_Reconcile api cf s = (s', r) \<Longrightarrow> v s' = v s"
    and "keeps_view (api_WorkloadEntries api) v \<Longrightarrow> WorkloadEntry_Reconcile api cf s = (s', r) \<Longrightarrow> v s' = v s"
    and "keeps_view (api_DestinationRules api) v \<Longrightarrow> DestinationRule_Reconcile api cf s = (s', r) \<Longrightarrow> v s' = v s"
  unfolding ServiceEntry_Reconcile_def WorkloadEntry_Reconcile_def DestinationRule_Reconcile_def
  by (erule generated_keeps, erule sync_keeps, assumption)
    (erule generated_keeps, erule sync_keeps, assumption,
     erule generated_keeps, auto dest: sync_keeps split: if_splits)

section \<open>Properties of the reconcilers\<close>

text \<open>
  C5: reconciling service entries against an API server that is up always succeeds, and the cluster
  then holds exactly what \<open>ServiceEntries\<close> generated among the entries with the label of the
  controller: every generated entry is stored with its spec, every other labelled entry is deleted,
  and entries without the label are untouched.
\<close>

theorem ServiceEntry_Reconcile_synced:
  assumes "resource_sync_up (api_ServiceEntries api) view conforms ''ServiceEntry'' networking_v1alpha3"
    and "is_order (api_entryOrder api)" and "ServiceEntries (api_entryOrder api) cf = Val ses"
  shows "\<exists>s'. ServiceEntry_Reconcile api cf s = (s', Val ()) \<and> synced conforms peer_labels ses (view s) (view s')"
  using assms by (rule ServiceEntry_run)

theorem ServiceEntry_Reconcile_synced_witness:
  "\<exists>s'. ServiceEntry_Reconcile memory_api (sample_factory []) stale_cluster = (s', Val ())
     \<and> memory_view (cl_ServiceEntries stale_cluster) (obj_key stale_entry) = Some stale_entry
     \<and> memory_view (cl_ServiceEntries s') (obj_key stale_entry) = None"
proof -
  have stored: "memory_view (cl_ServiceEntries stale_cluster) (obj_key stale_entry) = Some stale_entry"
    and label: "peer_labels \<subseteq>\<^sub>m om_Labels (ko_Meta stale_entry)"
    by (simp_all add: memory_view_def) (simp add: stale_entry_def new_service_entry_def)
  with ServiceEntry_Reconcile_synced [OF memory_api_up(6), of "sample_factory []" "[]" stale_cluster]
  show ?thesis by (auto dest: synced_Nil_deletes)
qed

text \<open>
  C25: destination rules are synchronised in the same way, except that an empty list of rules ends the
  reconciliation at once: the cluster is then left as it is, with the rules of earlier rounds.
\<close>

theorem DestinationRule_Reconcile_synced:
  assumes "resource_sync_up (api_DestinationRules api) view conforms ''DestinationRule'' networking_v1alpha3"
    and "DestinationRules cf = Val drs"
  shows "\<exists>s'. DestinationRule_Reconcile api cf s = (s', Val ())
    \<and> (if drs = [] then s' = s else synced conforms peer_labels drs (view s) (view s'))"
  using assms by (rule DestinationRule_run)

theorem DestinationRule_Reconcile_synced_witness:
  "\<exists>s'. DestinationRule_Reconcile memory_api (sample_factory []) stale_cluster = (s', Val ())
     \<and> cl_DestinationRules s' = [stale_rule] \<and> peer_labels \<subseteq>\<^sub>m om_Labels (ko_Meta stale_rule)"
  using DestinationRule_Reconcile_synced [OF memory_api_up(1), of "sample_factory []" "[]" stale_cluster]
  by (simp add: stale_rule_def dr_for_remote_controller_def dr_meta_def)

text \<open>Envoy filters likewise.\<close>

lemma EnvoyFilter_Reconcile_synced:
  assumes "resource_sync_up (api_EnvoyFilters api) view conforms ''EnvoyFilter'' networking_v1alpha3"
    and "EnvoyFilters (api_unmarshalStruct api) cf = Val efs"
  shows "\<exists>s'. EnvoyFilter_Reconcile api cf s = (s', Val ())
    \<and> (if efs = [] then s' = s else synced conforms peer_labels efs (view s) (view s'))"
  using resource_sync_up.sync_reaches [OF assms(1) labelled_le [OF EnvoyFilters_labelled [OF assms(2)]]] assms(2)
  by (simp add: EnvoyFilter_Reconcile_def)

text \<open>
  Reconciling the same service entries again changes nothing, on a server whose stored specs
  \<open>reflect.DeepEqual\<close> recognises.
\<close>

lemma ServiceEntry_Reconcile_idempotent:
  assumes "resource_sync_exact (api_ServiceEntries api) view conforms ''ServiceEntry'' networking_v1alpha3"
    and "is_order (api_entryOrder api)" and "ServiceEntry_Reconcile api cf s = (s', Val ())"
  shows "ServiceEntry_Reconcile api cf s' = (s', Val ())"
proof -
  obtain ses where ses: "ServiceEntries (api_entryOrder api) cf = Val ses"
    using assms(3) by (cases "ServiceEntries (api_entryOrder api) cf") (simp_all add: ServiceEntry_Reconcile_def)
  with assms(3) resource_sync_exact.sync_idempotent [OF assms(1) _ labelled_le [OF ServiceEntries_labelled [OF assms(2) ses]]]
  show ?thesis by (simp add: ServiceEntry_Reconcile_def)
qed

text \<open>
  C34: the Route reconciler lists by a label that it never sets. A Route it created earlier and that is
  no longer generated is therefore not found among the old ones: whatever the reconciliation returns,
  the Route stays in the cluster.
\<close>

theorem Route_Reconcile_keeps_stale:
  assumes "resource_sync (api_Routes api) view conforms" and "Routes cf = Val rts"
    and "view s k = Some old" and "om_Labels (ko_Meta old) = peer_labels" and "k \<notin> obj_key ` set rts"
  shows "\<exists>s' r. Route_Reconcile api cf s = (s', r) \<and> view s' k = Some old"
proof -
  obtain s' r where run: "Route_Reconcile api cf s = (s', r)" by (cases "Route_Reconcile api cf s")
  then have "view s' k = Some old"
    using resource_sync.sync_unlisted [OF assms(1) _ assms(5,3)] assms(2,4) route_selector_misses
    by (simp add: Route_Reconcile_def)
  with run show ?thesis by blast
qed

theorem Route_Reconcile_keeps_stale_witness:
  "\<exists>s' r. Route_Reconcile memory_api (NewRouteFactory (east_cfg OpenShiftRouter []) plain_lister) stale_cluster = (s', r)
     \<and> memory_view (cl_Routes s') (obj_key stale_route) = Some stale_route"
proof -
  let ?cf = "NewRouteFactory (east_cfg OpenShiftRouter []) plain_lister"
  have "lister_List plain_lister (ls_MatchLabels export_true) = ([], None)"
    by (simp add: plain_lister_def cache_lister_def)
  then have "\<exists>rt. Routes ?cf = Val [rt] \<and> hd (om_Name (ko_Meta rt)) = CHR ''f''"
    by (simp add: Routes_def NewRouteFactory_def) (simp add: createRoute_def east_cfg_def)
  then obtain rt where rt: "Routes ?cf = Val [rt]" "hd (om_Name (ko_Meta rt)) = CHR ''f''" by blast
  note rt(2)
  moreover have "hd (om_Name (ko_Meta stale_route)) \<noteq> CHR ''f''"
    by (simp add: stale_route_def)
  ultimately have "obj_key stale_route \<notin> obj_key ` set [rt]"
    by (auto simp: obj_key_def)
  moreover have "memory_view (cl_Routes stale_cluster) (obj_key stale_route) = Some stale_route"
    by (simp add: memory_view_def)
  moreover have "om_Labels (ko_Meta stale_route) = peer_labels"
    by (simp add: stale_route_def)
  ultimately show ?thesis
    using Route_Reconcile_keeps_stale [OF memory_api_up(5) [THEN resource_sync_up.axioms(1)] rt(1)] by blast
qed

text \<open>
  C35: a failure to read the Service cache is not an error for the envoy filters, so the reconciler
  takes the filters of all exported Services for stale: it succeeds and deletes every labelled filter
  but that of the discovery service.
\<close>

theorem EnvoyFilter_Reconcile_list_error_deletes:
  assumes "resource_sync_up (api_EnvoyFilters api) view conforms ''EnvoyFilter'' networking_v1alpha3"
    and "local_IngressType (mp_Local (fed_MeshPeers (cf_cfg cf))) = OpenShiftRouter"
    and "lg_Port (local_ingress (cf_cfg cf)) = Some port"
    and "\<And>sel. lister_List (cf_serviceLister cf) sel = ([], Some err)"
  shows "\<exists>fds s'. EnvoyFilters (api_unmarshalStruct api) cf = Val [fds] \<and> EnvoyFilter_Reconcile api cf s = (s', Val ())
    \<and> {k. \<exists>ef. view s' k = Some ef \<and> peer_labels \<subseteq>\<^sub>m om_Labels (ko_Meta ef)} = {obj_key fds}"
proof -
  obtain fds where "createEnvoyFilter (api_unmarshalStruct api) cf (''federation-discovery-service-'' @ local_name (cf_cfg cf))
      ''istio-system'' 15080 = Val fds"
    using createEnvoyFilter_Val_iff assms(3) by blast
  with assms(2,4) have efs: "EnvoyFilters (api_unmarshalStruct api) cf = Val [fds]"
    by (simp add: EnvoyFilters_def)
  note le = labelled_le [OF EnvoyFilters_labelled [OF efs]]
  obtain s' where sync: "sync_resources (api_EnvoyFilters api) ''EnvoyFilter'' networking_v1alpha3 peer_labels
      envoy_filter_texts [fds] s = (s', Val ())"
    using resource_sync_up.sync_terminates [OF assms(1)] by blast
  have "{k. \<exists>ef. view s' k = Some ef \<and> peer_labels \<subseteq>\<^sub>m om_Labels (ko_Meta ef)} = {obj_key fds}"
    using resource_sync.sync_managed [OF resource_sync_up.axioms(1) [OF assms(1)] sync le] by auto
  with efs sync show ?thesis by (auto simp: EnvoyFilter_Reconcile_def)
qed

definition broken_cache_factory :: ConfigFactory where
  "broken_cache_factory = NewConfigFactory (east_cfg OpenShiftRouter [])
     (east_lister\<lparr>lister_List := (\<lambda>_. ([], Some (Other ''cache'')))\<rparr>) NewImportedServiceStore ''istio-system''"

theorem EnvoyFilter_Reconcile_list_error_deletes_witness:
  "\<exists>fds s'. EnvoyFilters (api_unmarshalStruct memory_api) broken_cache_factory = Val [fds]
    \<and> EnvoyFilter_Reconcile memory_api broken_cache_factory stale_cluster = (s', Val ())
    \<and> {k. \<exists>ef. memory_view (cl_EnvoyFilters s') k = Some ef \<and> peer_labels \<subseteq>\<^sub>m om_Labels (ko_Meta ef)} = {obj_key fds}"
proof (rule EnvoyFilter_Reconcile_list_error_deletes [OF memory_api_up(2)])
  show "lg_Port (local_ingress (cf_cfg broken_cache_factory)) = Some \<lparr>gp_Name = ''tls'', gp_Number = 443\<rparr>"
    by (simp add: broken_cache_factory_def east_cfg_def)
qed (simp_all add: broken_cache_factory_def, simp add: east_cfg_def)

text \<open>
  The gateway reconciler writes the generated gateway and changes no other gateway; with a cache
  that answers and an API server that is up it succeeds.
\<close>

lemma Gateway_Reconcile_applies:
  assumes "kube_api_up (ke_client (api_Gateways api)) view conforms ''Gateway'' networking_v1alpha3"
    and "serves_cache matches svcs (cf_serviceLister cf)" and "lg_Port (local_ingress (cf_cfg cf)) = Some port"
  shows "\<exists>s' gw stored. IngressGateway cf = Val gw \<and> Gateway_Reconcile api cf s = (s', Val ())
    \<and> view s' = (view s)(obj_key gw \<mapsto> stored) \<and> conforms (ko_Spec gw) (ko_Spec stored)"
proof -
  obtain gw where gw: "IngressGateway cf = Val gw"
    using IngressGateway_eq [OF assms(2,3)] by blast
  let ?ac = "apply_configuration_of ''Gateway'' networking_v1alpha3 gw"
  obtain s' stored where ap: "kc_Apply (ke_client (api_Gateways api)) s ?ac = (s', Inr stored)"
    using kube_api_up.apply_up [OF assms(1), of ?ac s] by auto
  with gw have "Gateway_Reconcile api cf s = (s', Val ())"
    by (simp add: Gateway_Reconcile_def apply_one_def)
  with gw kube_api.apply_ok [OF kube_api_up.axioms(1) [OF assms(1)] ap] show ?thesis by auto
qed

definition exporting_factory :: ConfigFactory where
  "exporting_factory = NewConfigFactory (east_cfg Istio []) east_lister NewImportedServiceStore ''istio-system''"

section \<open>Properties of the manager\<close>

definition never_panics :: "'s Reconciler \<Rightarrow> bool" where
  "never_panics r \<longleftrightarrow> (\<forall>s p. snd (rec_Reconcile r s) \<noteq> Panic p)"

text \<open>What a push request does to the cluster when errors are only logged.\<close>

definition handle_push :: "'s ReconcilerManager \<Rightarrow> PushRequest \<Rightarrow> 's \<Rightarrow> 's" where
  "handle_push rm req s = (case map_of (rm_reconcilers rm) (pr_TypeUrl req) of
       None \<Rightarrow> s | Some r \<Rightarrow> fst (rec_Reconcile r s))"

lemma manager_step_push:
  assumes "\<forall>r \<in> snd ` set (rm_reconcilers rm). never_panics r"
  shows "manager_step rm (PushReceived req) s = (handle_push rm req s, Val True)"
proof (cases "map_of (rm_reconcilers rm) (pr_TypeUrl req)")
  case None
  then show ?thesis by (simp add: manager_step_def handle_push_def)
next
  case (Some r)
  then have "never_panics r" using assms by (force dest: map_of_SomeD)
  obtain s' res where "rec_Reconcile r s = (s', res)" by (cases "rec_Reconcile r s")
  with \<open>never_panics r\<close> Some show ?thesis
    by (cases res) (auto simp: manager_step_def handle_push_def never_panics_def dest: spec [of _ s])
qed


definition failing_reconciler :: "nat Reconciler" where
  "failing_reconciler = \<lparr>rec_GetTypeUrl = ServiceEntryTypeUrl, rec_Reconcile = (\<lambda>n. (Suc n, Fail (Other ''down'')))\<rparr>"


fun run_errors :: "'s Reconciler list \<Rightarrow> 's \<Rightarrow> go_error list" where
  "run_errors [] s = []"
| "run_errors (r # rs) s =
     (case rec_Reconcile r s of (s', Fail e) \<Rightarrow> e # run_errors rs s' | (s', _) \<Rightarrow> run_errors rs s')"

fun run_results :: "'s Reconciler list \<Rightarrow> 's \<Rightarrow> go_error option list" where
  "run_results [] s = []"
| "run_results (r # rs) s =
     (case rec_Reconcile r s of (s', Fail e) \<Rightarrow> Some e # run_results rs s' | (s', _) \<Rightarrow> None # run_results rs s')"

lemma run_results_errors: "List.map_filter id (run_results rs s) = run_errors rs s"
  by (induction rs s rule: run_results.induct) (auto simp: map_filter_def split: prod.splits outcome.splits)

lemma reconcile_each_runs:
  assumes "\<forall>r \<in> set rs. never_panics r"
  shows "reconcile_each rs s errs = (fold (\<lambda>r s. fst (rec_Reconcile r s)) rs s, Val (errs @ run_results rs s))"
  using assms
proof (induction rs arbitrary: s errs)
  case Nil
  show ?case by simp
next
  case (Cons r rs)
  obtain s' res where run: "rec_Reconcile r s = (s', res)" by (cases "rec_Reconcile r s")
  have "res \<noteq> Panic p" for p
    using Cons.prems run by (auto simp: never_panics_def) (metis snd_conv)
  with Cons run show ?case by (cases res) auto
qed

text \<open>
  \<open>ReconcileAll\<close> runs every registered reconciler once, in some order, goes on after one fails, and
  returns the failures joined, or no error exactly when none failed.
\<close>

lemma ReconcileAll_runs_each_once:
  assumes "is_order ord" and "distinct (map rec_GetTypeUrl rs)" and "\<forall>r \<in> set rs. never_panics r"
  shows "\<exists>perm. mset perm = mset rs \<and> ReconcileAll ord (NewReconcilerManager rs) s =
    (fold (\<lambda>r s. fst (rec_Reconcile r s)) perm s,
     Val (if run_errors perm s = [] then None else Some (Joined (run_errors perm s))))"
proof -
  let ?perm = "map snd (ord (index_by rec_GetTypeUrl rs))"
  have "mset ?perm = mset (map snd (index_by rec_GetTypeUrl rs))"
    using assms(1) by (metis is_order_def mset_map)
  also have "\<dots> = mset rs"
    using assms(2) by (simp add: index_by_distinct comp_def)
  finally have perm: "mset ?perm = mset rs" .
  then have "\<forall>r \<in> set ?perm. never_panics r"
    using assms(3) mset_eq_setD by blast
  from reconcile_each_runs [OF this, of s "[]"] perm show ?thesis
    by (intro exI [of _ ?perm]) (simp add: ReconcileAll_def NewReconcilerManager_def errors_Join_def run_results_errors)
qed

end
