(* ===== verification/Informer.thy ===== *)
theory Informer
  imports Fds Samples
begin

text \<open>
  The informer side, \<open>internal/pkg/legacy/informer\<close>: \<open>ServiceExportEventHandler\<close>, which turns changes of
  local Services into push requests, and the \<open>Controller\<close> that queues the notifications of the shared
  informer and hands them to its handlers. Outside the program are the key functions of the cache
  and the rate limiting work queue; they are arguments, the queue as a record of its operations with
  the laws of the locale \<open>work_queue\<close>. An object that the cache passes to a delete notification may be a
  tombstone (\<open>cache.DeletedFinalStateUnknown\<close>), which is not a \<open>runtime.Object\<close>.
  What an operation does to the outside is the list of its sends on the two push channels.
\<close>

section \<open>Objects, events, sends\<close>

datatype runtime_object = ServiceObject Service | OtherObject

datatype cache_object = Cached runtime_object | DeletedFinalStateUnknown string runtime_object

record Event =
  ev_key :: string
  ev_eventType :: string
  ev_namespace :: string
  ev_resourceType :: string
  ev_obj :: "runtime_object option"
  ev_oldObj :: "runtime_object option"

datatype push_channel = FdsPushRequests | McpPushRequests

type_synonym sends = "(push_channel \<times> PushRequest) list"

type_synonym effect = "sends \<times> unit outcome"

fun and_then :: "effect \<Rightarrow> (unit \<Rightarrow> effect) \<Rightarrow> effect" where
  "and_then (out, Val u) k = (case k u of (out', r) \<Rightarrow> (out @ out', r))"
| "and_then (out, Fail e) k = (out, Fail e)"
| "and_then (out, Panic p) k = (out, Panic p)"

fun as_runtime_object :: "cache_object \<Rightarrow> runtime_object outcome" where
  "as_runtime_object (Cached obj) = Val obj"
| "as_runtime_object (DeletedFinalStateUnknown key obj) = Panic TypeAssertion"

fun as_service :: "runtime_object option \<Rightarrow> Service outcome" where
  "as_service (Some (ServiceObject svc)) = Val svc"
| "as_service (Some OtherObject) = Panic TypeAssertion"
| "as_service None = Panic TypeAssertion"

fun with_value :: "'a outcome \<Rightarrow> ('a \<Rightarrow> effect) \<Rightarrow> effect" where
  "with_value (Val x) k = k x"
| "with_value (Fail e) k = ([], Fail e)"
| "with_value (Panic p) k = ([], Panic p)"

section \<open>ServiceExportEventHandler\<close>

definition triggerXDSPush :: effect where
  "triggerXDSPush =
     ([(McpPushRequests, push_of GatewayTypeUrl), (McpPushRequests, push_of EnvoyFilterTypeUrl),
       (McpPushRequests, push_of RouteTypeUrl), (FdsPushRequests, push_of ExportedServiceTypeUrl)], Val ())"

definition triggerXDSPushIfMatchRules :: "label_match \<Rightarrow> Federation \<Rightarrow> Service list \<Rightarrow> effect" where
  "triggerXDSPushIfMatchRules matches cfg services =
     (let exportLabels = export_selectors cfg in
      if length services = 2 then
        with_value (index services 0) (\<lambda>old. with_value (index services 1) (\<lambda>new.
          if MatchExportRules matches old exportLabels \<noteq> MatchExportRules matches new exportLabels
          then triggerXDSPush else ([], Val ())))
      else
        with_value (index services 0) (\<lambda>svc.
          if MatchExportRules matches svc exportLabels then triggerXDSPush else ([], Val ())))"

record Handler =
  h_Init :: "go_error option"
  h_ObjectCreated :: "runtime_object option \<Rightarrow> effect"
  h_ObjectDeleted :: "runtime_object option \<Rightarrow> effect"
  h_ObjectUpdated :: "runtime_object option \<Rightarrow> runtime_object option \<Rightarrow> effect"

definition seh_ObjectCreated :: "label_match \<Rightarrow> Federation \<Rightarrow> runtime_object option \<Rightarrow> effect" where
  "seh_ObjectCreated matches cfg obj =
     with_value (as_service obj) (\<lambda>service. triggerXDSPushIfMatchRules matches cfg [service])"

definition seh_ObjectDeleted :: "label_match \<Rightarrow> Federation \<Rightarrow> runtime_object option \<Rightarrow> effect" where
  "seh_ObjectDeleted matches cfg obj =
     with_value (as_service obj) (\<lambda>service. triggerXDSPushIfMatchRules matches cfg [service])"

definition seh_ObjectUpdated :: "label_match \<Rightarrow> Federation \<Rightarrow> runtime_object option \<Rightarrow> runtime_object option \<Rightarrow> effect" where
  "seh_ObjectUpdated matches cfg oldObj newObj =
     with_value (as_service oldObj) (\<lambda>oldService. with_value (as_service newObj) (\<lambda>newService.
       triggerXDSPushIfMatchRules matches cfg [oldService, newService]))"

definition NewServiceExportEventHandler :: "label_match \<Rightarrow> Federation \<Rightarrow> Handler" where
  "NewServiceExportEventHandler matches cfg =
     \<lparr>h_Init = None, h_ObjectCreated = seh_ObjectCreated matches cfg,
      h_ObjectDeleted = seh_ObjectDeleted matches cfg, h_ObjectUpdated = seh_ObjectUpdated matches cfg\<rparr>"

section \<open>The work queue and the controller\<close>

text \<open>\<open>Get\<close> is \<open>None\<close> while it would block; otherwise the next item, or the flag that the queue was shut down.\<close>

record 'q queue_ops =
  wq_Add :: "'q \<Rightarrow> Event \<Rightarrow> 'q"
  wq_Get :: "'q \<Rightarrow> ('q \<times> (Event option)) option"
  wq_Done :: "'q \<Rightarrow> Event \<Rightarrow> 'q"
  wq_Forget :: "'q \<Rightarrow> Event \<Rightarrow> 'q"
  wq_NumRequeues :: "'q \<Rightarrow> Event \<Rightarrow> nat"
  wq_AddRateLimited :: "'q \<Rightarrow> Event \<Rightarrow> 'q"
  wq_ShutDown :: "'q \<Rightarrow> 'q"

record 'q Controller =
  c_queue :: "'q queue_ops"
  c_resourceType :: string
  c_eventHandlers :: "Handler list"

type_synonym key_func = "cache_object \<Rightarrow> string \<times> go_error option"

definition maxRetries :: nat where
  "maxRetries = 5"

definition AddFunc :: "key_func \<Rightarrow> 'q Controller \<Rightarrow> 'q \<Rightarrow> cache_object \<Rightarrow> 'q outcome" where
  "AddFunc metaKey c q obj =
     (case metaKey obj of (key, err) \<Rightarrow>
       obind (as_runtime_object obj) (\<lambda>robj.
         let newEvent = \<lparr>ev_key = key, ev_eventType = ''create'', ev_namespace = [], ev_resourceType = c_resourceType c,
                         ev_obj = Some robj, ev_oldObj = None\<rparr>
         in Val (if err = None then wq_Add (c_queue c) q newEvent else q)))"

definition UpdateFunc :: "key_func \<Rightarrow> 'q Controller \<Rightarrow> 'q \<Rightarrow> cache_object \<Rightarrow> cache_object \<Rightarrow> 'q outcome" where
  "UpdateFunc metaKey c q old new =
     (case metaKey old of (key, err) \<Rightarrow>
       obind (as_runtime_object new) (\<lambda>robj. obind (as_runtime_object old) (\<lambda>oldo.
         let newEvent = \<lparr>ev_key = key, ev_eventType = ''update'', ev_namespace = [], ev_resourceType = c_resourceType c,
                         ev_obj = Some robj, ev_oldObj = Some oldo\<rparr>
         in Val (if err = None then wq_Add (c_queue c) q newEvent else q))))"

definition DeleteFunc :: "key_func \<Rightarrow> 'q Controller \<Rightarrow> 'q \<Rightarrow> cache_object \<Rightarrow> 'q outcome" where
  "DeleteFunc deletionKey c q obj =
     (case deletionKey obj of (key, err) \<Rightarrow>
       obind (as_runtime_object obj) (\<lambda>robj.
         let newEvent = \<lparr>ev_key = key, ev_eventType = ''delete'', ev_namespace = [], ev_resourceType = c_resourceType c,
                         ev_obj = Some robj, ev_oldObj = None\<rparr>
         in Val (if err = None then wq_Add (c_queue c) q newEvent else q)))"

definition NewResourceController :: "'q queue_ops \<Rightarrow> go_error option \<Rightarrow> string \<Rightarrow> Handler list \<Rightarrow> go_error + 'q Controller" where
  "NewResourceController queue registrationError resourceType eventHandlers =
     (case registrationError of
        Some err \<Rightarrow> Inl err
      | None \<Rightarrow> Inr \<lparr>c_queue = queue, c_resourceType = resourceType, c_eventHandlers = eventHandlers\<rparr>)"

fun run_handlers :: "(Handler \<Rightarrow> effect) \<Rightarrow> Handler list \<Rightarrow> effect" where
  "run_handlers call [] = ([], Val ())"
| "run_handlers call (handler # handlers) = and_then (call handler) (\<lambda>_. run_handlers call handlers)"

definition processItem :: "'q Controller \<Rightarrow> Event \<Rightarrow> effect" where
  "processItem c newEvent =
     (if ev_eventType newEvent = ''create'' then
        run_handlers (\<lambda>h. h_ObjectCreated h (ev_obj newEvent)) (c_eventHandlers c)
      else if ev_eventType newEvent = ''update'' then
        run_handlers (\<lambda>h. h_ObjectUpdated h (ev_oldObj newEvent) (ev_obj newEvent)) (c_eventHandlers c)
      else if ev_eventType newEvent = ''delete'' then
        run_handlers (\<lambda>h. h_ObjectDeleted h (ev_obj newEvent)) (c_eventHandlers c)
      else ([], Val ()))"

text \<open>
  The outcome of one call of \<open>processNextItem\<close>: it blocks in \<open>Get\<close>, returns \<open>False\<close> because the queue was
  shut down, returns \<open>True\<close> with the new queue and the sends of the handlers, or panics in a handler.
\<close>

datatype 'q next_result = Blocked | Quit 'q | Processed 'q sends | Crashed 'q sends go_panic

definition processNextItem :: "'q Controller \<Rightarrow> 'q \<Rightarrow> 'q next_result" where
  "processNextItem c q =
     (case wq_Get (c_queue c) q of
        None \<Rightarrow> Blocked
      | Some (q', None) \<Rightarrow> Quit q'
      | Some (q', Some newEvent) \<Rightarrow>
          (case processItem c newEvent of
             (out, Val _) \<Rightarrow> Processed (wq_Done (c_queue c) (wq_Forget (c_queue c) q' newEvent) newEvent) out
           | (out, Fail err) \<Rightarrow>
               if wq_NumRequeues (c_queue c) q' newEvent < maxRetries
               then Processed (wq_Done (c_queue c) (wq_AddRateLimited (c_queue c) q' newEvent) newEvent) out
               else Processed (wq_Done (c_queue c) (wq_Forget (c_queue c) q' newEvent) newEvent) out
           | (out, Panic p) \<Rightarrow> Crashed (wq_Done (c_queue c) q' newEvent) out p))"

text \<open>
  The worker loop for at most \<open>n\<close> items: the queue, the sends so far, and whether the worker would go on
  (\<open>Val True\<close>), ended (\<open>Val False\<close>) or died.
\<close>

fun runWorker :: "nat \<Rightarrow> 'q Controller \<Rightarrow> 'q \<Rightarrow> sends \<Rightarrow> 'q \<times> sends \<times> bool outcome" where
  "runWorker 0 c q out = (q, out, Val True)"
| "runWorker (Suc n) c q out =
     (case processNextItem c q of
        Blocked \<Rightarrow> (q, out, Val True)
      | Quit q' \<Rightarrow> (q', out, Val False)
      | Processed q' out' \<Rightarrow> runWorker n c q' (out @ out')
      | Crashed q' out' p \<Rightarrow> (q', out @ out', Panic p))"

definition HasSynced :: "bool \<Rightarrow> bool \<Rightarrow> bool" where
  "HasSynced informerSynced registrationSynced = (informerSynced \<and> registrationSynced)"

text \<open>
  \<open>Run\<close> after \<open>WaitForCacheSync\<close> returned \<open>synced\<close> (a \<open>False\<close> is fatal): the handlers are initialised, a failing
  \<open>Init\<close> is only logged, then the worker runs, and the queue is shut down at the end.
\<close>

datatype 'q run_result = FatalNotSynced | Running "'q \<times> sends" | Stopped "'q \<times> sends" | Died "'q \<times> sends" go_panic

definition Run :: "nat \<Rightarrow> bool \<Rightarrow> 'q Controller \<Rightarrow> 'q \<Rightarrow> 'q run_result" where
  "Run n synced c q =
     (if \<not> synced then FatalNotSynced
      else (case runWorker n c q [] of
          (q', out, Val True) \<Rightarrow> Running (q', out)
        | (q', out, Val False) \<Rightarrow> Stopped (wq_ShutDown (c_queue c) q', out)
        | (q', out, Fail e) \<Rightarrow> Running (q', out)
        | (q', out, Panic p) \<Rightarrow> Died (wq_ShutDown (c_queue c) q', out) p))"

section \<open>What the controller relies on of the queue\<close>

locale work_queue =
  fixes ops :: "'q queue_ops"
    and pending :: "'q \<Rightarrow> Event list"
    and shutting :: "'q \<Rightarrow> bool"
  assumes add_pending: "\<not> shutting q \<Longrightarrow> ev \<notin> set (pending q) \<Longrightarrow> pending (wq_Add ops q ev) = pending q @ [ev]"
    and get_item: "pending q = ev # evs \<Longrightarrow> \<exists>q'. wq_Get ops q = Some (q', Some ev) \<and> pending q' = evs \<and> shutting q' = shutting q"
    and get_empty: "pending q = [] \<Longrightarrow> shutting q \<Longrightarrow> wq_Get ops q = Some (q, None)"
    and get_blocks: "pending q = [] \<Longrightarrow> \<not> shutting q \<Longrightarrow> wq_Get ops q = None"
    and done_pending: "pending (wq_Done ops q ev) = pending q" "shutting (wq_Done ops q ev) = shutting q"
    and forget_pending: "pending (wq_Forget ops q ev) = pending q" "shutting (wq_Forget ops q ev) = shutting q"
    and shutdown: "shutting (wq_ShutDown ops q)" "pending (wq_ShutDown ops q) = pending q"
begin

text \<open>A worker whose handlers do not panic processes all that is pending, in order, and then waits or ends.\<close>

lemma runWorker_drains:
  assumes "c_queue c = ops" and "\<forall>ev \<in> set (pending q). snd (processItem c ev) = Val ()"
  shows "\<exists>q'. runWorker (Suc (length (pending q))) c q out =
      (q', out @ concat (map (\<lambda>ev. fst (processItem c ev)) (pending q)), Val (\<not> shutting q)) \<and> pending q' = []"
  using assms(2)
proof (induction "pending q" arbitrary: q out)
  case Nil
  then show ?case
    using get_empty [of q] get_blocks [of q] assms(1) by (cases "shutting q") (auto simp: processNextItem_def)
next
  case (Cons ev evs)
  from get_item [OF Cons.hyps(2) [symmetric]] obtain q1 where get: "wq_Get ops q = Some (q1, Some ev)"
    and q1: "pending q1 = evs" "shutting q1 = shutting q" by blast
  let ?q2 = "wq_Done ops (wq_Forget ops q1 ev) ev"
  have q2: "pending ?q2 = evs" "shutting ?q2 = shutting q"
    by (simp_all add: done_pending forget_pending q1)
  obtain sent where item: "processItem c ev = (sent, Val ())"
    using Cons.prems Cons.hyps(2) [symmetric] by (metis list.set_intros(1) prod.collapse)
  then have step: "processNextItem c q = Processed ?q2 (fst (processItem c ev))"
    by (simp add: processNextItem_def assms(1) get)
  have "\<forall>e \<in> set (pending ?q2). snd (processItem c e) = Val ()"
    using Cons.prems Cons.hyps(2) [symmetric] q2 by simp
  from Cons.hyps(1) [OF q2(1) [symmetric] this, of "out @ fst (processItem c ev)"] obtain q3
    where "runWorker (Suc (length evs)) c ?q2 (out @ fst (processItem c ev)) =
      (q3, (out @ fst (processItem c ev)) @ concat (map (\<lambda>e. fst (processItem c e)) evs), Val (\<not> shutting q))"
      "pending q3 = []"
    using q2 by auto
  with step Cons.hyps(2) [symmetric] show ?case by auto
qed

end

section \<open>An executable queue\<close>

record fifo =
  fifo_items :: "Event list"
  fifo_shut :: bool

definition fifo_ops :: "fifo queue_ops" where
  "fifo_ops =
     \<lparr>wq_Add = (\<lambda>q ev. if fifo_shut q \<or> ev \<in> set (fifo_items q) then q else q\<lparr>fifo_items := fifo_items q @ [ev]\<rparr>),
      wq_Get = (\<lambda>q. case fifo_items q of
                  ev # evs \<Rightarrow> Some (q\<lparr>fifo_items := evs\<rparr>, Some ev)
                | [] \<Rightarrow> if fifo_shut q then Some (q, None) else None),
      wq_Done = (\<lambda>q ev. q), wq_Forget = (\<lambda>q ev. q), wq_NumRequeues = (\<lambda>q ev. 0),
      wq_AddRateLimited = (\<lambda>q ev. q\<lparr>fifo_items := fifo_items q @ [ev]\<rparr>),
      wq_ShutDown = (\<lambda>q. q\<lparr>fifo_shut := True\<rparr>)\<rparr>"

interpretation fifo_queue: work_queue fifo_ops fifo_items fifo_shut
  by unfold_locales (auto simp: fifo_ops_def)

section \<open>Service changes\<close>

datatype service_change = Created Service | Deleted Service | Updated Service Service

text \<open>The event a notification of the informer puts on the queue.\<close>

fun event_of :: "string \<Rightarrow> string \<Rightarrow> service_change \<Rightarrow> Event" where
  "event_of resourceType key (Created s) = \<lparr>ev_key = key, ev_eventType = ''create'', ev_namespace = [],
     ev_resourceType = resourceType, ev_obj = Some (ServiceObject s), ev_oldObj = None\<rparr>"
| "event_of resourceType key (Deleted s) = \<lparr>ev_key = key, ev_eventType = ''delete'', ev_namespace = [],
     ev_resourceType = resourceType, ev_obj = Some (ServiceObject s), ev_oldObj = None\<rparr>"
| "event_of resourceType key (Updated s t) = \<lparr>ev_key = key, ev_eventType = ''update'', ev_namespace = [],
     ev_resourceType = resourceType, ev_obj = Some (ServiceObject t), ev_oldObj = Some (ServiceObject s)\<rparr>"

text \<open>Whether a change adds a Service to the exported ones or takes one away.\<close>

fun export_changed :: "label_match \<Rightarrow> LabelSelectors list \<Rightarrow> service_change \<Rightarrow> bool" where
  "export_changed matches sels (Created s) = MatchExportRules matches s sels"
| "export_changed matches sels (Deleted s) = MatchExportRules matches s sels"
| "export_changed matches sels (Updated s t) = (MatchExportRules matches s sels \<noteq> MatchExportRules matches t sels)"

definition export_pushes :: sends where
  "export_pushes = [(McpPushRequests, push_of GatewayTypeUrl), (McpPushRequests, push_of EnvoyFilterTypeUrl),
     (McpPushRequests, push_of RouteTypeUrl), (FdsPushRequests, push_of ExportedServiceTypeUrl)]"

lemma processItem_change:
  assumes "c_eventHandlers c = [NewServiceExportEventHandler matches cfg]"
  shows "processItem c (event_of resourceType key ch) =
    (if export_changed matches (export_selectors cfg) ch then export_pushes else [], Val ())"
  using assms
  by (cases ch) (simp_all add: processItem_def NewServiceExportEventHandler_def seh_ObjectCreated_def seh_ObjectDeleted_def
      seh_ObjectUpdated_def triggerXDSPushIfMatchRules_def triggerXDSPush_def export_pushes_def Let_def)

text \<open>The notifications queue exactly these events.\<close>

lemma notifications_queue:
  assumes "metaKey (Cached (ServiceObject s)) = (key, None)"
  shows "AddFunc metaKey c q (Cached (ServiceObject s)) = Val (wq_Add (c_queue c) q (event_of (c_resourceType c) key (Created s)))"
    and "DeleteFunc metaKey c q (Cached (ServiceObject s)) = Val (wq_Add (c_queue c) q (event_of (c_resourceType c) key (Deleted s)))"
    and "UpdateFunc metaKey c q (Cached (ServiceObject s)) (Cached (ServiceObject t)) =
      Val (wq_Add (c_queue c) q (event_of (c_resourceType c) key (Updated s t)))"
  using assms by (simp_all add: AddFunc_def DeleteFunc_def UpdateFunc_def Let_def)

section \<open>Properties\<close>

text \<open>A worker on a queue of Service changes.\<close>

lemma runWorker_changes:
  assumes "work_queue ops pending shutting" and "c_queue c = ops"
    and "c_eventHandlers c = [NewServiceExportEventHandler matches cfg]"
    and "pending q = map (\<lambda>(key, ch). event_of resourceType key ch) changes"
  shows "\<exists>q'. runWorker (Suc (length changes)) c q [] =
    (q', concat (map (\<lambda>(key, ch). if export_changed matches (export_selectors cfg) ch then export_pushes else []) changes),
     Val (\<not> shutting q)) \<and> pending q' = []"
proof -
  have "\<forall>ev \<in> set (pending q). snd (processItem c ev) = Val ()"
    by (auto simp: assms(4) processItem_change [OF assms(3)])
  from work_queue.runWorker_drains [OF assms(1,2) this, of "[]"] show ?thesis
    by (simp add: assms(4) processItem_change [OF assms(3)] case_prod_unfold comp_def)
qed

text \<open>
  C20: the controller handles the queued changes of Services one by one in their order. Each change
  that adds a Service to the exported ones or removes one asks for the gateway, the envoy filters, the
  routes and the exported services to be pushed, in this order; no other change sends anything.
\<close>

theorem runWorker_pushes_export_changes:
  assumes "work_queue ops pending shutting" and "c_queue c = ops"
    and "c_eventHandlers c = [NewServiceExportEventHandler matches cfg]"
    and "pending q = map (\<lambda>(key, ch). event_of resourceType key ch) changes"
  shows "\<exists>q'. runWorker (Suc (length changes)) c q [] =
    (q', concat (map (\<lambda>(key, ch). if export_changed matches (export_selectors cfg) ch then export_pushes else []) changes),
     Val (\<not> shutting q)) \<and> pending q' = []"
  by (rule runWorker_changes [OF assms])

definition east_controller :: "fifo Controller" where
  "east_controller = \<lparr>c_queue = fifo_ops, c_resourceType = ''Service'',
     c_eventHandlers = [NewServiceExportEventHandler (\<subseteq>\<^sub>m) (east_cfg Istio [])]\<rparr>"

theorem runWorker_pushes_export_changes_witness:
  "\<exists>q'. runWorker 4 east_controller
      \<lparr>fifo_items = map (\<lambda>(key, ch). event_of ''Service'' key ch)
         [(''ns1/a'', Created svcA_ns1), (''ns1/b'', Updated svcA_ns1 svcB_ns1), (''ns1/b'', Deleted svcB_ns1)], fifo_shut = False\<rparr> []
    = (q', export_pushes @ export_pushes, Val True)"
proof -
  have handlers: "c_queue east_controller = fifo_ops"
    "c_eventHandlers east_controller = [NewServiceExportEventHandler (\<subseteq>\<^sub>m) (east_cfg Istio [])]"
    by (simp_all add: east_controller_def)
  show ?thesis
    using runWorker_pushes_export_changes [OF fifo_queue.work_queue_axioms handlers, of
        "\<lparr>fifo_items = map (\<lambda>(key, ch). event_of ''Service'' key ch)
         [(''ns1/a'', Created svcA_ns1), (''ns1/b'', Updated svcA_ns1 svcB_ns1), (''ns1/b'', Deleted svcB_ns1)], fifo_shut = False\<rparr>"
        "''Service''" "[(''ns1/a'', Created svcA_ns1), (''ns1/b'', Updated svcA_ns1 svcB_ns1), (''ns1/b'', Deleted svcB_ns1)]"]
    by (auto simp: eval_nat_numeral simp del: runWorker.simps event_of.simps)
qed



text \<open>
  A delete notification for an object whose final state is unknown carries a tombstone, which is not
  a runtime object: the callback panics before it queues anything, whatever the key function answers.
\<close>

lemma tombstone_panics:
  "DeleteFunc deletionKey c q (DeletedFinalStateUnknown key obj) = Panic TypeAssertion"
  by (simp add: DeleteFunc_def split: prod.split)

text \<open>
  No event is ever retried. The handlers return nothing, so processing an item cannot fail: the
  result does not depend on the retry count of the queue nor on how it re-adds an item.
\<close>

lemma processNextItem_never_retries:
  assumes "c_eventHandlers c = map (NewServiceExportEventHandler matches) cfgs"
  shows "processNextItem (c\<lparr>c_queue := (c_queue c)\<lparr>wq_NumRequeues := numRequeues, wq_AddRateLimited := readd\<rparr>\<rparr>) q = processNextItem c q"
proof -
  have not_fail: "snd (triggerXDSPushIfMatchRules matches cfg ss) \<noteq> Fail e" for cfg ss e
    by (cases ss; cases "tl ss") (auto simp: triggerXDSPushIfMatchRules_def Let_def triggerXDSPush_def)
  have run: "snd (run_handlers call (map (NewServiceExportEventHandler matches) cfgs)) \<noteq> Fail e"
    if "\<And>cfg e. snd (call (NewServiceExportEventHandler matches cfg)) \<noteq> Fail e" for call e
  proof (induction cfgs)
    case Nil
    show ?case by simp
  next
    case (Cons cfg cfgs)
    then show ?case
      using that [of cfg] by (cases "call (NewServiceExportEventHandler matches cfg)"; cases "snd (call (NewServiceExportEventHandler matches cfg))")
        (auto split: prod.splits)
  qed
  have svc: "snd (with_value (as_service obj) k) \<noteq> Fail e" if "\<And>s e. snd (k s) \<noteq> Fail e" for obj k e
    using that by (cases "as_service obj"; cases obj; cases "the obj") auto
  have "snd (seh_ObjectCreated matches cfg obj) \<noteq> Fail e" "snd (seh_ObjectDeleted matches cfg obj) \<noteq> Fail e"
    "snd (seh_ObjectUpdated matches cfg obj' obj) \<noteq> Fail e" for cfg obj obj' e
    unfolding seh_ObjectCreated_def seh_ObjectDeleted_def seh_ObjectUpdated_def by (intro svc not_fail)+
  then have "snd (processItem c ev) \<noteq> Fail e" for ev e
    unfolding processItem_def assms
    using run [of "\<lambda>h. h_ObjectCreated h (ev_obj ev)" e] run [of "\<lambda>h. h_ObjectDeleted h (ev_obj ev)" e]
      run [of "\<lambda>h. h_ObjectUpdated h (ev_oldObj ev) (ev_obj ev)" e]
    by (simp add: NewServiceExportEventHandler_def)
  moreover have "processItem (c\<lparr>c_queue := x\<rparr>) ev = processItem c ev" for x ev
    by (simp add: processItem_def)
  ultimately show ?thesis
    by (auto simp: processNextItem_def split: option.splits prod.splits outcome.splits) (metis snd_conv)+
qed

end
