(* ===== verification/Adss.thy ===== *)
theory Adss
  imports Fds
begin

text \<open>
  The aggregated discovery service server, \<open>internal/pkg/legacy/xds/adss\<close>: the subscribers and their
  streams (\<open>adss_handler.go\<close>) and the loop that broadcasts push requests (\<open>grpc_server.go\<close>). gRPC is
  outside the program: a stream is a name, \<open>sendErr\<close> is the result of \<open>Send\<close> on it, \<open>clock\<close> the Unix time
  at which a response is built, \<open>podName\<close> the variable \<open>POD_NAME\<close>. A handler may read anything that
  changes over time (the Service cache), which is its argument \<open>'w\<close>. \<open>sync.Map.Range\<close> visits the
  subscribers in the order \<open>ord\<close>.
  The server as a whole is the step relation \<open>server_step\<close>: connections, requests, disconnections, push
  requests and the shutdown in any interleaving.
\<close>

section \<open>Data\<close>

type_synonym stream = nat

record DiscoveryRequest =
  req_TypeUrl :: string
  req_VersionInfo :: string
  req_ResponseNonce :: string

record DiscoveryResponse =
  resp_TypeUrl :: string
  resp_VersionInfo :: string
  resp_Resources :: "Any list"
  resp_Identifier :: string
  resp_Nonce :: string

record 'w RequestHandler =
  rh_GetTypeUrl :: string
  rh_GenerateResponse :: "'w \<Rightarrow> Any list outcome"

record 'w adsServer =
  ads_handlers :: "string \<rightharpoonup> 'w RequestHandler"
  ads_subscribers :: "(64 word \<times> stream) list"
  ads_nextSubscriberID :: "64 word"

record server_env =
  se_podName :: string
  se_clock :: "stream \<Rightarrow> int"
  se_sendErr :: "stream \<Rightarrow> go_error option"
  se_order :: "(64 word \<times> stream) list \<Rightarrow> (64 word \<times> stream) list"

definition strconv_FormatInt :: "int \<Rightarrow> string" where
  "strconv_FormatInt i = (if i < 0 then CHR ''-'' # fmt_nat (nat (- i)) else fmt_nat (nat i))"

type_synonym delivery = "stream \<times> DiscoveryResponse"

section \<open>Operations\<close>

definition NewServer :: "'w RequestHandler list \<Rightarrow> 'w adsServer" where
  "NewServer handlers =
     \<lparr>ads_handlers = foldl (\<lambda>m g. m(rh_GetTypeUrl g \<mapsto> g)) Map.empty handlers,
      ads_subscribers = [], ads_nextSubscriberID = 0\<rparr>"

text \<open>The registration part of \<open>StreamAggregatedResources\<close>; the call then waits for its context.\<close>

definition StreamAggregatedResources :: "'w adsServer \<Rightarrow> stream \<Rightarrow> 'w adsServer" where
  "StreamAggregatedResources adss downstream =
     (let sub_id = ads_nextSubscriberID adss + 1 in
      adss\<lparr>ads_nextSubscriberID := sub_id,
           ads_subscribers := AList.update sub_id downstream (ads_subscribers adss)\<rparr>)"

definition DeltaAggregatedResources :: "go_error option" where
  "DeltaAggregatedResources = Some (Other ''Not Implemented'')"

text \<open>The resources and the error that \<open>generateResources\<close> returns together.\<close>

definition generateResources :: "'w \<Rightarrow> 'w adsServer \<Rightarrow> string \<Rightarrow> (Any list \<times> go_error option) outcome" where
  "generateResources w adss typeUrl =
     (case ads_handlers adss typeUrl of
        None \<Rightarrow> Val ([], None)
      | Some handler \<Rightarrow>
          (case rh_GenerateResponse handler w of
             Val resources \<Rightarrow> Val (resources, None)
           | Fail err \<Rightarrow> Val ([], Some (Wrap ''failed generating resources for type'' err))
           | Panic p \<Rightarrow> Panic p))"

definition sendToStream :: "server_env \<Rightarrow> stream \<Rightarrow> string \<Rightarrow> Any list \<Rightarrow> string \<Rightarrow> delivery list \<times> go_error option" where
  "sendToStream env downstream typeUrl xdsResources version =
     (case se_sendErr env downstream of
        None \<Rightarrow> ([(downstream, \<lparr>resp_TypeUrl = typeUrl, resp_VersionInfo = version, resp_Resources = xdsResources,
                               resp_Identifier = se_podName env, resp_Nonce = version\<rparr>)], None)
      | Some err \<Rightarrow> ([], Some err))"

text \<open>One round of the loop in \<open>recvFromStream\<close>: a request was received; send errors are only logged.\<close>

definition handle_request :: "server_env \<Rightarrow> 'w \<Rightarrow> 'w adsServer \<Rightarrow> stream \<Rightarrow> DiscoveryRequest \<Rightarrow> delivery list outcome" where
  "handle_request env w adss downstream req =
     (if req_VersionInfo req = [] then
        obind (generateResources w adss (req_TypeUrl req)) (\<lambda>(resources, err).
          Val (fst (sendToStream env downstream (req_TypeUrl req) resources (strconv_FormatInt (se_clock env downstream)))))
      else Val [])"

text \<open>The loop on what \<open>Recv\<close> delivers until its first error, each request with the world it meets.\<close>

fun recvFromStream :: "'w adsServer \<Rightarrow> stream \<Rightarrow> (server_env \<times> 'w \<times> (go_error + DiscoveryRequest)) list \<Rightarrow> delivery list outcome" where
  "recvFromStream adss downstream [] = Val []"
| "recvFromStream adss downstream ((env, w, Inl err) # rest) = Val []"
| "recvFromStream adss downstream ((env, w, Inr req) # rest) =
     obind (handle_request env w adss downstream req) (\<lambda>out.
       obind (recvFromStream adss downstream rest) (\<lambda>out'. Val (out @ out')))"

definition subscribersLen :: "'w adsServer \<Rightarrow> nat" where
  "subscribersLen adss = foldl (\<lambda>length _. length + 1) 0 (ads_subscribers adss)"

record 'w push_result =
  pres_ads :: "'w adsServer"
  pres_sent :: "delivery list"
  pres_closed :: "stream list"

definition push_response :: "server_env \<Rightarrow> stream \<Rightarrow> string \<Rightarrow> Any list \<Rightarrow> DiscoveryResponse" where
  "push_response env st typeUrl resources =
     \<lparr>resp_TypeUrl = typeUrl, resp_VersionInfo = strconv_FormatInt (se_clock env st), resp_Resources = resources,
      resp_Identifier = se_podName env, resp_Nonce = []\<rparr>"

definition push_one :: "server_env \<Rightarrow> string \<Rightarrow> Any list \<Rightarrow> 64 word \<times> stream \<Rightarrow> 'w push_result \<Rightarrow> 'w push_result" where
  "push_one env typeUrl resources = (\<lambda>(key, st) res.
     (case se_sendErr env st of
        None \<Rightarrow> res\<lparr>pres_sent := pres_sent res @ [(st, push_response env st typeUrl resources)]\<rparr>
      | Some err \<Rightarrow> res\<lparr>pres_closed := pres_closed res @ [st],
                       pres_ads := (pres_ads res)\<lparr>ads_subscribers := AList.delete key (ads_subscribers (pres_ads res))\<rparr>\<rparr>))"

definition push :: "server_env \<Rightarrow> 'w \<Rightarrow> 'w adsServer \<Rightarrow> PushRequest \<Rightarrow> ('w push_result \<times> go_error option) outcome" where
  "push env w adss pushRequest =
     (let unchanged = \<lparr>pres_ads = adss, pres_sent = [], pres_closed = []\<rparr> in
      if subscribersLen adss = 0 then Val (unchanged, None)
      else
        obind (case pr_Resources pushRequest of
                 Some resources \<Rightarrow> Val (resources, None)
               | None \<Rightarrow> generateResources w adss (pr_TypeUrl pushRequest)) (\<lambda>(resources, err).
          (case err of
             Some e \<Rightarrow> Val (unchanged, Some e)
           | None \<Rightarrow> Val (fold (push_one env (pr_TypeUrl pushRequest) resources)
                            (se_order env (ads_subscribers adss)) unchanged, None))))"

text \<open>All subscribers are closed and removed: the new server and the closed streams.\<close>

definition closeSubscribers :: "server_env \<Rightarrow> 'w adsServer \<Rightarrow> 'w adsServer \<times> stream list" where
  "closeSubscribers env adss =
     fold (\<lambda>(key, st) (a, closed). (a\<lparr>ads_subscribers := AList.delete key (ads_subscribers a)\<rparr>, closed @ [st]))
       (se_order env (ads_subscribers adss)) (adss, [])"

section \<open>Lemmas\<close>

lemma subscribersLen_eq: "subscribersLen adss = length (ads_subscribers adss)"
proof -
  have "foldl (\<lambda>n _. n + 1) k xs = k + length xs" for k and xs :: "(64 word \<times> stream) list"
    by (induction xs arbitrary: k) auto
  then show ?thesis by (simp add: subscribersLen_def)
qed

definition failed_keys :: "server_env \<Rightarrow> (64 word \<times> stream) list \<Rightarrow> 64 word set" where
  "failed_keys env es = fst ` {e \<in> set es. se_sendErr env (snd e) \<noteq> None}"

lemma failed_keys_Cons:
  "failed_keys env (e # es) = (if se_sendErr env (snd e) = None then failed_keys env es else insert (fst e) (failed_keys env es))"
  by (auto simp: failed_keys_def)

lemma filter_delete:
  "filter (\<lambda>e. fst e \<notin> K) (AList.delete key subs) = filter (\<lambda>e. fst e \<notin> insert key K) subs"
  by (induction subs) (auto simp: AList.delete_eq)

lemma push_fold:
  "fold (push_one env url rs) es res =
     \<lparr>pres_ads = (pres_ads res)\<lparr>ads_subscribers := filter (\<lambda>e. fst e \<notin> failed_keys env es) (ads_subscribers (pres_ads res))\<rparr>,
      pres_sent = pres_sent res @ map (\<lambda>e. (snd e, push_response env (snd e) url rs)) (filter (\<lambda>e. se_sendErr env (snd e) = None) es),
      pres_closed = pres_closed res @ map snd (filter (\<lambda>e. se_sendErr env (snd e) \<noteq> None) es)\<rparr>"
proof (induction es arbitrary: res)
  case Nil
  show ?case by (simp add: failed_keys_def)
next
  case (Cons e es)
  then show ?case
    by (cases e; cases "se_sendErr env (snd e)")
      (simp_all add: failed_keys_Cons push_one_def filter_delete)
qed

lemma closeSubscribers_fold:
  "fold (\<lambda>(key, st) (a, closed). (a\<lparr>ads_subscribers := AList.delete key (ads_subscribers a)\<rparr>, closed @ [st])) es (adss, closed) =
   (adss\<lparr>ads_subscribers := filter (\<lambda>e. fst e \<notin> fst ` set es) (ads_subscribers adss)\<rparr>, closed @ map snd es)"
proof (induction es arbitrary: adss closed)
  case Nil
  show ?case by simp
next
  case (Cons e es)
  then show ?case
    by (cases e) (simp add: filter_delete)
qed

section \<open>The server as a state machine\<close>

text \<open>
  \<open>Serving\<close>: \<open>Run\<close> waits in its \<open>select\<close>. \<open>Closing\<close>: the context is done and \<open>closeSubscribers\<close> has returned.
  \<open>Draining\<close>: \<open>GracefulStop\<close> was called: no connection is accepted, and it waits for the open calls.
  \<open>Stopped\<close>: \<open>Run\<close> returned. Streams are named by the number of the connection; \<open>ss_open\<close> are the calls of
  \<open>StreamAggregatedResources\<close> that have not returned, \<open>ss_out\<close> the responses that were sent.
\<close>

datatype server_phase = Serving | Closing | Draining | Stopped

record 'w server_state =
  ss_ads :: "'w adsServer"
  ss_phase :: server_phase
  ss_open :: "stream set"
  ss_out :: "delivery list"
  ss_connects :: nat

definition server_init :: "'w RequestHandler list \<Rightarrow> 'w server_state" where
  "server_init handlers = \<lparr>ss_ads = NewServer handlers, ss_phase = Serving, ss_open = {}, ss_out = [], ss_connects = 0\<rparr>"

text \<open>\<open>Run\<close> fails at once when the port cannot be bound; otherwise the server runs by the steps below.\<close>

definition Server_Run :: "go_error option \<Rightarrow> 'w RequestHandler list \<Rightarrow> 'w server_state outcome" where
  "Server_Run listenErr handlers = (case listenErr of
       Some err \<Rightarrow> Fail (Wrap ''creating TCP listener'' err)
     | None \<Rightarrow> Val (server_init handlers))"

inductive server_step :: "'w server_state \<Rightarrow> 'w server_state \<Rightarrow> bool" where
  connect: "ss_phase s = Serving \<or> ss_phase s = Closing \<Longrightarrow>
    server_step s (s\<lparr>ss_ads := StreamAggregatedResources (ss_ads s) (ss_connects s),
      ss_open := insert (ss_connects s) (ss_open s), ss_connects := Suc (ss_connects s)\<rparr>)"
| disconnect: "st \<in> ss_open s \<Longrightarrow> server_step s (s\<lparr>ss_open := ss_open s - {st}\<rparr>)"
| request: "st \<in> ss_open s \<Longrightarrow> handle_request env w (ss_ads s) st req = Val out \<Longrightarrow>
    server_step s (s\<lparr>ss_out := ss_out s @ out\<rparr>)"
| pushing: "ss_phase s = Serving \<Longrightarrow> is_order (se_order env) \<Longrightarrow> \<forall>st. st \<notin> ss_open s \<longrightarrow> se_sendErr env st \<noteq> None \<Longrightarrow>
    push env w (ss_ads s) req = Val (res, err) \<Longrightarrow>
    server_step s (s\<lparr>ss_ads := pres_ads res, ss_open := ss_open s - set (pres_closed res), ss_out := ss_out s @ pres_sent res\<rparr>)"
| close: "ss_phase s = Serving \<Longrightarrow> is_order (se_order env) \<Longrightarrow> closeSubscribers env (ss_ads s) = (adss, closed) \<Longrightarrow>
    server_step s (s\<lparr>ss_ads := adss, ss_open := ss_open s - set closed, ss_phase := Closing\<rparr>)"
| drain: "ss_phase s = Closing \<Longrightarrow> server_step s (s\<lparr>ss_phase := Draining\<rparr>)"
| stop: "ss_phase s = Draining \<Longrightarrow> ss_open s = {} \<Longrightarrow> server_step s (s\<lparr>ss_phase := Stopped\<rparr>)"

inductive_cases server_stepE: "server_step s t"

inductive server_reachable :: "'w RequestHandler list \<Rightarrow> 'w server_state \<Rightarrow> bool" for handlers where
  init: "server_reachable handlers (server_init handlers)"
| step: "server_reachable handlers s \<Longrightarrow> server_step s t \<Longrightarrow> server_reachable handlers t"

definition server_inv :: "'w server_state \<Rightarrow> bool" where
  "server_inv s \<longleftrightarrow>
     ads_nextSubscriberID (ss_ads s) = of_nat (ss_connects s)
   \<and> distinct (map fst (ads_subscribers (ss_ads s)))
   \<and> (\<forall>(k, st) \<in> set (ads_subscribers (ss_ads s)). k = of_nat (Suc st) \<and> st < ss_connects s)
   \<and> (ss_phase s = Serving \<longrightarrow> ss_open s \<subseteq> snd ` set (ads_subscribers (ss_ads s)))"

lemma server_step_mono: "server_step s t \<Longrightarrow> ss_connects s \<le> ss_connects t"
  by (cases rule: server_step.cases) auto

lemma of_nat_word64_inj: "m < 2 ^ 64 \<Longrightarrow> n < 2 ^ 64 \<Longrightarrow> (of_nat m :: 64 word) = of_nat n \<longleftrightarrow> m = n"
  by (simp add: word_of_nat_eq_iff take_bit_nat_eq_self)

lemma distinct_filter_fst: "distinct (map fst es) \<Longrightarrow> distinct (map fst (filter P es))"
  by (induction es) auto

lemma update_new:
  "k \<notin> fst ` set m \<Longrightarrow> set (AList.update k v m) = insert (k, v) (set m)"
  by (simp add: update_fresh)

lemma failed_key_iff:
  assumes "distinct (map fst subs)" and "e \<in> set subs"
  shows "fst e \<in> failed_keys env subs \<longleftrightarrow> se_sendErr env (snd e) \<noteq> None"
proof
  assume "fst e \<in> failed_keys env subs"
  then obtain f where f: "f \<in> set subs" "se_sendErr env (snd f) \<noteq> None" "fst f = fst e"
    by (auto simp: failed_keys_def)
  have "snd f = snd e"
    using eq_key_imp_eq_value [OF assms(1), of "fst e" "snd f" "snd e"] f(1,3) assms(2) by (metis prod.collapse)
  with f show "se_sendErr env (snd e) \<noteq> None" by simp
next
  assume "se_sendErr env (snd e) \<noteq> None"
  with assms(2) show "fst e \<in> failed_keys env subs" unfolding failed_keys_def by blast
qed

text \<open>What a push to all subscribers amounts to.\<close>

definition broadcast :: "server_env \<Rightarrow> string \<Rightarrow> Any list \<Rightarrow> 'w adsServer \<Rightarrow> 'w push_result" where
  "broadcast env url rs adss =
     fold (push_one env url rs) (se_order env (ads_subscribers adss)) \<lparr>pres_ads = adss, pres_sent = [], pres_closed = []\<rparr>"

lemma push_all:
  assumes "is_order (se_order env)" and res_def: "res = broadcast env url rs adss"
  shows "pres_ads res = adss\<lparr>ads_subscribers := filter (\<lambda>e. fst e \<notin> failed_keys env (ads_subscribers adss)) (ads_subscribers adss)\<rparr>"
    and "set (pres_closed res) = {st \<in> snd ` set (ads_subscribers adss). se_sendErr env st \<noteq> None}"
    and "set (pres_sent res) = (\<lambda>st. (st, push_response env st url rs)) ` {st \<in> snd ` set (ads_subscribers adss). se_sendErr env st = None}"
proof -
  have set: "set (se_order env es) = set es" for es by (rule is_order_set [OF assms(1)])
  show "pres_ads res = adss\<lparr>ads_subscribers := filter (\<lambda>e. fst e \<notin> failed_keys env (ads_subscribers adss)) (ads_subscribers adss)\<rparr>"
    by (simp add: res_def broadcast_def push_fold failed_keys_def set)
  show "set (pres_closed res) = {st \<in> snd ` set (ads_subscribers adss). se_sendErr env st \<noteq> None}"
    by (force simp: res_def broadcast_def push_fold set)
  show "set (pres_sent res) = (\<lambda>st. (st, push_response env st url rs)) ` {st \<in> snd ` set (ads_subscribers adss). se_sendErr env st = None}"
    by (force simp: res_def broadcast_def push_fold set)
qed

lemma push_cases:
  assumes "push env w adss req = Val (res, err)"
  obtains "res = \<lparr>pres_ads = adss, pres_sent = [], pres_closed = []\<rparr>"
  | rs where "res = broadcast env (pr_TypeUrl req) rs adss"
  using assms unfolding push_def Let_def broadcast_def by (auto simp: outcome_simps split: if_splits option.splits)

lemma server_inv_connect:
  assumes "server_inv s" and "Suc (ss_connects s) < 2 ^ 64" and "ss_phase s = Serving \<or> ss_phase s = Closing"
  shows "server_inv (s\<lparr>ss_ads := StreamAggregatedResources (ss_ads s) (ss_connects s),
      ss_open := insert (ss_connects s) (ss_open s), ss_connects := Suc (ss_connects s)\<rparr>)"
proof -
  have "of_nat (Suc (ss_connects s)) \<notin> fst ` set (ads_subscribers (ss_ads s))"
  proof
    assume "of_nat (Suc (ss_connects s)) \<in> fst ` set (ads_subscribers (ss_ads s))"
    then obtain st where "of_nat (Suc (ss_connects s)) = (of_nat (Suc st) :: 64 word)" "st < ss_connects s"
      using assms(1) by (auto simp: server_inv_def simp del: of_nat_Suc)
    with of_nat_word64_inj [of "Suc (ss_connects s)" "Suc st"] assms(2) show False by simp
  qed
  then have new: "1 + of_nat (ss_connects s) \<notin> fst ` set (ads_subscribers (ss_ads s))" by (simp add: add.commute)
  with assms(1) show ?thesis
    by (auto simp: server_inv_def StreamAggregatedResources_def Let_def update_fresh add.commute)
qed

lemma server_inv_push:
  assumes inv: "server_inv s" and serving: "ss_phase s = Serving" and ord: "is_order (se_order env)"
    and gone: "\<forall>st. st \<notin> ss_open s \<longrightarrow> se_sendErr env st \<noteq> None"
    and push: "push env w (ss_ads s) req = Val (res, err)" and small: "ss_connects s < 2 ^ 64"
  shows "server_inv (s\<lparr>ss_ads := pres_ads res, ss_open := ss_open s - set (pres_closed res), ss_out := ss_out s @ pres_sent res\<rparr>)"
  using push
proof (cases rule: push_cases)
  case 1
  with inv show ?thesis by (simp add: server_inv_def)
next
  case (2 rs)
  have dist: "distinct (map fst (ads_subscribers (ss_ads s)))"
    using inv by (simp add: server_inv_def)
  note all = push_all [OF ord 2]
  have "ss_open s - set (pres_closed res) \<subseteq> snd ` set (ads_subscribers (pres_ads res))"
  proof
    fix st assume st: "st \<in> ss_open s - set (pres_closed res)"
    then obtain e where e: "e \<in> set (ads_subscribers (ss_ads s))" "snd e = st"
      using inv serving by (auto simp: server_inv_def)
    with st have "se_sendErr env (snd e) = None" by (auto simp: all(2))
    with failed_key_iff [OF dist e(1), of env] e show "st \<in> snd ` set (ads_subscribers (pres_ads res))"
      by (auto simp: all(1))
  qed
  moreover have "distinct (map fst (ads_subscribers (pres_ads res)))"
    using inv by (simp add: all(1) server_inv_def distinct_filter_fst)
  moreover have "ads_nextSubscriberID (pres_ads res) = ads_nextSubscriberID (ss_ads s)"
    by (simp add: all(1))
  moreover have "set (ads_subscribers (pres_ads res)) \<subseteq> set (ads_subscribers (ss_ads s))"
    by (auto simp: all(1))
  ultimately show ?thesis
    using inv by (auto simp: server_inv_def)
qed

lemma closeSubscribers_eq:
  assumes "is_order (se_order env)"
  shows "closeSubscribers env adss = (adss\<lparr>ads_subscribers := []\<rparr>, map snd (se_order env (ads_subscribers adss)))"
proof -
  have "filter (\<lambda>e. fst e \<notin> fst ` set (ads_subscribers adss)) (ads_subscribers adss) = []"
    by (auto simp: filter_empty_conv)
  then show ?thesis
    unfolding closeSubscribers_def closeSubscribers_fold by (simp add: is_order_set [OF assms])
qed

lemma server_reachable_inv:
  assumes "server_reachable handlers s" and "ss_connects s < 2 ^ 64"
  shows "server_inv s"
  using assms
proof (induction rule: server_reachable.induct)
  case init
  show ?case by (simp add: server_inv_def server_init_def NewServer_def)
next
  case (step s t)
  have small: "ss_connects s < 2 ^ 64"
    using server_step_mono [OF step.hyps(2)] step.prems by linarith
  then have inv: "server_inv s" by (rule step.IH)
  from step.hyps(2) show ?case
  proof (cases rule: server_step.cases)
    case connect
    with server_inv_connect [OF inv] step.prems show ?thesis by simp
  next
    case (pushing env w req res err)
    with server_inv_push [OF inv _ _ _ _ small] show ?thesis by simp
  next
    case (close env adss closed)
    with inv show ?thesis by (simp add: closeSubscribers_eq) (auto simp: server_inv_def)
  qed (use inv in \<open>auto simp: server_inv_def\<close>)
qed

lemma server_step_handlers:
  assumes "server_step s t"
  shows "ads_handlers (ss_ads t) = ads_handlers (ss_ads s)"
  using assms
proof (cases rule: server_step.cases)
  case (pushing env w req res err)
  from pushing(5) show ?thesis
  proof (cases rule: push_cases)
    case (2 rs)
    with push_all(1) [OF pushing(3) 2] pushing(1) show ?thesis by simp
  qed (use pushing in simp)
qed (auto simp: StreamAggregatedResources_def Let_def closeSubscribers_eq)

lemma server_reachable_handlers:
  "server_reachable handlers s \<Longrightarrow> ads_handlers (ss_ads s) = ads_handlers (NewServer handlers)"
  by (induction rule: server_reachable.induct) (simp_all add: server_init_def server_step_handlers)

section \<open>Properties\<close>

text \<open>A push to the connected clients in a reachable state.\<close>

lemma push_delivers:
  assumes "server_reachable handlers s" and "ss_connects s < 2 ^ 64" and "ss_phase s = Serving"
    and "is_order (se_order env)" and "generateResources w (ss_ads s) url = Val (rs, None)"
    and "st \<in> ss_open s" and "se_sendErr env st = None"
  shows "\<exists>res. push env w (ss_ads s) (push_of url) = Val (res, None)
    \<and> (st, push_response env st url rs) \<in> set (pres_sent res)
    \<and> snd ` set (ads_subscribers (pres_ads res)) = {x \<in> snd ` set (ads_subscribers (ss_ads s)). se_sendErr env x = None}"
proof -
  have inv: "server_inv s" by (rule server_reachable_inv [OF assms(1,2)])
  let ?subs = "ads_subscribers (ss_ads s)"
  let ?res = "broadcast env url rs (ss_ads s)"
  have st: "st \<in> snd ` set ?subs"
    using inv assms(3,6) by (auto simp: server_inv_def)
  then have "?subs \<noteq> []" by auto
  with assms(5) have push: "push env w (ss_ads s) (push_of url) = Val (?res, None)"
    by (simp add: push_def subscribersLen_eq broadcast_def)
  note all = push_all [OF assms(4) refl, of url rs "ss_ads s"]
  have dist: "distinct (map fst ?subs)"
    using inv by (simp add: server_inv_def)
  have "snd ` set (ads_subscribers (pres_ads ?res)) = {x \<in> snd ` set ?subs. se_sendErr env x = None}"
    using failed_key_iff [OF dist, of _ env] by (auto simp: all(1))
  moreover have "(st, push_response env st url rs) \<in> set (pres_sent ?res)"
    using st assms(7) by (simp add: all(3))
  ultimately show ?thesis using push by blast
qed

text \<open>
  C11: in every interleaving of connections, requests, disconnections and pushes, as long as fewer than
  $2^{64}$ clients have connected, the subscriber identifiers are distinct and each open stream is
  registered while the server is serving. So a push whose resources can be built is delivered to every
  connected client whose stream accepts it, and each subscriber whose stream fails is removed.
\<close>

theorem push_reaches_all_connected:
  assumes "server_reachable handlers s" and "ss_connects s < 2 ^ 64" and "ss_phase s = Serving"
    and "is_order (se_order env)" and "generateResources w (ss_ads s) url = Val (rs, None)"
    and "st \<in> ss_open s" and "se_sendErr env st = None"
  shows "\<exists>res. push env w (ss_ads s) (push_of url) = Val (res, None)
    \<and> (st, push_response env st url rs) \<in> set (pres_sent res)
    \<and> snd ` set (ads_subscribers (pres_ads res)) = {x \<in> snd ` set (ads_subscribers (ss_ads s)). se_sendErr env x = None}"
  by (rule push_delivers [OF assms])

definition sample_env :: server_env where
  "sample_env = \<lparr>se_podName = ''pod'', se_clock = (\<lambda>_. 7), se_sendErr = (\<lambda>st. if st = 0 then None else Some (Other ''closed'')),
     se_order = rev\<rparr>"

definition sample_handler :: "unit RequestHandler" where
  "sample_handler = \<lparr>rh_GetTypeUrl = ExportedServiceTypeUrl, rh_GenerateResponse = (\<lambda>_. Val [\<lparr>any_TypeUrl = ''t'', any_Value = [1]\<rparr>])\<rparr>"

lemma reachable_connected: "server_reachable handlers
    \<lparr>ss_ads = (NewServer handlers)\<lparr>ads_nextSubscriberID := 1, ads_subscribers := [(1, 0)]\<rparr>, ss_phase = Serving,
     ss_open = {0}, ss_out = [], ss_connects = 1\<rparr>"
  using server_reachable.step [OF server_reachable.init [of handlers] server_step.connect]
  by (simp add: server_init_def StreamAggregatedResources_def NewServer_def)

theorem push_reaches_all_connected_witness:
  "\<exists>s res. server_reachable [sample_handler] s \<and> push sample_env () (ss_ads s) (push_of ExportedServiceTypeUrl) = Val (res, None)
    \<and> (0, push_response sample_env 0 ExportedServiceTypeUrl [\<lparr>any_TypeUrl = ''t'', any_Value = [1]\<rparr>]) \<in> set (pres_sent res)"
proof -
  let ?s = "\<lparr>ss_ads = (NewServer [sample_handler])\<lparr>ads_nextSubscriberID := 1, ads_subscribers := [(1, 0)]\<rparr>, ss_phase = Serving,
     ss_open = {0}, ss_out = [], ss_connects = 1\<rparr>"
  have "generateResources () (ss_ads ?s) ExportedServiceTypeUrl = Val ([\<lparr>any_TypeUrl = ''t'', any_Value = [1]\<rparr>], None)"
    by (simp add: generateResources_def NewServer_def sample_handler_def)
  with push_reaches_all_connected [OF reachable_connected [of "[sample_handler]"], of sample_env "()" ExportedServiceTypeUrl _ 0]
    reachable_connected [of "[sample_handler]"]
  show ?thesis by (intro exI [of _ ?s]) (auto simp: sample_env_def)
qed

text \<open>
  C27: identifiers. As long as fewer than $2^{64}$ clients have connected, the identifier of a subscriber is
  the number of its connection, read without wrap-around, and there are never more subscribers than
  connections. The counter wraps: the connection after identifier $2^{64} - 1$ is registered as 0.
\<close>

theorem subscriber_id_bounds:
  assumes "server_reachable handlers s" and "ss_connects s < 2 ^ 64" and "(k, st) \<in> set (ads_subscribers (ss_ads s))"
  shows "unat k = Suc st \<and> unat k \<le> ss_connects s \<and> subscribersLen (ss_ads s) \<le> ss_connects s
    \<and> ads_nextSubscriberID (StreamAggregatedResources (adss\<lparr>ads_nextSubscriberID := - 1\<rparr>) st) = 0"
proof -
  let ?subs = "ads_subscribers (ss_ads s)"
  have inv: "server_inv s" by (rule server_reachable_inv [OF assms(1,2)])
  then have keys: "\<forall>(k, st) \<in> set ?subs. k = of_nat (Suc st) \<and> st < ss_connects s" and dist: "distinct (map fst ?subs)"
    by (simp_all add: server_inv_def)
  have k: "k = of_nat (Suc st)" "st < ss_connects s" using keys assms(3) by auto
  then have "unat k = Suc st" using assms(2) by (simp add: unsigned_of_nat take_bit_nat_eq_self del: of_nat_Suc)
  moreover have "length ?subs \<le> ss_connects s"
  proof -
    have "fst ` set ?subs \<subseteq> (\<lambda>n. of_nat (Suc n)) ` {..<ss_connects s}" using keys by force
    then have "card (fst ` set ?subs) \<le> ss_connects s" by (metis card_image_le card_lessThan card_mono finite_imageI finite_lessThan order_trans)
    then show ?thesis using distinct_card [OF dist] by simp
  qed
  ultimately show ?thesis using k(2) by (simp add: subscribersLen_eq StreamAggregatedResources_def Let_def)
qed

theorem subscriber_id_bounds_witness:
  "\<exists>s. server_reachable [sample_handler] s \<and> (1, 0) \<in> set (ads_subscribers (ss_ads s)) \<and> unat (1 :: 64 word) = Suc 0
    \<and> subscribersLen (ss_ads s) \<le> ss_connects s"
proof -
  let ?s = "\<lparr>ss_ads = (NewServer [sample_handler])\<lparr>ads_nextSubscriberID := 1, ads_subscribers := [(1, 0)]\<rparr>, ss_phase = Serving,
     ss_open = {0}, ss_out = [], ss_connects = 1\<rparr>"
  have "server_reachable [sample_handler] ?s" by (rule reachable_connected)
  with subscriber_id_bounds [OF this, where k = 1 and st = 0 and adss = "NewServer [sample_handler]"] show ?thesis by (intro exI [of _ ?s]) simp
qed

lemma reachable_leak:
  "n < 2 ^ 64 \<Longrightarrow> \<exists>s. server_reachable handlers s \<and> ss_open s = {} \<and> ss_phase s = Serving \<and> ss_connects s = n
     \<and> length (ads_subscribers (ss_ads s)) = n"
proof (induction n)
  case 0
  show ?case
    using server_reachable.init [of handlers]
    by (intro exI [of _ "server_init handlers"] conjI) (simp_all add: server_init_def NewServer_def)
next
  case (Suc n)
  then obtain s where s: "server_reachable handlers s" "ss_open s = {}" "ss_phase s = Serving" "ss_connects s = n"
    "length (ads_subscribers (ss_ads s)) = n" by auto
  let ?t = "s\<lparr>ss_ads := StreamAggregatedResources (ss_ads s) (ss_connects s),
      ss_open := insert (ss_connects s) (ss_open s), ss_connects := Suc (ss_connects s)\<rparr>"
  have t: "server_reachable handlers ?t"
    using server_reachable.step [OF s(1) server_step.connect] s(3) by simp
  have inv: "server_inv s" using server_reachable_inv [OF s(1)] s(4) Suc.prems by simp
  have "of_nat (Suc n) \<notin> fst ` set (ads_subscribers (ss_ads s))"
  proof
    assume "of_nat (Suc n) \<in> fst ` set (ads_subscribers (ss_ads s))"
    then obtain st where "of_nat (Suc n) = (of_nat (Suc st) :: 64 word)" "st < n"
      using inv s(4) by (auto simp: server_inv_def simp del: of_nat_Suc)
    with of_nat_word64_inj [of "Suc n" "Suc st"] Suc.prems show False by simp
  qed
  then have "length (ads_subscribers (ss_ads ?t)) = Suc n"
    using inv s(4,5) by (simp add: StreamAggregatedResources_def Let_def update_fresh server_inv_def add.commute)
  moreover have "server_reachable handlers (?t\<lparr>ss_open := {}\<rparr>)"
    using server_reachable.step [OF t server_step.disconnect [of n]] s(2,4) by simp
  ultimately show ?case
    using s by (intro exI [of _ "?t\<lparr>ss_open := {}\<rparr>"]) simp
qed

text \<open>
  C31: a client that disconnects stays registered until a push to it fails: for every number \<open>n\<close> below
  $2^{64}$ the server can reach a state with no open stream and \<open>n\<close> registered subscribers.
\<close>

theorem disconnected_subscribers_remain:
  "n < 2 ^ 64 \<Longrightarrow> \<exists>s. server_reachable handlers s \<and> ss_open s = {} \<and> length (ads_subscribers (ss_ads s)) = n"
  using reachable_leak [of n handlers] by blast

theorem disconnected_subscribers_remain_witness:
  "\<exists>s. server_reachable [sample_handler] s \<and> ss_open s = {} \<and> length (ads_subscribers (ss_ads s)) = 1000"
  using disconnected_subscribers_remain [of 1000 "[sample_handler]"] by simp

text \<open>
  C32: \<open>closeSubscribers\<close> closes every stream that is open when the context ends, but a client accepted
  between it and \<open>GracefulStop\<close> is closed by no one: a state can be reached in which \<open>GracefulStop\<close> waits
  for an open stream, and it waits until the client goes away.
\<close>

theorem late_client_blocks_shutdown:
  "\<exists>s. server_reachable handlers s \<and> ss_phase s = Draining \<and> ss_open s \<noteq> {}
     \<and> ss_phase ` {t. server_step s t} \<subseteq> {Draining}"
proof -
  let ?s0 = "server_init handlers"
  have close: "server_step ?s0 (?s0\<lparr>ss_phase := Closing\<rparr>)"
    using server_step.close [of ?s0 "sample_env" "NewServer handlers" "[]"]
    by (simp add: server_init_def closeSubscribers_eq sample_env_def) (simp add: NewServer_def)
  let ?s1 = "?s0\<lparr>ss_phase := Closing\<rparr>"
  let ?s2 = "?s1\<lparr>ss_ads := StreamAggregatedResources (ss_ads ?s1) (ss_connects ?s1),
      ss_open := insert (ss_connects ?s1) (ss_open ?s1), ss_connects := Suc (ss_connects ?s1)\<rparr>"
  let ?s3 = "?s2\<lparr>ss_phase := Draining\<rparr>"
  have "server_reachable handlers ?s1"
    using server_reachable.step [OF server_reachable.init close] .
  then have "server_reachable handlers ?s2"
    by (rule server_reachable.step) (rule server_step.connect, simp)
  then have "server_reachable handlers ?s3"
    by (rule server_reachable.step) (rule server_step.drain, simp)
  moreover have "ss_phase t = Draining" if "server_step ?s3 t" for t
    using that by (cases rule: server_step.cases) auto
  ultimately show ?thesis
    by (intro exI [of _ ?s3]) auto
qed

text \<open>The first error of \<open>Recv\<close> ends the loop: what comes later is not answered.\<close>

lemma recvFromStream_stops:
  "recvFromStream adss st (xs @ (env, w, Inl err) # ys) = recvFromStream adss st xs"
  by (induction adss st xs rule: recvFromStream.induct) auto

end
