(* ===== verification/Adsc.thy ===== *)
theory Adsc
  imports Adss
begin

text \<open>
  The aggregated discovery service client, \<open>internal/pkg/legacy/xds/adsc/adsc.go\<close>. The operations
  \<open>New\<close>, \<open>dial\<close>, \<open>Run\<close>, \<open>Send\<close>, \<open>Restart\<close> and the body of \<open>handleRecv\<close> are functions; gRPC gives the results of
  dialling, of opening the stream, of each \<open>Send\<close> and of each \<open>Recv\<close>, which are their arguments.
  A handler works on a state \<open>'w\<close> (the store of imported services and the requests sent on the push
  channel). How goroutines and timers hand the client over to one another is the step relation
  \<open>client_step\<close>: a receive loop that fails leaves a timer that calls \<open>Restart\<close>, and a \<open>Restart\<close> that fails
  leaves a timer that first looks at the context.
\<close>

section \<open>Data\<close>

type_synonym 'w response_handler = "'w \<Rightarrow> string \<Rightarrow> Any list \<Rightarrow> 'w \<times> go_error option"

record 'w ADSCConfig =
  acfg_RemoteName :: string
  acfg_DiscoveryAddr :: string
  acfg_Authority :: string
  acfg_Handlers :: "(string \<times> 'w response_handler) list"
  acfg_ReconnectDelay :: int

record 'w ADSC =
  adsc_stream :: "stream option"
  adsc_conn :: "nat option"
  adsc_cfg :: "'w ADSCConfig"

text \<open>What gRPC and the clock answer during one call.\<close>

record client_env =
  ce_NewClient :: "string \<Rightarrow> string \<Rightarrow> go_error + nat"
  ce_openStream :: "nat option \<Rightarrow> go_error + stream"
  ce_sendErr :: "stream \<Rightarrow> DiscoveryRequest \<Rightarrow> go_error option"
  ce_now :: "string \<Rightarrow> string"
  ce_order :: "string list \<Rightarrow> string list"

section \<open>Operations\<close>

definition dial :: "client_env \<Rightarrow> 'w ADSC \<Rightarrow> 'w ADSC outcome" where
  "dial env a =
     (case ce_NewClient env (acfg_DiscoveryAddr (adsc_cfg a)) (acfg_Authority (adsc_cfg a)) of
        Inl err \<Rightarrow> Fail (Wrap ''failed to establish connection to the ADS server'' err)
      | Inr conn \<Rightarrow> Val (a\<lparr>adsc_conn := Some conn\<rparr>))"

definition New :: "client_env \<Rightarrow> 'w ADSCConfig option \<Rightarrow> 'w ADSC outcome" where
  "New env opts =
     (case opts of
        None \<Rightarrow> Fail (Other ''adsc: opts is nil'')
      | Some cfg \<Rightarrow> dial env \<lparr>adsc_stream = None, adsc_conn = None, adsc_cfg = cfg\<rparr>)"

text \<open>The request on the wire if it could be sent, and the error.\<close>

definition Send :: "client_env \<Rightarrow> 'w ADSC \<Rightarrow> DiscoveryRequest \<Rightarrow> (DiscoveryRequest list \<times> go_error option) outcome" where
  "Send env a req =
     (let req' = req\<lparr>req_ResponseNonce := ce_now env (req_TypeUrl req)\<rparr> in
      obind (deref (adsc_stream a)) (\<lambda>st.
        Val (case ce_sendErr env st req' of None \<Rightarrow> ([req'], None) | Some err \<Rightarrow> ([], Some err))))"

text \<open>The client, the requests sent, and the error; \<open>Run\<close> starts the receive loop iff there is none.\<close>

definition client_Run :: "client_env \<Rightarrow> 'w ADSC \<Rightarrow> ('w ADSC \<times> DiscoveryRequest list \<times> go_error option) outcome" where
  "client_Run env a =
     (case ce_openStream env (adsc_conn a) of
        Inl err \<Rightarrow> Val (a\<lparr>adsc_stream := None\<rparr>, [], Some (Wrap ''failed setting resource stream'' err))
      | Inr st \<Rightarrow>
          let a' = a\<lparr>adsc_stream := Some st\<rparr> in
          obind (collect (\<lambda>k. obind (Send env a' \<lparr>req_TypeUrl = k, req_VersionInfo = [], req_ResponseNonce = []\<rparr>)
                                (\<lambda>(sent, errSend). Val sent))
                   (ce_order env (map fst (acfg_Handlers (adsc_cfg a))))) (\<lambda>sent.
          Val (a', sent, None)))"

text \<open>What \<open>handleRecv\<close> does with a received message: an error of the handler is only logged.\<close>

definition handle_message :: "'w ADSC \<Rightarrow> string \<Rightarrow> Any list \<Rightarrow> 'w \<Rightarrow> 'w" where
  "handle_message a typeUrl resources w =
     (case map_of (acfg_Handlers (adsc_cfg a)) typeUrl of
        Some handler \<Rightarrow> fst (handler w (acfg_RemoteName (adsc_cfg a)) resources)
      | None \<Rightarrow> w)"

text \<open>
  The loop of \<open>handleRecv\<close> on the rounds it makes: each round sees whether the context is done and, if
  not, what \<open>Recv\<close> returns. It ends by itself (\<open>LoopDone\<close>), or leaves a restart timer (\<open>LoopRestart\<close>).
\<close>

datatype loop_end = LoopRunning | LoopDone | LoopRestart

fun handleRecv :: "'w ADSC \<Rightarrow> (bool \<times> (go_error + string \<times> Any list)) list \<Rightarrow> 'w \<Rightarrow> 'w \<times> loop_end" where
  "handleRecv a [] w = (w, LoopRunning)"
| "handleRecv a ((ctxDone, recv) # rounds) w =
     (if ctxDone then (w, LoopDone)
      else (case recv of
          Inl err \<Rightarrow> (w, LoopRestart)
        | Inr (typeUrl, resources) \<Rightarrow> handleRecv a rounds (handle_message a typeUrl resources w)))"

section \<open>The client as a state machine\<close>

text \<open>
  The activities of one client: goroutines about to call \<open>Run\<close> for the first time (\<open>startFDSClient\<close>),
  receive loops at their \<open>select\<close>, receive loops blocked in \<open>Recv\<close>, timers of \<open>handleRecv\<close> (they call
  \<open>Restart\<close> at once) and timers of \<open>Restart\<close> and \<open>startFDSClient\<close> (they look at the context first).
\<close>

record 'w client_state =
  cs_adsc :: "'w ADSC"
  cs_world :: 'w
  cs_done :: bool
  cs_starting :: nat
  cs_selecting :: nat
  cs_receiving :: nat
  cs_restartTimers :: nat
  cs_retryTimers :: nat

definition client_init :: "'w ADSC \<Rightarrow> 'w \<Rightarrow> 'w client_state" where
  "client_init a w = \<lparr>cs_adsc = a, cs_world = w, cs_done = False, cs_starting = 1, cs_selecting = 0,
     cs_receiving = 0, cs_restartTimers = 0, cs_retryTimers = 0\<rparr>"

text \<open>
  A call of \<open>Run\<close> by an activity that is taken away: on success a receive loop is started, on failure a
  timer that checks the context. A stream is not opened under a context that is done.
\<close>

definition run_from :: "client_env \<Rightarrow> 'w client_state \<Rightarrow> 'w client_state option" where
  "run_from env s =
     (case client_Run env (cs_adsc s) of
        Val (a, sent, None) \<Rightarrow> if cs_done s then None else Some (s\<lparr>cs_adsc := a, cs_selecting := Suc (cs_selecting s)\<rparr>)
      | Val (a, sent, Some err) \<Rightarrow> Some (s\<lparr>cs_adsc := a, cs_retryTimers := Suc (cs_retryTimers s)\<rparr>)
      | Fail e \<Rightarrow> None
      | Panic p \<Rightarrow> None)"

inductive client_step :: "'w client_state \<Rightarrow> 'w client_state \<Rightarrow> bool" where
  cancel: "\<not> cs_done s \<Longrightarrow> client_step s (s\<lparr>cs_done := True\<rparr>)"
| start: "cs_starting s = Suc n \<Longrightarrow> run_from env (s\<lparr>cs_starting := n\<rparr>) = Some t \<Longrightarrow> client_step s t"
| select_done: "cs_selecting s = Suc n \<Longrightarrow> cs_done s \<Longrightarrow> client_step s (s\<lparr>cs_selecting := n\<rparr>)"
| select_recv: "cs_selecting s = Suc n \<Longrightarrow> \<not> cs_done s \<Longrightarrow>
    client_step s (s\<lparr>cs_selecting := n, cs_receiving := Suc (cs_receiving s)\<rparr>)"
| recv_message: "cs_receiving s = Suc n \<Longrightarrow>
    client_step s (s\<lparr>cs_receiving := n, cs_selecting := Suc (cs_selecting s),
      cs_world := handle_message (cs_adsc s) typeUrl resources (cs_world s)\<rparr>)"
| recv_error: "cs_receiving s = Suc n \<Longrightarrow>
    client_step s (s\<lparr>cs_receiving := n, cs_restartTimers := Suc (cs_restartTimers s)\<rparr>)"
| restart_timer: "cs_restartTimers s = Suc n \<Longrightarrow> run_from env (s\<lparr>cs_restartTimers := n\<rparr>) = Some t \<Longrightarrow> client_step s t"
| retry_timer_done: "cs_retryTimers s = Suc n \<Longrightarrow> cs_done s \<Longrightarrow> client_step s (s\<lparr>cs_retryTimers := n\<rparr>)"
| retry_timer: "cs_retryTimers s = Suc n \<Longrightarrow> \<not> cs_done s \<Longrightarrow> run_from env (s\<lparr>cs_retryTimers := n\<rparr>) = Some t \<Longrightarrow> client_step s t"

inductive client_reachable :: "'w client_state \<Rightarrow> 'w client_state \<Rightarrow> bool" for s0 where
  init: "client_reachable s0 s0"
| step: "client_reachable s0 s \<Longrightarrow> client_step s t \<Longrightarrow> client_reachable s0 t"

definition activities :: "'w client_state \<Rightarrow> nat" where
  "activities s = cs_starting s + cs_selecting s + cs_receiving s + cs_restartTimers s + cs_retryTimers s"

text \<open>How many more steps the activities can make once the context is done.\<close>

definition remaining :: "'w client_state \<Rightarrow> nat" where
  "remaining s = 2 * cs_starting s + cs_selecting s + 3 * cs_receiving s + 2 * cs_restartTimers s + cs_retryTimers s"

lemma run_from_cases:
  assumes "run_from env s = Some t"
  obtains a where "t = s\<lparr>cs_adsc := a, cs_selecting := Suc (cs_selecting s)\<rparr>" "\<not> cs_done s"
  | a where "t = s\<lparr>cs_adsc := a, cs_retryTimers := Suc (cs_retryTimers s)\<rparr>"
  using assms by (auto simp: run_from_def split: outcome.splits prod.splits option.splits if_splits)

lemma client_step_activities:
  assumes "client_step s t"
  shows "cs_done s \<longrightarrow> cs_done t" and "activities t = activities s \<or> cs_done s \<and> Suc (activities t) = activities s"
  using assms by (cases rule: client_step.cases; auto simp: activities_def elim!: run_from_cases)+

lemma client_step_remaining:
  assumes "client_step s t" and "cs_done s"
  shows "remaining t < remaining s"
  using assms by (cases rule: client_step.cases) (auto simp: remaining_def elim!: run_from_cases)

lemma activities_reachable:
  assumes "client_reachable (client_init a w) s"
  shows "activities s \<le> 1 \<and> (\<not> cs_done s \<longrightarrow> activities s = 1)"
  using assms
proof (induction rule: client_reachable.induct)
  case init
  show ?case by (simp add: client_init_def activities_def)
next
  case (step s t)
  with client_step_activities [OF step.hyps(2)] show ?case by auto
qed

definition refusing_env :: client_env where
  "refusing_env = \<lparr>ce_NewClient = (\<lambda>_ _. Inr 0), ce_openStream = (\<lambda>_. Inl (Other ''refused'')), ce_sendErr = (\<lambda>_ _. None),
     ce_now = (\<lambda>_. []), ce_order = (\<lambda>xs. xs)\<rparr>"

lemma refused_run:
  "\<exists>t. run_from refusing_env s = Some t"
  by (simp add: run_from_def client_Run_def refusing_env_def)

lemma client_progress:
  assumes "0 < activities s" and "cs_done s"
  shows "\<exists>t. client_step s t"
proof -
  consider n where "cs_starting s = Suc n" | n where "cs_selecting s = Suc n" | n where "cs_receiving s = Suc n"
    | n where "cs_restartTimers s = Suc n" | n where "cs_retryTimers s = Suc n"
    using assms(1) unfolding activities_def by (metis add_is_0 gr0_implies_Suc not_gr0)
  then show ?thesis
  proof cases
    case 1
    with refused_run show ?thesis by (metis client_step.start)
  next
    case 2
    with assms(2) show ?thesis by (metis client_step.select_done)
  next
    case 3
    then show ?thesis by (metis client_step.recv_error)
  next
    case 4
    with refused_run show ?thesis by (metis client_step.restart_timer)
  next
    case 5
    with assms(2) show ?thesis by (metis client_step.retry_timer_done)
  qed
qed

lemma client_steps_bounded:
  "(client_step ^^ n) s t \<Longrightarrow> cs_done s \<Longrightarrow> cs_done t \<and> n + remaining t \<le> remaining s"
proof (induction n arbitrary: t)
  case 0
  then show ?case by simp
next
  case (Suc n)
  then obtain u where u: "(client_step ^^ n) s u" "client_step u t" by auto
  with Suc.IH Suc.prems(2) client_step_remaining [OF u(2)] client_step_activities(1) [OF u(2)] show ?case by force
qed

lemma remaining_activities: "remaining s \<le> 3 * activities s"
  by (simp add: remaining_def activities_def)

section \<open>Properties\<close>

text \<open>
  C18: whatever the connection does, a client never has more than one activity: no two receive loops run
  at the same time and no loop runs beside a reconnect timer. Until its context is done there is exactly
  one, so the client never gives up on its peer.
\<close>

theorem client_single_activity:
  assumes "client_reachable (client_init a w) s"
  shows "activities s \<le> 1 \<and> cs_selecting s + cs_receiving s \<le> 1 \<and> (cs_done s \<or> activities s = 1)"
  using activities_reachable [OF assms] by (auto simp: activities_def)

definition sample_client :: "unit ADSC" where
  "sample_client = \<lparr>adsc_stream = None, adsc_conn = Some 0,
     adsc_cfg = \<lparr>acfg_RemoteName = ''west'', acfg_DiscoveryAddr = ''addr'', acfg_Authority = ''auth'', acfg_Handlers = [], acfg_ReconnectDelay = 5\<rparr>\<rparr>"

lemma sample_client_reachable:
  "client_reachable (client_init sample_client ()) ((client_init sample_client ())\<lparr>cs_starting := 0, cs_retryTimers := 1\<rparr>)"
proof -
  have "run_from refusing_env ((client_init sample_client ())\<lparr>cs_starting := 0\<rparr>) =
      Some ((client_init sample_client ())\<lparr>cs_starting := 0, cs_retryTimers := 1\<rparr>)"
    by (simp add: run_from_def client_Run_def refusing_env_def client_init_def sample_client_def)
  then have "client_step (client_init sample_client ()) ((client_init sample_client ())\<lparr>cs_starting := 0, cs_retryTimers := 1\<rparr>)"
    by (rule client_step.start [rotated]) (simp add: client_init_def)
  then show ?thesis by (rule client_reachable.step [OF client_reachable.init])
qed

theorem client_single_activity_witness:
  "\<exists>s. client_reachable (client_init sample_client ()) s \<and> cs_retryTimers s = 1 \<and> activities s = 1"
  using client_single_activity [OF sample_client_reachable] sample_client_reachable
  by (auto simp: client_init_def)



section \<open>What the receive loop leaves in the store\<close>

type_synonym import_world = "ImportedServiceStore \<times> PushRequest list"

definition imported_service_handler :: "unmarshaller \<Rightarrow> import_world response_handler" where
  "imported_service_handler unmarshal = (\<lambda>(store, sent) source resources.
     (case Handle unmarshal store source resources of (store', pushes, err) \<Rightarrow> ((store', sent @ pushes), err)))"

definition decoded :: "unmarshaller \<Rightarrow> string \<Rightarrow> string \<times> Any list \<Rightarrow> (string \<times> FederatedService list) option" where
  "decoded unmarshal name = (\<lambda>(typeUrl, resources).
     if typeUrl = ExportedServiceTypeUrl then
       (case unmarshal_all unmarshal resources of Val svcs \<Rightarrow> Some (name, svcs) | _ \<Rightarrow> None)
     else None)"

lemma handleRecv_store:
  assumes "acfg_Handlers (adsc_cfg a) = [(ExportedServiceTypeUrl, imported_service_handler unmarshal)]"
  shows "\<exists>pushes. handleRecv a (map (\<lambda>m. (False, Inr m)) msgs) (store, sent) =
    ((fold (\<lambda>(source, vs) st. Update st source vs) (List.map_filter (decoded unmarshal (acfg_RemoteName (adsc_cfg a))) msgs) store,
      sent @ pushes), LoopRunning)
    \<and> length pushes = 3 * length (List.map_filter (decoded unmarshal (acfg_RemoteName (adsc_cfg a))) msgs)"
proof (induction msgs arbitrary: store sent)
  case Nil
  show ?case by (simp add: map_filter_def)
next
  case (Cons m msgs)
  obtain url rs where m: "m = (url, rs)" by (cases m)
  let ?name = "acfg_RemoteName (adsc_cfg a)"
  show ?case
  proof (cases "decoded unmarshal ?name m")
    case None
    then have "handle_message a url rs (store, sent) = (store, sent)"
      using assms by (auto simp: m decoded_def handle_message_def imported_service_handler_def Handle_def
          split: outcome.splits if_splits)
    with Cons.IH [of store sent] None show ?thesis by (simp add: m map_filter_def)
  next
    case (Some u)
    then obtain svcs where "url = ExportedServiceTypeUrl" "unmarshal_all unmarshal rs = Val svcs" "u = (?name, svcs)"
      by (auto simp: m decoded_def split: outcome.splits if_splits)
    moreover from this obtain ps where "handle_message a url rs (store, sent) = (Update store ?name svcs, sent @ ps)" "length ps = 3"
      using assms by (auto simp: handle_message_def imported_service_handler_def Handle_def)
    ultimately show ?thesis
      using Cons.IH [of "Update store ?name svcs" "sent @ ps"] Some by (auto simp: m map_filter_def)
  qed
qed

text \<open>
  The messages received from a peer leave in the store the last list of exported services that could
  be decoded, and nothing of the earlier ones; messages of other types and messages that cannot be
  decoded change nothing; the services of other remotes are kept.
\<close>

lemma handleRecv_keeps_last_decoded:
  assumes "acfg_Handlers (adsc_cfg a) = [(ExportedServiceTypeUrl, imported_service_handler unmarshal)]"
  shows "\<exists>store' sent'. handleRecv a (map (\<lambda>m. (False, Inr m)) msgs) (store, sent) = ((store', sent'), LoopRunning)
    \<and> (\<forall>r. From store' r = (if remote_Name r = acfg_RemoteName (adsc_cfg a)
           \<and> List.map_filter (decoded unmarshal (acfg_RemoteName (adsc_cfg a))) msgs \<noteq> []
         then snd (last (List.map_filter (decoded unmarshal (acfg_RemoteName (adsc_cfg a))) msgs)) else From store r))"
proof -
  let ?name = "acfg_RemoteName (adsc_cfg a)"
  let ?us = "List.map_filter (decoded unmarshal ?name) msgs"
  have names: "fst u = ?name" if "u \<in> set ?us" for u
    using that by (auto simp: map_filter_def decoded_def split: outcome.splits if_splits)
  have "map_of (rev us) (remote_Name r) = (if remote_Name r = ?name \<and> us \<noteq> [] then Some (snd (last us)) else None)"
    if "\<forall>u \<in> set us. fst u = ?name" for us :: "(string \<times> FederatedService list) list" and r
    using that by (cases us rule: rev_cases) (auto simp: map_of_eq_None_iff split: if_splits)
  then have lookup: "map_of (rev ?us) (remote_Name r) = (if remote_Name r = ?name \<and> ?us \<noteq> [] then Some (snd (last ?us)) else None)" for r
    using names by blast
  have final: "From (fold (\<lambda>(source, vs) st. Update st source vs) ?us store) r =
      (if remote_Name r = ?name \<and> ?us \<noteq> [] then snd (last ?us) else From store r)" for r
    unfolding imported.get_after_updates lookup by simp
  obtain pushes where "handleRecv a (map (\<lambda>m. (False, Inr m)) msgs) (store, sent) =
    ((fold (\<lambda>(source, vs) st. Update st source vs) ?us store, sent @ pushes), LoopRunning)"
    using handleRecv_store [OF assms, of msgs store sent] by blast
  with final show ?thesis by blast
qed

definition import_client :: "unmarshaller \<Rightarrow> import_world ADSC" where
  "import_client unmarshal = \<lparr>adsc_stream = Some 0, adsc_conn = Some 0,
     adsc_cfg = \<lparr>acfg_RemoteName = ''west'', acfg_DiscoveryAddr = ''addr'', acfg_Authority = ''auth'',
       acfg_Handlers = [(ExportedServiceTypeUrl, imported_service_handler unmarshal)], acfg_ReconnectDelay = 5\<rparr>\<rparr>"

definition one_unmarshal :: unmarshaller where
  "one_unmarshal bs = (if bs = [] then (\<lparr>fs_Hostname = [], fs_Ports = [], fs_Labels = Map.empty\<rparr>, Some (Other ''truncated''))
     else (\<lparr>fs_Hostname = ''a.ns1.svc.cluster.local'', fs_Ports = [], fs_Labels = Map.empty\<rparr>, None))"

end
