(* ===== verification/Main_Wiring.thy ===== *)
theory Main_Wiring
  imports Kube_Reconcilers Informer Adsc
begin

text \<open>
  The wiring of the controller, \<open>cmd/federation-controller/main.go\<close>, in its default (legacy) mode: which
  reconcilers run, what happens when one fails at start, how the discovery client of a remote is
  set up, and the loop that watches the addresses of the remotes. The state the components share is
  the record \<open>world\<close>: the cache of local Services, the store of imported services and the cluster. The
  factories hold pointers to the cache and to the store, so a reconciler reads them when it runs.
  A fatal log line ends the process; it is the result \<open>Fatal\<close>.
\<close>

section \<open>startReconciler\<close>

record 's world =
  w_lister :: ServiceLister
  w_store :: ImportedServiceStore
  w_cluster :: 's

definition factory_of :: "Federation \<Rightarrow> string \<Rightarrow> 's world \<Rightarrow> ConfigFactory" where
  "factory_of cfg ns w = NewConfigFactory cfg (w_lister w) (w_store w) ns"

definition route_factory_of :: "Federation \<Rightarrow> 's world \<Rightarrow> RouteFactory" where
  "route_factory_of cfg w = NewRouteFactory cfg (w_lister w)"

text \<open>A reconciler whose factory is built over the live cache and store.\<close>

definition on_world :: "('s world \<Rightarrow> 's Reconciler) \<Rightarrow> 's world \<Rightarrow> 's world \<times> unit outcome" where
  "on_world r w = (case rec_Reconcile (r w) (w_cluster w) of (c, res) \<Rightarrow> (w\<lparr>w_cluster := c\<rparr>, res))"

definition live :: "string \<Rightarrow> ('s world \<Rightarrow> 's Reconciler) \<Rightarrow> 's world Reconciler" where
  "live url r = \<lparr>rec_GetTypeUrl = url, rec_Reconcile = on_world r\<rparr>"

definition reconcilers_for :: "'s cluster_api \<Rightarrow> Federation \<Rightarrow> string \<Rightarrow> 's world Reconciler list" where
  "reconcilers_for api cfg ns =
     [live GatewayTypeUrl (\<lambda>w. NewGatewayResourceReconciler api (factory_of cfg ns w)),
      live ServiceEntryTypeUrl (\<lambda>w. NewServiceEntryReconciler api (factory_of cfg ns w)),
      live WorkloadEntryTypeUrl (\<lambda>w. NewWorkloadEntryReconciler api (factory_of cfg ns w)),
      live PeerAuthenticationTypeUrl (\<lambda>w. NewPeerAuthResourceReconciler api ns)]
     @ (if AnyRemotePeerWithOpenshiftRouterIngress (fed_MeshPeers cfg)
        then [live DestinationRuleTypeUrl (\<lambda>w. NewDestinationRuleReconciler api (factory_of cfg ns w))] else [])
     @ (if local_IngressType (mp_Local (fed_MeshPeers cfg)) = OpenShiftRouter
        then [live EnvoyFilterTypeUrl (\<lambda>w. NewEnvoyFilterReconciler api (factory_of cfg ns w)),
              live RouteTypeUrl (\<lambda>w. NewRouteReconciler api (route_factory_of cfg w))] else [])"

record startup_errors =
  su_InClusterConfig :: "go_error option"
  su_IstioClient :: "go_error option"
  su_RouteClient :: "go_error option"

datatype 'r startup = Fatal string go_error | Crashed go_panic | Started 'r

definition startReconciler :: "startup_errors \<Rightarrow> process_env
    \<Rightarrow> ((string \<times> 's world Reconciler) list \<Rightarrow> (string \<times> 's world Reconciler) list)
    \<Rightarrow> 's cluster_api \<Rightarrow> Federation \<Rightarrow> 's world \<Rightarrow> 's world \<times> ('s world ReconcilerManager) startup" where
  "startReconciler errs penv ord api cfg w =
     (case su_InClusterConfig errs of Some e \<Rightarrow> (w, Fatal ''failed to create in-cluster config'' e) | None \<Rightarrow>
      case su_IstioClient errs of Some e \<Rightarrow> (w, Fatal ''failed to create Istio client'' e) | None \<Rightarrow>
      let (ns, cfg') = Namespace penv cfg in
      case (if local_IngressType (mp_Local (fed_MeshPeers cfg')) = OpenShiftRouter then su_RouteClient errs else None) of
        Some e \<Rightarrow> (w, Fatal ''failed to create Route client'' e)
      | None \<Rightarrow>
          let rm = NewReconcilerManager (reconcilers_for api cfg' ns) in
          (case ReconcileAll ord rm w of
             (w', Val None) \<Rightarrow> (w', Started rm)
           | (w', Val (Some e)) \<Rightarrow> (w', Fatal ''initial Istio resource reconciliation failed'' e)
           | (w', Fail e) \<Rightarrow> (w', Fatal ''initial Istio resource reconciliation failed'' e)
           | (w', Panic p) \<Rightarrow> (w', Crashed p)))"

section \<open>startFDSClient\<close>

definition discovery_addr :: "Remote \<Rightarrow> string outcome" where
  "discovery_addr remote =
     obind (index (remote_Addresses remote) 0) (\<lambda>addr.
       Val (if IsIP addr then ServiceFQDN remote @ '':'' @ fmt_uint32 (ServicePort remote)
            else addr @ '':'' @ fmt_uint32 (ServicePort remote)))"

text \<open>The client, ready to run, or the reason why the process ends. The reconnect delay is five seconds.\<close>

definition reconnectDelay :: int where
  "reconnectDelay = 5 * 1000000000"

definition startFDSClient :: "client_env \<Rightarrow> unmarshaller \<Rightarrow> Remote \<Rightarrow> (import_world ADSC) startup" where
  "startFDSClient env unmarshal remote =
     (case discovery_addr remote of
        Panic p \<Rightarrow> Crashed p
      | Fail e \<Rightarrow> Fatal [] e
      | Val discoveryAddr \<Rightarrow>
          (case New env (Some \<lparr>acfg_RemoteName = remote_Name remote, acfg_DiscoveryAddr = discoveryAddr,
                               acfg_Authority = ServiceFQDN remote,
                               acfg_Handlers = [(ExportedServiceTypeUrl, imported_service_handler unmarshal)],
                               acfg_ReconnectDelay = reconnectDelay\<rparr>) of
             Val a \<Rightarrow> Started a
           | Fail e \<Rightarrow> Fatal ''failed to create FDS client'' e
           | Panic p \<Rightarrow> Crashed p))"

fun start_clients :: "client_env \<Rightarrow> unmarshaller \<Rightarrow> Remote list \<Rightarrow> (import_world ADSC list) startup" where
  "start_clients env unmarshal [] = Started []"
| "start_clients env unmarshal (remote # remotes) =
     (case startFDSClient env unmarshal remote of
        Started a \<Rightarrow> (case start_clients env unmarshal remotes of
                        Started as \<Rightarrow> Started (a # as) | Fatal msg e \<Rightarrow> Fatal msg e | Crashed p \<Rightarrow> Crashed p)
      | Fatal msg e \<Rightarrow> Fatal msg e
      | Crashed p \<Rightarrow> Crashed p)"

section \<open>resolveRemoteIP\<close>

definition resolve_first_addresses :: "resolver \<Rightarrow> Remote list \<Rightarrow> string list outcome" where
  "resolve_first_addresses lookupIP remotes =
     collect (\<lambda>remote. obind (index (remote_Addresses remote) 0) (\<lambda>addr. Val (Resolve lookupIP [addr]))) remotes"

text \<open>One tick: the new \<open>prevIPs\<close> and the push requests it sends.\<close>

definition resolveIPs :: "resolver \<Rightarrow> Remote list \<Rightarrow> string list \<Rightarrow> (string list \<times> PushRequest list) outcome" where
  "resolveIPs lookupIP remotes prevIPs =
     obind (resolve_first_addresses lookupIP remotes) (\<lambda>ips.
       let currIPs = sort ips in
       if prevIPs \<noteq> currIPs then Val (currIPs, [push_of WorkloadEntryTypeUrl]) else Val (prevIPs, []))"

text \<open>The loop on the answers of the resolver at each tick, until the context is done.\<close>

fun resolve_loop :: "Remote list \<Rightarrow> resolver list \<Rightarrow> string list \<Rightarrow> PushRequest list outcome" where
  "resolve_loop remotes [] prevIPs = Val []"
| "resolve_loop remotes (lookupIP # ticks) prevIPs =
     obind (resolveIPs lookupIP remotes prevIPs) (\<lambda>(ips, pushes).
       obind (resolve_loop remotes ticks ips) (\<lambda>rest. Val (pushes @ rest)))"

definition resolveRemoteIP :: "Remote list \<Rightarrow> resolver \<Rightarrow> resolver list \<Rightarrow> PushRequest list outcome" where
  "resolveRemoteIP remotes lookupIP ticks =
     obind (resolve_first_addresses lookupIP remotes) (\<lambda>prevIPs. resolve_loop remotes ticks prevIPs)"

section \<open>Lemmas\<close>

lemma reconciler_types:
  "map rec_GetTypeUrl (reconcilers_for api cfg ns) =
     [GatewayTypeUrl, ServiceEntryTypeUrl, WorkloadEntryTypeUrl, PeerAuthenticationTypeUrl]
     @ (if AnyRemotePeerWithOpenshiftRouterIngress (fed_MeshPeers cfg) then [DestinationRuleTypeUrl] else [])
     @ (if local_IngressType (mp_Local (fed_MeshPeers cfg)) = OpenShiftRouter then [EnvoyFilterTypeUrl, RouteTypeUrl] else [])"
  by (simp add: reconcilers_for_def live_def)

lemma reconcilers_for_distinct: "distinct (map rec_GetTypeUrl (reconcilers_for api cfg ns))"
  unfolding reconciler_types by (simp add: type_url_defs)

lemma manager_lookup:
  "map_of (rm_reconcilers (NewReconcilerManager (reconcilers_for api cfg ns))) url =
   map_of (map (\<lambda>r. (rec_GetTypeUrl r, r)) (reconcilers_for api cfg ns)) url"
  by (simp add: NewReconcilerManager_def index_by_distinct [OF reconcilers_for_distinct])

lemma manager_entries:
  "map_of (rm_reconcilers (NewReconcilerManager (reconcilers_for api cfg ns))) ServiceEntryTypeUrl =
     Some (live ServiceEntryTypeUrl (\<lambda>w. NewServiceEntryReconciler api (factory_of cfg ns w)))"
  "map_of (rm_reconcilers (NewReconcilerManager (reconcilers_for api cfg ns))) WorkloadEntryTypeUrl =
     Some (live WorkloadEntryTypeUrl (\<lambda>w. NewWorkloadEntryReconciler api (factory_of cfg ns w)))"
  "map_of (rm_reconcilers (NewReconcilerManager (reconcilers_for api cfg ns))) DestinationRuleTypeUrl =
     (if AnyRemotePeerWithOpenshiftRouterIngress (fed_MeshPeers cfg)
      then Some (live DestinationRuleTypeUrl (\<lambda>w. NewDestinationRuleReconciler api (factory_of cfg ns w))) else None)"
  unfolding manager_lookup by (simp_all add: reconcilers_for_def live_def type_url_defs)

lemma manager_step_live:
  assumes "map_of (rm_reconcilers rm) url = Some (live url r)" and "rec_Reconcile (r w) (w_cluster w) = (c, Val ())"
  shows "manager_step rm (PushReceived (push_of url)) w = (w\<lparr>w_cluster := c\<rparr>, Val True)"
  using assms by (simp add: manager_step_def live_def on_world_def)

definition remote_ips :: "resolver \<Rightarrow> Remote list \<Rightarrow> string list" where
  "remote_ips lookupIP remotes = concat (map (\<lambda>r. Resolve lookupIP [hd (remote_Addresses r)]) remotes)"

lemma resolve_first_Val:
  assumes "\<forall>r \<in> set remotes. remote_Addresses r \<noteq> []"
  shows "resolve_first_addresses lookupIP remotes = Val (remote_ips lookupIP remotes)"
  unfolding resolve_first_addresses_def remote_ips_def
proof (rule collect_Val)
  fix r assume "r \<in> set remotes"
  with assms obtain a as where "remote_Addresses r = a # as" by (cases "remote_Addresses r") auto
  then show "obind (index (remote_Addresses r) 0) (\<lambda>addr. Val (Resolve lookupIP [addr])) = Val (Resolve lookupIP [hd (remote_Addresses r)])"
    by simp
qed

lemma resolveIPs_tick:
  assumes "\<forall>r \<in> set remotes. remote_Addresses r \<noteq> []"
  shows "resolveIPs lookupIP remotes prev = Val (if prev = sort (remote_ips lookupIP remotes) then (prev, [])
      else (sort (remote_ips lookupIP remotes), [push_of WorkloadEntryTypeUrl]))"
  by (simp add: resolveIPs_def resolve_first_Val [OF assms] Let_def)

lemma sort_eq_iff: "sort xs = sort ys \<longleftrightarrow> mset xs = mset ys"
  by (metis mset_sort sorted_list_of_multiset_mset)

lemma memory_api_keeps:
  "keeps_view (api_WorkloadEntries memory_api) (\<lambda>c. memory_view (cl_ServiceEntries c))"
  "keeps_view (api_DestinationRules memory_api) (\<lambda>c. memory_view (cl_ServiceEntries c))"
  "keeps_view (api_ServiceEntries memory_api) (\<lambda>c. memory_view (cl_WorkloadEntries c))"
  "keeps_view (api_DestinationRules memory_api) (\<lambda>c. memory_view (cl_WorkloadEntries c))"
  unfolding memory_api_def cluster_api.simps by (rule part_env_keeps, simp)+

definition sample_world :: "cluster world" where
  "sample_world = \<lparr>w_lister = plain_lister, w_store = NewImportedServiceStore, w_cluster = stale_cluster\<rparr>"

definition two_hosts :: Remote where
  "two_hosts = west\<lparr>remote_Addresses := [''hosts.example'']\<rparr>"

definition unsorted_dns :: resolver where
  "unsorted_dns = (\<lambda>_. ([''2.2.2.2'', ''1.1.1.1''], None))"

lemma two_hosts_ips: "remote_ips unsorted_dns [two_hosts] = [''2.2.2.2'', ''1.1.1.1'']"
  by (simp add: remote_ips_def two_hosts_def unsorted_dns_def IsIP_def parseIPv4_def is_digit_def)

section \<open>Properties\<close>

text \<open>One message, from the handler to the cluster.\<close>

lemma import_synced:
  assumes se: "resource_sync_up (api_ServiceEntries api) viewS conformsS ''ServiceEntry'' networking_v1alpha3"
    and we: "resource_sync_up (api_WorkloadEntries api) viewW conformsW ''WorkloadEntry'' networking_v1alpha3"
    and dr: "resource_sync_up (api_DestinationRules api) viewD conformsD ''DestinationRule'' networking_v1alpha3"
    and keepS: "keeps_view (api_WorkloadEntries api) viewS" "keeps_view (api_DestinationRules api) viewS"
    and keepW: "keeps_view (api_ServiceEntries api) viewW" "keeps_view (api_DestinationRules api) viewW"
    and ord: "is_order (api_entryOrder api)" and cache: "serves_cache matches svcs (w_lister w)"
    and handle: "Handle unmarshal (w_store w) source resources = (store', pushes, None)"
    and dotted: "all_dotted (factory_of cfg ns (w\<lparr>w_store := store'\<rparr>))"
  shows "\<exists>w' ses wes. Start (NewReconcilerManager (reconcilers_for api cfg ns)) (map PushReceived pushes) (w\<lparr>w_store := store'\<rparr>) = (w', Val True)
    \<and> ServiceEntries (api_entryOrder api) (factory_of cfg ns w') = Val ses
    \<and> WorkloadEntries (api_lookupIP api) (factory_of cfg ns w') = Val wes
    \<and> synced conformsS peer_labels ses (viewS (w_cluster w)) (viewS (w_cluster w'))
    \<and> synced conformsW peer_labels wes (viewW (w_cluster w)) (viewW (w_cluster w'))"
proof -
  let ?w = "w\<lparr>w_store := store'\<rparr>" and ?rm = "NewReconcilerManager (reconcilers_for api cfg ns)"
  let ?cf = "factory_of cfg ns ?w"
  have cf: "factory_of cfg ns (?w\<lparr>w_cluster := c\<rparr>) = ?cf" for c by (simp add: factory_of_def)
  have cache': "serves_cache matches svcs (cf_serviceLister ?cf)" using cache by (simp add: factory_of_def)
  have pushes: "pushes = [push_of ServiceEntryTypeUrl, push_of WorkloadEntryTypeUrl, push_of DestinationRuleTypeUrl]"
    using handle by (auto simp: Handle_def split: outcome.splits)
  obtain ses where ses: "ServiceEntries (api_entryOrder api) ?cf = Val ses"
    using service_entries_total [OF cache' dotted ord] by blast
  obtain wes where wes: "WorkloadEntries (api_lookupIP api) ?cf = Val wes"
    using WorkloadEntries_total [OF cache' dotted] by blast
  obtain drs where drs: "DestinationRules ?cf = Val drs"
    using DestinationRules_total dotted unfolding all_dotted_def by blast
  obtain c1 where c1: "ServiceEntry_Reconcile api ?cf (w_cluster w) = (c1, Val ())"
    "synced conformsS peer_labels ses (viewS (w_cluster w)) (viewS c1)"
    using ServiceEntry_run [OF se ord ses] by blast
  obtain c2 where c2: "WorkloadEntry_Reconcile api ?cf c1 = (c2, Val ())"
    "synced conformsW peer_labels wes (viewW c1) (viewW c2)"
    using WorkloadEntry_run [OF we wes] by blast
  obtain c3 where c3: "DestinationRule_Reconcile api ?cf c2 = (c3, Val ())"
    using DestinationRule_run [OF dr drs] by blast
  have step1: "manager_step ?rm (PushReceived (push_of ServiceEntryTypeUrl)) ?w = (?w\<lparr>w_cluster := c1\<rparr>, Val True)"
    by (rule manager_step_live [OF manager_entries(1)]) (simp add: NewServiceEntryReconciler_def c1(1))
  have step2: "manager_step ?rm (PushReceived (push_of WorkloadEntryTypeUrl)) (?w\<lparr>w_cluster := c1\<rparr>) = (?w\<lparr>w_cluster := c2\<rparr>, Val True)"
    using manager_step_live [OF manager_entries(2), of api cfg ns "?w\<lparr>w_cluster := c1\<rparr>" c2]
    by (simp add: NewWorkloadEntryReconciler_def cf c2(1))
  obtain c where step3: "manager_step ?rm (PushReceived (push_of DestinationRuleTypeUrl)) (?w\<lparr>w_cluster := c2\<rparr>) = (?w\<lparr>w_cluster := c\<rparr>, Val True)"
    and c: "c = c2 \<or> c = c3"
  proof (cases "AnyRemotePeerWithOpenshiftRouterIngress (fed_MeshPeers cfg)")
    case True
    have "map_of (rm_reconcilers ?rm) DestinationRuleTypeUrl =
        Some (live DestinationRuleTypeUrl (\<lambda>w. NewDestinationRuleReconciler api (factory_of cfg ns w)))"
      using True by (simp add: manager_entries)
    from manager_step_live [OF this, of "?w\<lparr>w_cluster := c2\<rparr>" c3] that [of c3] show ?thesis
      by (simp add: NewDestinationRuleReconciler_def cf c3)
  next
    case False
    then have "map_of (rm_reconcilers ?rm) DestinationRuleTypeUrl = None" by (simp add: manager_entries)
    with that [of c2] show ?thesis by (simp add: manager_step_def)
  qed
  have "Start ?rm (map PushReceived pushes) ?w = (?w\<lparr>w_cluster := c\<rparr>, Val True)"
    by (simp add: pushes step1 step2 step3)
  moreover have "viewS c = viewS c1" "viewW c = viewW c2" "viewW c1 = viewW (w_cluster w)"
    using c Reconcile_keeps(2) [OF keepS(1) c2(1)] Reconcile_keeps(3) [OF keepS(2) c3] Reconcile_keeps(3) [OF keepW(2) c3]
      Reconcile_keeps(1) [OF keepW(1) c1(1)] by auto
  ultimately show ?thesis
    using ses wes c1(2) c2(2) by (intro exI [of _ "?w\<lparr>w_cluster := c\<rparr>"] exI [of _ ses] exI [of _ wes]) (simp add: cf)
qed



text \<open>
  The address watcher. From the second tick on it asks for a push of the workload entries exactly
  when the addresses that the remotes resolve to differ, as a multiset, from those of the tick before;
  the order in which the resolver lists them does not matter.
\<close>

lemma resolveIPs_pushes_iff_changed:
  assumes "\<forall>r \<in> set remotes. remote_Addresses r \<noteq> []"
  shows "\<exists>ips pushes ips' pushes'. resolveIPs dns remotes prevIPs = Val (ips, pushes) \<and> resolveIPs dns' remotes ips = Val (ips', pushes')
    \<and> pushes' = (if mset (remote_ips dns' remotes) = mset (remote_ips dns remotes) then [] else [push_of WorkloadEntryTypeUrl])"
proof -
  let ?ips = "sort (remote_ips dns remotes)"
  have "\<exists>pushes. resolveIPs dns remotes prevIPs = Val (?ips, pushes)"
    by (simp add: resolveIPs_tick [OF assms])
  moreover have "\<exists>ips'. resolveIPs dns' remotes ?ips =
      Val (ips', if mset (remote_ips dns' remotes) = mset (remote_ips dns remotes) then [] else [push_of WorkloadEntryTypeUrl])"
    using sort_eq_iff [of "remote_ips dns remotes" "remote_ips dns' remotes"]
    by (cases "mset (remote_ips dns' remotes) = mset (remote_ips dns remotes)") (simp_all add: resolveIPs_tick [OF assms])
  ultimately show ?thesis by blast
qed

text \<open>
  The first tick compares with a list that was not sorted: if the resolver answers the same
  addresses again, the watcher still asks for a push exactly when they were not listed in order.
\<close>

lemma resolveRemoteIP_spurious_push:
  assumes "\<forall>r \<in> set remotes. remote_Addresses r \<noteq> []"
  shows "resolveRemoteIP remotes dns [dns] = Val (if sorted (remote_ips dns remotes) then [] else [push_of WorkloadEntryTypeUrl])"
proof -
  let ?ips = "remote_ips dns remotes"
  have "sort ?ips = ?ips \<longleftrightarrow> sorted ?ips"
    using sorted_sort_id [of ?ips] sorted_sort [of ?ips] by metis
  then show ?thesis
    by (cases "sorted ?ips") (simp_all add: resolveRemoteIP_def resolve_first_Val [OF assms] resolveIPs_tick [OF assms])
qed

text \<open>
  A remote without an address is skipped by \<open>ServiceEntries\<close>, but it stops the controller at start:
  the set-up of its discovery client reads the first address of an empty list and panics.
\<close>

lemma empty_addresses_crash_start:
  assumes "remote_Addresses r = []" and "\<forall>x \<in> set before. \<exists>a. startFDSClient env unmarshal x = Started a"
  shows "start_clients env unmarshal (before @ r # after) = Crashed IndexOutOfRange
    \<and> service_entries_for_remote cf r s = Val s"
proof
  have "startFDSClient env unmarshal r = Crashed IndexOutOfRange"
    using assms(1) by (simp add: startFDSClient_def discovery_addr_def)
  with assms(2) show "start_clients env unmarshal (before @ r # after) = Crashed IndexOutOfRange"
    by (induction before) auto
  show "service_entries_for_remote cf r s = Val s"
    using assms(1) by (simp add: service_entries_for_remote_def split: prod.split)
qed

section \<open>The start of the controller\<close>

definition cluster_up :: "'s cluster_api \<Rightarrow> bool" where
  "cluster_up api \<longleftrightarrow>
     (\<exists>v c. resource_sync_up (api_DestinationRules api) v c ''DestinationRule'' networking_v1alpha3)
   \<and> (\<exists>v c. resource_sync_up (api_EnvoyFilters api) v c ''EnvoyFilter'' networking_v1alpha3)
   \<and> (\<exists>v c. resource_sync_up (api_Gateways api) v c ''Gateway'' networking_v1alpha3)
   \<and> (\<exists>v c. resource_sync_up (api_PeerAuthentications api) v c ''PeerAuthentication'' ''security.istio.io/v1beta1'')
   \<and> (\<exists>v c. resource_sync_up (api_Routes api) v c ''Route'' ''route.openshift.io/v1'')
   \<and> (\<exists>v c. resource_sync_up (api_ServiceEntries api) v c ''ServiceEntry'' networking_v1alpha3)
   \<and> (\<exists>v c. resource_sync_up (api_WorkloadEntries api) v c ''WorkloadEntry'' networking_v1alpha3)
   \<and> is_order (api_entryOrder api)"

lemma cluster_up_memory: "cluster_up memory_api"
  unfolding cluster_up_def using memory_api_up by auto

lemma sync_up_runs:
  "resource_sync_up env v c kind api_version \<Longrightarrow> \<exists>s'. sync_resources env kind api_version sel texts objs s = (s', Val ())"
  by (rule resource_sync_up.sync_terminates)

lemma apply_one_up:
  assumes "resource_sync_up env v c kind api_version"
  shows "\<exists>s'. apply_one env kind api_version msg obj s = (s', Val ())"
  using kube_api_up.apply_up [OF resource_sync_up.axioms(2) [OF assms], of "apply_configuration_of kind api_version obj" s]
  by (auto simp: apply_one_def)

lemma EnvoyFilters_total: "lg_Port (local_ingress (cf_cfg cf)) \<noteq> None \<Longrightarrow> \<exists>efs. EnvoyFilters u cf = Val efs"
proof -
  assume port: "lg_Port (local_ingress (cf_cfg cf)) \<noteq> None"
  have one: "\<exists>ef. createEnvoyFilter u cf n ns p = Val ef" for n ns p
    using createEnvoyFilter_Val_iff port by blast
  have svcs: "\<exists>efs. collect (\<lambda>svc. collect (\<lambda>port. obind (createEnvoyFilter u cf (svc_Name svc) (svc_Namespace svc) (core_Port port))
          (\<lambda>ef. Val [ef])) (svc_Ports svc)) ss = Val efs" for ss
    by (intro collect_total) (metis one obind.simps(1))
  have "\<exists>efs. collect (\<lambda>sel. case lister_List (cf_serviceLister cf) (ls_MatchLabels sel) of (ss, err) \<Rightarrow>
          collect (\<lambda>svc. collect (\<lambda>port. obind (createEnvoyFilter u cf (svc_Name svc) (svc_Namespace svc) (core_Port port))
            (\<lambda>ef. Val [ef])) (svc_Ports svc)) ss) sels = Val efs" for sels :: "LabelSelectors list"
  proof (rule collect_total)
    fix sel :: LabelSelectors
    obtain ss err where "lister_List (cf_serviceLister cf) (ls_MatchLabels sel) = (ss, err)"
      by (cases "lister_List (cf_serviceLister cf) (ls_MatchLabels sel)")
    with svcs [of ss] show "\<exists>zs. (case lister_List (cf_serviceLister cf) (ls_MatchLabels sel) of (ss, err) \<Rightarrow>
          collect (\<lambda>svc. collect (\<lambda>port. obind (createEnvoyFilter u cf (svc_Name svc) (svc_Namespace svc) (core_Port port))
            (\<lambda>ef. Val [ef])) (svc_Ports svc)) ss) = Val zs" by simp
  qed
  then obtain efs where "collect (\<lambda>sel. case lister_List (cf_serviceLister cf) (ls_MatchLabels sel) of (ss, err) \<Rightarrow>
          collect (\<lambda>svc. collect (\<lambda>port. obind (createEnvoyFilter u cf (svc_Name svc) (svc_Namespace svc) (core_Port port))
            (\<lambda>ef. Val [ef])) (svc_Ports svc)) ss) (export_selectors (cf_cfg cf)) = Val efs" by blast
  with one [of "''federation-discovery-service-'' @ local_name (cf_cfg cf)" "''istio-system''" 15080] show ?thesis
    by (auto simp: EnvoyFilters_def)
qed

lemma Routes_total:
  assumes "serves_cache matches svcs (rf_serviceLister cf)" and "lg_Port (local_ingress (rf_cfg cf)) \<noteq> None"
  shows "\<exists>rts. Routes cf = Val rts"
proof -
  have one: "\<exists>rt. createRoute cf n ns p = Val rt" for n ns p
    using assms(2) by (auto simp: createRoute_def)
  have svcs: "\<exists>rts. collect (\<lambda>svc. collect (\<lambda>port. obind (createRoute cf (svc_Name svc) (svc_Namespace svc) (core_Port port))
          (\<lambda>rt. Val [rt])) (svc_Ports svc)) ss = Val rts" for ss
    by (intro collect_total) (metis one obind.simps(1))
  have "\<exists>rts. collect (\<lambda>sel. obind (of_result ''error listing services'' (lister_List (rf_serviceLister cf) (ls_MatchLabels sel)))
          (\<lambda>ss. collect (\<lambda>svc. collect (\<lambda>port. obind (createRoute cf (svc_Name svc) (svc_Namespace svc) (core_Port port))
            (\<lambda>rt. Val [rt])) (svc_Ports svc)) ss)) sels = Val rts" for sels :: "LabelSelectors list"
  proof (rule collect_total)
    fix sel :: LabelSelectors
    obtain ss where "lister_List (rf_serviceLister cf) (ls_MatchLabels sel) = (ss, None)"
      using serves_cache_List [OF assms(1)] by blast
    with svcs [of ss] show "\<exists>zs. obind (of_result ''error listing services'' (lister_List (rf_serviceLister cf) (ls_MatchLabels sel)))
          (\<lambda>ss. collect (\<lambda>svc. collect (\<lambda>port. obind (createRoute cf (svc_Name svc) (svc_Namespace svc) (core_Port port))
            (\<lambda>rt. Val [rt])) (svc_Ports svc)) ss) = Val zs" by simp
  qed
  then obtain rts where "collect (\<lambda>sel. obind (of_result ''error listing services'' (lister_List (rf_serviceLister cf) (ls_MatchLabels sel)))
          (\<lambda>ss. collect (\<lambda>svc. collect (\<lambda>port. obind (createRoute cf (svc_Name svc) (svc_Namespace svc) (core_Port port))
            (\<lambda>rt. Val [rt])) (svc_Ports svc)) ss)) (export_selectors (rf_cfg cf)) = Val rts" by blast
  with one [of "''federation-discovery-service-'' @ local_name (rf_cfg cf)" "''istio-system''" 15080] show ?thesis
    by (auto simp: Routes_def)
qed

text \<open>
  A reconciler succeeds, or there is no gateway port and it dereferences the missing pointer. The second
  always happens to the one of the gateway.
\<close>

lemma port_users:
  assumes "serves_cache matches svcs (w_lister w)"
  shows "(\<exists>gw. IngressGateway (factory_of cfg ns w) = Val gw)
      \<or> lg_Port (local_ingress cfg) = None \<and> IngressGateway (factory_of cfg ns w) = Panic NilDereference"
    and "(\<exists>efs. EnvoyFilters u (factory_of cfg ns w) = Val efs)
      \<or> lg_Port (local_ingress cfg) = None \<and> EnvoyFilters u (factory_of cfg ns w) = Panic NilDereference"
    and "(\<exists>rts. Routes (route_factory_of cfg w) = Val rts)
      \<or> lg_Port (local_ingress cfg) = None \<and> Routes (route_factory_of cfg w) = Panic NilDereference"
proof -
  have cf: "serves_cache matches svcs (cf_serviceLister (factory_of cfg ns w))" "cf_cfg (factory_of cfg ns w) = cfg"
    and rf: "serves_cache matches svcs (rf_serviceLister (route_factory_of cfg w))" "rf_cfg (route_factory_of cfg w) = cfg"
    using assms by (simp_all add: factory_of_def route_factory_of_def NewRouteFactory_def)
  show "(\<exists>gw. IngressGateway (factory_of cfg ns w) = Val gw)
      \<or> lg_Port (local_ingress cfg) = None \<and> IngressGateway (factory_of cfg ns w) = Panic NilDereference"
    using IngressGateway_eq [OF cf(1)] cf(2) by (cases "lg_Port (local_ingress cfg)") (auto simp: IngressGateway_def)
  show "(\<exists>efs. EnvoyFilters u (factory_of cfg ns w) = Val efs)
      \<or> lg_Port (local_ingress cfg) = None \<and> EnvoyFilters u (factory_of cfg ns w) = Panic NilDereference"
    using EnvoyFilters_total [of "factory_of cfg ns w" u] cf(2)
    by (cases "lg_Port (local_ingress cfg)") (auto simp: EnvoyFilters_def createEnvoyFilter_def)
  show "(\<exists>rts. Routes (route_factory_of cfg w) = Val rts)
      \<or> lg_Port (local_ingress cfg) = None \<and> Routes (route_factory_of cfg w) = Panic NilDereference"
    using Routes_total [OF rf(1)] rf(2) by (cases "lg_Port (local_ingress cfg)") (auto simp: Routes_def createRoute_def)
qed

definition runs_or_nil :: "Federation \<Rightarrow> 's \<Rightarrow> 's \<times> unit outcome \<Rightarrow> bool" where
  "runs_or_nil cfg s res \<longleftrightarrow> (\<exists>c. res = (c, Val ())) \<or> lg_Port (local_ingress cfg) = None \<and> res = (s, Panic NilDereference)"

lemma reconcilers_run:
  assumes up: "cluster_up api" and cache: "serves_cache matches svcs (w_lister w)" and dotted: "all_dotted (factory_of cfg ns w)"
    and r: "r \<in> set (reconcilers_for api cfg ns)"
  shows "(\<exists>c. rec_Reconcile r w = (w\<lparr>w_cluster := c\<rparr>, Val ()))
    \<or> lg_Port (local_ingress cfg) = None \<and> rec_Reconcile r w = (w, Panic NilDereference)"
proof -
  let ?cf = "factory_of cfg ns w" and ?rf = "route_factory_of cfg w"
  have cf: "serves_cache matches svcs (cf_serviceLister ?cf)" using cache by (simp add: factory_of_def)
  have order: "is_order (api_entryOrder api)" using up by (simp add: cluster_up_def)
  obtain ses wes drs where gen: "ServiceEntries (api_entryOrder api) ?cf = Val ses"
    "WorkloadEntries (api_lookupIP api) ?cf = Val wes" "DestinationRules ?cf = Val drs"
    using service_entries_total [OF cf dotted order] WorkloadEntries_total [OF cf dotted]
      DestinationRules_total [of ?cf] dotted [unfolded all_dotted_def] by metis
  note up = up [unfolded cluster_up_def]
  have runs: "runs_or_nil cfg s (ServiceEntry_Reconcile api ?cf s)"
    "runs_or_nil cfg s (WorkloadEntry_Reconcile api ?cf s)" "runs_or_nil cfg s (PeerAuth_Reconcile api ns s)"
    "runs_or_nil cfg s (DestinationRule_Reconcile api ?cf s)" for s
    using up by (auto simp: runs_or_nil_def gen ServiceEntry_Reconcile_def WorkloadEntry_Reconcile_def PeerAuth_Reconcile_def
        DestinationRule_Reconcile_def dest: apply_one_up sync_up_runs)
  have writes: "\<exists>c. apply_one (api_Gateways api) ''Gateway'' networking_v1alpha3 msg gw s = (c, Val ())"
    "\<exists>c. sync_resources (api_EnvoyFilters api) ''EnvoyFilter'' networking_v1alpha3 sel etexts efs s = (c, Val ())"
    "\<exists>c. sync_resources (api_Routes api) ''Route'' ''route.openshift.io/v1'' sel rtexts rts s = (c, Val ())"
    for msg gw s sel efs rts etexts rtexts
    using up by (auto dest: apply_one_up sync_up_runs)
  have gateway: "runs_or_nil cfg s (Gateway_Reconcile api ?cf s)" for s
    using port_users(1) [OF cache, of cfg ns] by (elim disjE exE conjE) (simp_all add: runs_or_nil_def Gateway_Reconcile_def writes(1))
  have filters: "runs_or_nil cfg s (EnvoyFilter_Reconcile api ?cf s)" for s
    using port_users(2) [OF cache, of "api_unmarshalStruct api" cfg ns]
    by (elim disjE exE conjE) (simp_all add: runs_or_nil_def EnvoyFilter_Reconcile_def writes(2))
  have routes: "runs_or_nil cfg s (Route_Reconcile api ?rf s)" for s
    using port_users(3) [OF cache, of cfg] by (elim disjE exE conjE) (simp_all add: runs_or_nil_def Route_Reconcile_def writes(3))
  have on: "\<exists>c out. runs_or_nil cfg (w_cluster w) (c, out) \<and> rec_Reconcile (live url f) w = (w\<lparr>w_cluster := c\<rparr>, out)"
    if "runs_or_nil cfg (w_cluster w) (rec_Reconcile (f w) (w_cluster w))" for url f
    using that by (cases "rec_Reconcile (f w) (w_cluster w)") (auto simp: live_def on_world_def)
  have "\<exists>c out. runs_or_nil cfg (w_cluster w) (c, out) \<and> rec_Reconcile r w = (w\<lparr>w_cluster := c\<rparr>, out)"
    using r unfolding reconcilers_for_def
    by (auto intro!: on simp: NewGatewayResourceReconciler_def NewServiceEntryReconciler_def NewWorkloadEntryReconciler_def
        NewPeerAuthResourceReconciler_def NewDestinationRuleReconciler_def NewEnvoyFilterReconciler_def NewRouteReconciler_def
        runs gateway filters routes split: if_splits)
  then show ?thesis by (auto simp: runs_or_nil_def)
qed

lemma gateway_without_port:
  assumes "lg_Port (local_ingress cfg) = None"
  shows "\<exists>r \<in> set (reconcilers_for api cfg ns). \<forall>w. rec_Reconcile r w = (w, Panic NilDereference)"
  using assms by (simp add: reconcilers_for_def live_def on_world_def NewGatewayResourceReconciler_def Gateway_Reconcile_def
      IngressGateway_def factory_of_def)

lemma reconcile_each_panics:
  assumes "\<And>r s. r \<in> set rs \<Longrightarrow> I s \<Longrightarrow> (\<exists>s'. rec_Reconcile r s = (s', Val ()) \<and> I s') \<or> (\<exists>s'. rec_Reconcile r s = (s', Panic p))"
    and "\<exists>r \<in> set rs. \<forall>s. \<exists>s'. rec_Reconcile r s = (s', Panic p)" and "I s"
  shows "\<exists>s'. reconcile_each rs s errs = (s', Panic p)"
  using assms
proof (induction rs arbitrary: s errs)
  case (Cons r rs)
  show ?case
  proof (cases "\<exists>s'. rec_Reconcile r s = (s', Panic p)")
    case False
    with Cons.prems obtain s' where s': "rec_Reconcile r s = (s', Val ())" "I s'" by fastforce
    have "\<exists>r \<in> set rs. \<forall>s. \<exists>s'. rec_Reconcile r s = (s', Panic p)" using Cons.prems(2) False by auto
    with Cons.IH [of s' "errs @ [None]"] Cons.prems(1) s' show ?thesis by simp
  qed auto
qed simp

lemma reconcile_each_succeeds:
  assumes "\<And>r s. r \<in> set rs \<Longrightarrow> I s \<Longrightarrow> \<exists>s'. rec_Reconcile r s = (s', Val ()) \<and> I s'" and "I s"
  shows "\<exists>s'. reconcile_each rs s errs = (s', Val (errs @ replicate (length rs) None)) \<and> I s'"
  using assms
proof (induction rs arbitrary: s errs)
  case Nil
  then show ?case by simp
next
  case (Cons r rs)
  from Cons.prems obtain s1 where s1: "rec_Reconcile r s = (s1, Val ())" "I s1" by fastforce
  from Cons.IH [of s1 "errs @ [None]"] Cons.prems(1) s1(2) have
    "\<exists>s'. reconcile_each rs s1 (errs @ [None]) = (s', Val ((errs @ [None]) @ replicate (length rs) None)) \<and> I s'" by simp
  with s1(1) show ?case by simp
qed

lemma errors_Join_None: "errors_Join (replicate n None) = None"
  by (induction n) (simp_all add: errors_Join_def map_filter_def)

text \<open>
  With a gateway port configured, an API server that is up, a Service cache that answers, clients that
  can be created and only dotted host names imported so far, the first reconciliation of all kinds
  succeeds in any order.
\<close>

lemma startReconciler_starts:
  assumes up: "cluster_up api" and cache: "serves_cache matches svcs (w_lister w)"
    and port: "lg_Port (local_ingress cfg) = Some port" and dotted: "\<forall>r \<in> set (remotes_of cfg). \<forall>svc \<in> set (From (w_store w) r). CHR ''.'' \<in> set (fs_Hostname svc)"
    and ok: "su_InClusterConfig errs = None" "su_IstioClient errs = None" "su_RouteClient errs = None"
    and ord: "is_order ord"
  shows "\<exists>w' ns cfg'. Namespace penv cfg = (ns, cfg') \<and>
    startReconciler errs penv ord api cfg w = (w', Started (NewReconcilerManager (reconcilers_for api cfg' ns)))"
proof -
  obtain ns cfg' where ns: "Namespace penv cfg = (ns, cfg')" by (cases "Namespace penv cfg")
  then have peers: "fed_MeshPeers cfg' = fed_MeshPeers cfg"
    using Namespace_preserves(1) [of penv cfg] by simp
  let ?rs = "reconcilers_for api cfg' ns"
  let ?I = "\<lambda>w'. w_lister w' = w_lister w \<and> w_store w' = w_store w"
  let ?perm = "map snd (ord (rm_reconcilers (NewReconcilerManager ?rs)))"
  have perm: "set ?perm \<subseteq> set ?rs"
    using is_order_set [OF ord] by (auto simp: NewReconcilerManager_def dest: index_by_keyed)
  have "\<exists>v'. rec_Reconcile r v = (v', Val ()) \<and> ?I v'" if "r \<in> set ?perm" "?I v" for r v
  proof -
    have "serves_cache matches svcs (w_lister v)" "all_dotted (factory_of cfg' ns v)"
      using that(2) cache dotted peers by (simp_all add: all_dotted_def factory_of_def)
    moreover have "lg_Port (local_ingress cfg') = Some port" using port peers by simp
    moreover have "r \<in> set ?rs" using perm that(1) by blast
    ultimately obtain c where "rec_Reconcile r v = (v\<lparr>w_cluster := c\<rparr>, Val ())"
      using reconcilers_run [OF up] by (metis option.distinct(1))
    with that(2) show ?thesis by simp
  qed
  note succeed = this
  have "\<exists>w'. reconcile_each ?perm w [] = (w', Val ([] @ replicate (length ?perm) None)) \<and> ?I w'"
  proof (rule reconcile_each_succeeds)
    show "?I w" by simp
  qed (rule succeed)
  then obtain w' where "reconcile_each ?perm w [] = (w', Val ([] @ replicate (length ?perm) None))" by blast
  then have "ReconcileAll ord (NewReconcilerManager ?rs) w = (w', Val None)"
    unfolding ReconcileAll_def by (simp add: errors_Join_None)
  then show ?thesis
    using ok by (simp add: startReconciler_def ns Let_def)
qed

text \<open>Without a gateway port the same start ends in a nil dereference, whatever the order of the reconcilers.\<close>

lemma startReconciler_without_port:
  assumes up: "cluster_up api" and cache: "serves_cache matches svcs (w_lister w)"
    and port: "lg_Port (local_ingress cfg) = None" and dotted: "\<forall>r \<in> set (remotes_of cfg). \<forall>svc \<in> set (From (w_store w) r). CHR ''.'' \<in> set (fs_Hostname svc)"
    and ok: "su_InClusterConfig errs = None" "su_IstioClient errs = None" "su_RouteClient errs = None"
    and ord: "is_order ord"
  shows "\<exists>w'. startReconciler errs penv ord api cfg w = (w', Crashed NilDereference)"
proof -
  obtain ns cfg' where ns: "Namespace penv cfg = (ns, cfg')" by (cases "Namespace penv cfg")
  then have peers: "fed_MeshPeers cfg' = fed_MeshPeers cfg"
    using Namespace_preserves(1) [of penv cfg] by simp
  let ?rs = "reconcilers_for api cfg' ns"
  let ?I = "\<lambda>w'. w_lister w' = w_lister w \<and> w_store w' = w_store w"
  let ?perm = "map snd (ord (rm_reconcilers (NewReconcilerManager ?rs)))"
  have perm: "set ?perm = set ?rs"
    using is_order_set [OF ord] index_by_distinct [OF reconcilers_for_distinct [of api cfg' ns]]
    by (simp add: NewReconcilerManager_def image_image)
  have run: "(\<exists>v'. rec_Reconcile r v = (v', Val ()) \<and> ?I v') \<or> (\<exists>v'. rec_Reconcile r v = (v', Panic NilDereference))"
    if "r \<in> set ?perm" "?I v" for r v
  proof -
    have "serves_cache matches svcs (w_lister v)" "all_dotted (factory_of cfg' ns v)"
      using that(2) cache dotted peers by (simp_all add: all_dotted_def factory_of_def)
    then have "(\<exists>c. rec_Reconcile r v = (v\<lparr>w_cluster := c\<rparr>, Val ())) \<or> rec_Reconcile r v = (v, Panic NilDereference)"
      using reconcilers_run [OF up, of matches svcs v cfg' ns r] that(1) perm by auto
    with that(2) show ?thesis by auto
  qed
  have "lg_Port (local_ingress cfg') = None" using port peers by simp
  then have nil: "\<exists>r \<in> set ?perm. \<forall>s. \<exists>s'. rec_Reconcile r s = (s', Panic NilDereference)"
    using gateway_without_port [of cfg' api ns] perm by blast
  have "\<exists>w'. reconcile_each ?perm w [] = (w', Panic NilDereference)"
  proof (rule reconcile_each_panics [where I = ?I])
    show "?I w" by simp
  qed (rule run, assumption+, rule nil)
  then have "\<exists>w'. ReconcileAll ord (NewReconcilerManager ?rs) w = (w', Panic NilDereference)"
    by (auto simp: ReconcileAll_def)
  then show ?thesis
    using ok by (auto simp: startReconciler_def ns Let_def)
qed

end
