(* ===== verification/Controllers.thy ===== *)
theory Controllers
  imports Kube_Types
begin

text \<open>
  The controller-runtime side, \<open>internal/controller\<close>, which the flag \<open>use-ctrls\<close> enables: the retry
  helpers (\<open>retry.go\<close>), the finalizer handler (\<open>finalizer/types.go\<close>), the update predicate
  (\<open>predicate.go\<close>) and the two reconcilers. Outside the program are the client of the API server
  (\<open>ctrl_client\<close>, with the laws of the locales \<open>versioned_write\<close> and \<open>versioned_write_up\<close>), \<open>retry.RetryOnConflict\<close> (\<open>retry\<close>, with the
  predicate \<open>retries_on_conflict\<close>), the helpers of \<open>controllerutil\<close> and \<open>SetStatusCondition\<close>
  (\<open>object_utils\<close>, with the predicate \<open>documented_utils\<close>; \<open>set_condition\<close>). Every call may find the cluster
  changed by others: a call returns the new state. Of a condition the transition time is left out. A
  missing and an empty list of finalizers are the same here.
\<close>

section \<open>Objects and the client\<close>

record Condition =
  cond_Type :: string
  cond_Status :: string
  cond_ObservedGeneration :: "64 word"
  cond_Reason :: string
  cond_Message :: string

record PortConfig =
  pc_Name :: string
  pc_Number :: "32 word"

record GatewayConfig =
  gc_Selector :: labels
  gc_PortConfig :: PortConfig

record IngressConfig =
  ic_Type :: string
  ic_GatewayConfig :: GatewayConfig

record ExportRules =
  er_ServiceSelectors :: "LabelSelectors option"

record MeshFederationSpec =
  mfs_Network :: string
  mfs_TrustDomain :: string
  mfs_ControlPlaneNamespace :: string
  mfs_IngressConfig :: IngressConfig
  mfs_ExportRules :: "ExportRules option"

record MeshFederationStatus =
  mst_Conditions :: "Condition list"

text \<open>The metadata the program reads, and the rest of the object.\<close>

record 'b ctrl_object =
  co_Key :: key
  co_Version :: string
  co_Finalizers :: "string list"
  co_Deleting :: bool
  co_Body :: 'b

record MeshFederationBody =
  mf_Spec :: MeshFederationSpec
  mf_Status :: MeshFederationStatus

type_synonym MeshFederation = "MeshFederationBody ctrl_object"

record ('s, 'b) ctrl_client =
  cc_Get :: "'s \<Rightarrow> key \<Rightarrow> 's \<times> (go_error + 'b ctrl_object)"
  cc_Update :: "'s \<Rightarrow> 'b ctrl_object \<Rightarrow> 's \<times> (go_error + 'b ctrl_object)"
  cc_StatusUpdate :: "'s \<Rightarrow> 'b ctrl_object \<Rightarrow> 's \<times> (go_error + 'b ctrl_object)"

type_synonym ('s, 'b) attempt = "'s \<times> 'b ctrl_object \<Rightarrow> ('s \<times> 'b ctrl_object) \<times> go_error option"

record ('s, 'b) retry_env =
  re_deepCopy :: "'b ctrl_object \<Rightarrow> 'b ctrl_object option"
  re_RetryOnConflict :: "('s, 'b) attempt \<Rightarrow> 's \<times> 'b ctrl_object \<Rightarrow> ('s \<times> 'b ctrl_object) \<times> go_error option"

record 'b object_utils =
  ou_AddFinalizer :: "'b ctrl_object \<Rightarrow> string \<Rightarrow> 'b ctrl_object \<times> bool"
  ou_RemoveFinalizer :: "'b ctrl_object \<Rightarrow> string \<Rightarrow> 'b ctrl_object \<times> bool"
  ou_ContainsFinalizer :: "'b ctrl_object \<Rightarrow> string \<Rightarrow> bool"

section \<open>retry.go\<close>

text \<open>The body that is retried: fetch, mutate, write; the second component is the object \<open>current\<close>.\<close>

definition retry_attempt :: "('s, 'b) ctrl_client \<Rightarrow> key \<Rightarrow> ('b ctrl_object \<Rightarrow> 'b ctrl_object)
    \<Rightarrow> ('s \<Rightarrow> 'b ctrl_object \<Rightarrow> 's \<times> (go_error + 'b ctrl_object)) \<Rightarrow> ('s, 'b) attempt" where
  "retry_attempt cli k mutate updateFn = (\<lambda>(s, current).
     (case cc_Get cli s k of
        (s1, Inl err) \<Rightarrow> ((s1, current), Some err)
      | (s1, Inr got) \<Rightarrow>
          let current = mutate got in
          (case updateFn s1 current of
             (s2, Inl err) \<Rightarrow> ((s2, current), Some err)
           | (s2, Inr saved) \<Rightarrow> ((s2, saved), None))))"

definition retryCall :: "('s, 'b) retry_env \<Rightarrow> ('s, 'b) ctrl_client \<Rightarrow> 'b ctrl_object \<Rightarrow> ('b ctrl_object \<Rightarrow> 'b ctrl_object)
    \<Rightarrow> ('s \<Rightarrow> 'b ctrl_object \<Rightarrow> 's \<times> (go_error + 'b ctrl_object)) \<Rightarrow> 's \<Rightarrow> 's \<times> 'b ctrl_object option \<times> go_error option" where
  "retryCall env cli original mutate updateFn s =
     (case re_deepCopy env original of
        None \<Rightarrow> (s, None, Some (Other ''failed to deep copy object''))
      | Some current \<Rightarrow>
          (case re_RetryOnConflict env (retry_attempt cli (co_Key original) mutate updateFn) (s, current) of
             ((s', current'), err) \<Rightarrow> (s', Some current', err)))"

definition RetryUpdate :: "('s, 'b) retry_env \<Rightarrow> ('s, 'b) ctrl_client \<Rightarrow> 'b ctrl_object \<Rightarrow> ('b ctrl_object \<Rightarrow> 'b ctrl_object)
    \<Rightarrow> 's \<Rightarrow> 's \<times> 'b ctrl_object option \<times> go_error option" where
  "RetryUpdate env cli original mutate = retryCall env cli original mutate (cc_Update cli)"

definition RetryStatusUpdate :: "('s, 'b) retry_env \<Rightarrow> ('s, 'b) ctrl_client \<Rightarrow> 'b ctrl_object \<Rightarrow> ('b ctrl_object \<Rightarrow> 'b ctrl_object)
    \<Rightarrow> 's \<Rightarrow> 's \<times> 'b ctrl_object option \<times> go_error option" where
  "RetryStatusUpdate env cli original mutate = retryCall env cli original mutate (cc_StatusUpdate cli)"

section \<open>predicate.go\<close>

text \<open>Only the update function of the predicate is set; the library lets all other events pass.\<close>

definition FinalizerChanged :: "'b ctrl_object \<Rightarrow> 'b ctrl_object \<Rightarrow> bool" where
  "FinalizerChanged objectOld objectNew = (co_Finalizers objectNew \<noteq> co_Finalizers objectOld)"

text \<open>
  The event filter of the MeshFederation controller: an update is reconciled when the library's generation
  predicate or the one above lets it pass; status writes change neither.
\<close>

definition SetupWithManager_filter :: "('b ctrl_object \<Rightarrow> 'b ctrl_object \<Rightarrow> bool) \<Rightarrow> 'b ctrl_object \<Rightarrow> 'b ctrl_object \<Rightarrow> bool" where
  "SetupWithManager_filter generationChanged objectOld objectNew =
     (generationChanged objectOld objectNew \<or> FinalizerChanged objectOld objectNew)"

text \<open>
  What the controllers hand to the builder of the library: a name, the kind they watch, and which events are reconciled. The
  predicates filter updates only. A controller without a name is named by the library.
\<close>

datatype 'b ctrl_event = CreateEvent "'b ctrl_object" | UpdateEvent "'b ctrl_object" "'b ctrl_object" | DeleteEvent "'b ctrl_object"
  | GenericEvent "'b ctrl_object"

record 'b registration =
  reg_Named :: "string option"
  reg_For :: string
  reg_EventFilter :: "'b ctrl_event \<Rightarrow> bool"

definition meshfederation_SetupWithManager :: "('b ctrl_object \<Rightarrow> 'b ctrl_object \<Rightarrow> bool) \<Rightarrow> 'b registration" where
  "meshfederation_SetupWithManager generationChanged =
     \<lparr>reg_Named = Some ''mesh-federation-ctrl'', reg_For = ''MeshFederation'',
      reg_EventFilter = (\<lambda>e. case e of UpdateEvent objectOld objectNew \<Rightarrow> SetupWithManager_filter generationChanged objectOld objectNew | _ \<Rightarrow> True)\<rparr>"

definition federatedservice_SetupWithManager :: "'b registration" where
  "federatedservice_SetupWithManager = \<lparr>reg_Named = None, reg_For = ''FederatedService'', reg_EventFilter = (\<lambda>e. True)\<rparr>"

section \<open>finalizer/types.go\<close>

record FinalizerHandler =
  fh_finalizerName :: string

definition NewHandler :: "string \<Rightarrow> FinalizerHandler" where
  "NewHandler finalizerName = \<lparr>fh_finalizerName = finalizerName\<rparr>"

text \<open>\<open>Add\<close> changes the object of the caller too; it is part of the result.\<close>

definition Add :: "('s, 'b) retry_env \<Rightarrow> 'b object_utils \<Rightarrow> ('s, 'b) ctrl_client \<Rightarrow> FinalizerHandler \<Rightarrow> 'b ctrl_object
    \<Rightarrow> 's \<Rightarrow> ('s \<times> 'b ctrl_object) \<times> bool \<times> go_error option" where
  "Add env utils cli f obj s =
     (case ou_AddFinalizer utils obj (fh_finalizerName f) of (obj', finalizersUpdated) \<Rightarrow>
        if \<not> finalizersUpdated then ((s, obj'), True, None)
        else (case RetryUpdate env cli obj' (\<lambda>saved. fst (ou_AddFinalizer utils saved (fh_finalizerName f))) s of
                (s', _, errRetry) \<Rightarrow> ((s', obj'), False, errRetry)))"

definition Finalize :: "('s, 'b) retry_env \<Rightarrow> 'b object_utils \<Rightarrow> ('s, 'b) ctrl_client \<Rightarrow> FinalizerHandler \<Rightarrow> 'b ctrl_object
    \<Rightarrow> ('s \<Rightarrow> 's \<times> go_error option) \<Rightarrow> 's \<Rightarrow> 's \<times> bool \<times> go_error option" where
  "Finalize env utils cli f obj cleanupFn s =
     (if \<not> (co_Deleting obj \<and> ou_ContainsFinalizer utils obj (fh_finalizerName f)) then (s, False, None)
      else (case cleanupFn s of
          (s1, Some err) \<Rightarrow> (s1, True, Some err)
        | (s1, None) \<Rightarrow>
            (case RetryUpdate env cli obj (\<lambda>saved. fst (ou_RemoveFinalizer utils saved (fh_finalizerName f))) s1 of
               (s', _, errRetry) \<Rightarrow> (s', True, errRetry))))"

section \<open>The reconcilers\<close>

definition available :: Condition where
  "available = \<lparr>cond_Type = ''Available'', cond_Status = ''True'', cond_ObservedGeneration = 0, cond_Reason = ''MeshFederationReconciled'',
     cond_Message = ''Reconcile completed successfully''\<rparr>"

definition set_conditions :: "(Condition list \<Rightarrow> Condition \<Rightarrow> Condition list \<times> bool) \<Rightarrow> Condition list \<Rightarrow> MeshFederation \<Rightarrow> MeshFederation" where
  "set_conditions setStatusCondition conditions saved =
     saved\<lparr>co_Body := (co_Body saved)\<lparr>mf_Status := \<lparr>mst_Conditions =
       foldl (\<lambda>cs c. fst (setStatusCondition cs c)) (mst_Conditions (mf_Status (co_Body saved))) conditions\<rparr>\<rparr>\<rparr>"

text \<open>The state and the error; the result of the reconciliation is always empty.\<close>

definition meshfederation_Reconcile :: "('s, MeshFederationBody) retry_env
    \<Rightarrow> (Condition list \<Rightarrow> Condition \<Rightarrow> Condition list \<times> bool) \<Rightarrow> ('s, MeshFederationBody) ctrl_client
    \<Rightarrow> key \<Rightarrow> 's \<Rightarrow> 's \<times> go_error option" where
  "meshfederation_Reconcile env setStatusCondition cli req s =
     (case cc_Get cli s req of
        (s1, Inl err) \<Rightarrow> (s1, if IsNotFound err then None else Some (Wrap ''failed fetching MeshFederation'' err))
      | (s1, Inr meshFederation) \<Rightarrow>
          (case setStatusCondition (mst_Conditions (mf_Status (co_Body meshFederation))) available of
             (conditions, conditionsChanged) \<Rightarrow>
               if conditionsChanged then
                 (case RetryStatusUpdate env cli
                         (meshFederation\<lparr>co_Body := (co_Body meshFederation)\<lparr>mf_Status := \<lparr>mst_Conditions = conditions\<rparr>\<rparr>\<rparr>)
                         (set_conditions setStatusCondition conditions) s1 of
                    (s2, _, errStatusUpdate) \<Rightarrow> (s2, errStatusUpdate))
               else (s1, None)))"

definition federatedservice_Reconcile :: "key \<Rightarrow> 's \<Rightarrow> 's \<times> go_error option" where
  "federatedservice_Reconcile req s = (s, None)"

section \<open>What the program relies on\<close>

text \<open>\<open>RetryOnConflict\<close>: at most \<open>steps\<close> attempts, and another one only after a conflict.\<close>

fun attempts :: "nat \<Rightarrow> ('s, 'b) attempt \<Rightarrow> ('s, 'b) attempt" where
  "attempts 0 f x = (x, None)"
| "attempts (Suc n) f x =
     (case f x of
        (x', Some err) \<Rightarrow> if IsConflict err \<and> 0 < n then attempts n f x' else (x', Some err)
      | (x', None) \<Rightarrow> (x', None))"

definition retries_on_conflict :: "nat \<Rightarrow> ('s, 'b) retry_env \<Rightarrow> bool" where
  "retries_on_conflict steps env \<longleftrightarrow> 0 < steps \<and> re_deepCopy env = Some \<and> re_RetryOnConflict env = attempts steps"

definition documented_utils :: "'b object_utils \<Rightarrow> bool" where
  "documented_utils utils \<longleftrightarrow>
     (\<forall>obj n. ou_AddFinalizer utils obj n = (if n \<in> set (co_Finalizers obj) then (obj, False)
        else (obj\<lparr>co_Finalizers := co_Finalizers obj @ [n]\<rparr>, True)))
   \<and> (\<forall>obj n. ou_RemoveFinalizer utils obj n = (obj\<lparr>co_Finalizers := removeAll n (co_Finalizers obj)\<rparr>, n \<in> set (co_Finalizers obj)))
   \<and> (\<forall>obj n. ou_ContainsFinalizer utils obj n = (n \<in> set (co_Finalizers obj)))"

text \<open>\<open>SetStatusCondition\<close>: the first condition of the type is replaced, or the condition is appended.\<close>

fun set_condition :: "Condition list \<Rightarrow> Condition \<Rightarrow> Condition list \<times> bool" where
  "set_condition [] c = ([c], True)"
| "set_condition (d # ds) c =
     (if cond_Type d = cond_Type c then (c # ds, d \<noteq> c)
      else (case set_condition ds c of (ds', changed) \<Rightarrow> (d # ds', changed)))"

abbreviation condition_of :: "Condition list \<Rightarrow> string \<Rightarrow> Condition option" where
  "condition_of cs t \<equiv> find (\<lambda>c. cond_Type c = t) cs"

abbreviation condition_types :: "Condition list \<Rightarrow> string list" where
  "condition_types cs \<equiv> map cond_Type cs"

lemma condition_of_set:
  "condition_of (fst (set_condition cs c)) t = (if t = cond_Type c then Some c else condition_of cs t)"
  by (induction cs) (auto split: prod.splits)

lemma set_condition_changed: "snd (set_condition cs c) \<longleftrightarrow> condition_of cs (cond_Type c) \<noteq> Some c"
  by (induction cs) (auto split: prod.splits)

lemma condition_types_set: "set (condition_types (fst (set_condition cs c))) = insert (cond_Type c) (set (condition_types cs))"
  by (induction cs) (auto split: prod.splits)

lemma distinct_set_condition: "distinct (condition_types (fst (set_condition cs c))) = distinct (condition_types cs)"
proof (induction cs)
  case (Cons d ds)
  then show ?case using condition_types_set [of ds c] by (auto split: prod.splits)
qed simp

lemma condition_of_fold:
  assumes "distinct (condition_types ds)"
  shows "condition_of (foldl (\<lambda>cs c. fst (set_condition cs c)) cs ds) t =
    (case condition_of ds t of Some c \<Rightarrow> Some c | None \<Rightarrow> condition_of cs t)"
  using assms
proof (induction ds arbitrary: cs)
  case (Cons d ds)
  have "t = cond_Type d \<Longrightarrow> condition_of ds t = None" using Cons.prems by (auto simp: find_None_iff) (metis image_eqI)
  with Cons show ?case by (auto simp: condition_of_set split: option.splits)
qed simp

section \<open>Optimistic concurrency\<close>

text \<open>
  A server with optimistic concurrency and one way to write to it. A write is accepted only when it
  carries the version of the stored object, and leaves an object that \<open>outcome\<close> relates to the stored
  one and to the one that was sent. An object that is being deleted disappears with its last finalizer.
  Only the written key is described: others may write to other keys at any time.
\<close>

definition gone :: "'b ctrl_object \<Rightarrow> bool" where
  "gone obj \<longleftrightarrow> co_Deleting obj \<and> co_Finalizers obj = []"

locale versioned_write =
  fixes cli :: "('s, 'b) ctrl_client" and put :: "'s \<Rightarrow> 'b ctrl_object \<Rightarrow> 's \<times> (go_error + 'b ctrl_object)"
    and view :: "'s \<Rightarrow> key \<rightharpoonup> 'b ctrl_object" and outcome :: "'b ctrl_object \<Rightarrow> 'b ctrl_object \<Rightarrow> 'b ctrl_object \<Rightarrow> bool"
  assumes stored: "view s k = Some obj \<Longrightarrow> co_Key obj = k \<and> \<not> gone obj"
    and get_ok: "cc_Get cli s k = (s', Inr obj) \<Longrightarrow> view s k = Some obj \<and> view s' k = Some obj"
    and write_ok: "put s obj = (s', Inr saved) \<Longrightarrow>
      \<exists>old. view s (co_Key obj) = Some old \<and> co_Version old = co_Version obj \<and> outcome old obj saved
        \<and> view s' (co_Key obj) = (if gone saved then None else Some saved)"
begin

text \<open>
  No update is lost: a retried write that succeeds wrote the mutation of the object as it was stored
  right before the write.
\<close>

lemma attempts_success:
  assumes "attempts steps (retry_attempt cli k mutate put) (s, current) = ((s', saved), None)" and "0 < steps"
    and key: "\<And>obj. co_Key (mutate obj) = co_Key obj"
  shows "\<exists>s0 got. view s0 k = Some got \<and> co_Key got = k \<and> outcome got (mutate got) saved
    \<and> view s' k = (if gone saved then None else Some saved)"
  using assms(1,2)
proof (induction steps arbitrary: s current)
  case (Suc n)
  obtain x err where f: "retry_attempt cli k mutate put (s, current) = (x, err)"
    by (cases "retry_attempt cli k mutate put (s, current)")
  show ?case
  proof (cases err)
    case None
    with Suc.prems f have x: "x = (s', saved)" by simp
    from f None x obtain s1 got where get: "cc_Get cli s k = (s1, Inr got)" and up: "put s1 (mutate got) = (s', Inr saved)"
      by (auto simp: retry_attempt_def Let_def split: prod.splits sum.splits)
    from get_ok [OF get] stored [of s1 k got] write_ok [OF up] key show ?thesis by (intro exI [of _ s1] exI [of _ got]) auto
  next
    case (Some e)
    with Suc.prems f have "IsConflict e \<and> 0 < n" by (auto split: if_splits)
    with Suc f Some show ?thesis by (cases x) simp
  qed
qed simp

end

text \<open>
  The server is up, and the writes that race with this program are finite: each conflict uses one up.
  A server rejects a new finalizer on an object that is being deleted.
\<close>

locale versioned_write_up = versioned_write cli put view outcome
  for cli :: "('s, 'b) ctrl_client" and put :: "'s \<Rightarrow> 'b ctrl_object \<Rightarrow> 's \<times> (go_error + 'b ctrl_object)"
    and view :: "'s \<Rightarrow> key \<rightharpoonup> 'b ctrl_object" and outcome :: "'b ctrl_object \<Rightarrow> 'b ctrl_object \<Rightarrow> 'b ctrl_object \<Rightarrow> bool" +
  fixes races :: "'s \<Rightarrow> nat"
  assumes get_up: "view s k \<noteq> None \<Longrightarrow> \<exists>s' obj. cc_Get cli s k = (s', Inr obj) \<and> races s' \<le> races s"
    and write_up: "view s (co_Key obj) = Some old \<Longrightarrow> co_Version old = co_Version obj \<Longrightarrow>
      (co_Deleting old \<longrightarrow> set (co_Finalizers obj) \<subseteq> set (co_Finalizers old)) \<Longrightarrow>
      (\<exists>s' saved. put s obj = (s', Inr saved))
      \<or> (\<exists>s' err. put s obj = (s', Inl err) \<and> IsConflict err \<and> races s' < races s \<and> view s' (co_Key obj) \<noteq> None)"
begin

lemma attempts_writes:
  assumes "view s k \<noteq> None" and "races s < steps"
    and mutate: "\<And>obj. co_Key (mutate obj) = co_Key obj \<and> co_Version (mutate obj) = co_Version obj
      \<and> set (co_Finalizers (mutate obj)) \<subseteq> set (co_Finalizers obj)"
  shows "\<exists>s' saved s0 got. attempts steps (retry_attempt cli k mutate put) (s, current) = ((s', saved), None)
    \<and> view s0 k = Some got \<and> (races s = 0 \<longrightarrow> view s k = Some got) \<and> outcome got (mutate got) saved
    \<and> view s' k = (if gone saved then None else Some saved)"
  using assms(1,2)
proof (induction steps arbitrary: s current)
  case (Suc n)
  obtain s1 got where get: "cc_Get cli s k = (s1, Inr got)" and r: "races s1 \<le> races s"
    using get_up [OF Suc.prems(1)] by blast
  have got: "view s k = Some got" "view s1 k = Some got" "co_Key (mutate got) = k"
    using get_ok [OF get] stored [of s1 k got] mutate by auto
  from write_up [of s1 "mutate got" got] got mutate [of got]
  consider (ok) s2 saved where "put s1 (mutate got) = (s2, Inr saved)"
    | (race) s2 err where "put s1 (mutate got) = (s2, Inl err)" "IsConflict err" "races s2 < races s1" "view s2 k \<noteq> None"
    by auto
  then show ?case
  proof cases
    case ok
    with write_ok [OF ok] got show ?thesis
      by (intro exI [of _ s2] exI [of _ saved] exI [of _ s1] exI [of _ got]) (auto simp: retry_attempt_def get Let_def)
  next
    case race
    have "races s2 < n" and "races s \<noteq> 0" and "0 < n" using race(3) r Suc.prems(2) by simp_all
    have again: "attempts (Suc n) (retry_attempt cli k mutate put) (s, current) = attempts n (retry_attempt cli k mutate put) (s2, mutate got)"
    proof -
      have "retry_attempt cli k mutate put (s, current) = ((s2, mutate got), Some err)" using race(1) by (simp add: retry_attempt_def get Let_def)
      with race(2) \<open>0 < n\<close> show ?thesis by simp
    qed
    from Suc.IH [OF race(4) \<open>races s2 < n\<close>, of "mutate got"] \<open>races s \<noteq> 0\<close> show ?thesis unfolding again by metis
  qed
qed simp

end

section \<open>A server with racing writers\<close>

text \<open>
  An executable server that meets the contract: a map of objects and the writes of others that are
  still to come, each a change of the body of an object. The next of them is applied when a write of this
  program arrives; the write loses when it is for the same key.
\<close>

record 'b racing =
  rs_store :: "key \<rightharpoonup> 'b ctrl_object"
  rs_pending :: "(key \<times> ('b \<Rightarrow> 'b)) list"

definition racing_view :: "'b racing \<Rightarrow> key \<rightharpoonup> 'b ctrl_object" where
  "racing_view s k = (case rs_store s k of
     None \<Rightarrow> None
   | Some obj \<Rightarrow> if gone obj then None else Some (obj\<lparr>co_Key := k\<rparr>))"

definition racing_Get :: "'b racing \<Rightarrow> key \<Rightarrow> 'b racing \<times> (go_error + 'b ctrl_object)" where
  "racing_Get s k = (s, case racing_view s k of None \<Rightarrow> Inl NotFound | Some obj \<Rightarrow> Inr obj)"

definition next_version :: "string \<Rightarrow> string" where
  "next_version v = v @ ''+''"

fun other_write :: "key \<Rightarrow> 'b racing \<Rightarrow> bool \<times> 'b racing" where
  "other_write k \<lparr>rs_store = st, rs_pending = []\<rparr> = (False, \<lparr>rs_store = st, rs_pending = []\<rparr>)"
| "other_write k \<lparr>rs_store = st, rs_pending = (k', f) # ws\<rparr> = (k' = k,
     \<lparr>rs_store = st(k' := map_option (\<lambda>obj. obj\<lparr>co_Version := next_version (co_Version obj), co_Body := f (co_Body obj)\<rparr>) (st k')),
      rs_pending = ws\<rparr>)"

definition commit :: "('b ctrl_object \<Rightarrow> 'b ctrl_object \<Rightarrow> 'b ctrl_object) \<Rightarrow> 'b racing \<Rightarrow> 'b ctrl_object
    \<Rightarrow> 'b racing \<times> (go_error + 'b ctrl_object)" where
  "commit merge s obj =
     (let k = co_Key obj; (lost, s1) = other_write k s in
      case racing_view s1 k of
        None \<Rightarrow> (s1, Inl NotFound)
      | Some old \<Rightarrow>
          if lost \<or> co_Version old \<noteq> co_Version obj then (s1, Inl Conflict)
          else if co_Deleting old \<and> \<not> set (co_Finalizers obj) \<subseteq> set (co_Finalizers old)
            then (s1, Inl (Other ''no new finalizers can be added if the object is being deleted''))
          else let saved = (merge old obj)\<lparr>co_Key := k, co_Version := next_version (co_Version old)\<rparr> in
            (s1\<lparr>rs_store := (rs_store s1)(k := if gone saved then None else Some saved)\<rparr>, Inr saved))"

definition update_merge :: "'b ctrl_object \<Rightarrow> 'b ctrl_object \<Rightarrow> 'b ctrl_object" where
  "update_merge old obj = obj\<lparr>co_Deleting := co_Deleting old\<rparr>"

definition update_outcome :: "'b ctrl_object \<Rightarrow> 'b ctrl_object \<Rightarrow> 'b ctrl_object \<Rightarrow> bool" where
  "update_outcome old obj saved \<longleftrightarrow> co_Finalizers saved = co_Finalizers obj \<and> co_Deleting saved = co_Deleting old"

definition status_merge :: "MeshFederation \<Rightarrow> MeshFederation \<Rightarrow> MeshFederation" where
  "status_merge old obj = old\<lparr>co_Body := (co_Body old)\<lparr>mf_Status := mf_Status (co_Body obj)\<rparr>\<rparr>"

definition status_outcome :: "MeshFederation \<Rightarrow> MeshFederation \<Rightarrow> MeshFederation \<Rightarrow> bool" where
  "status_outcome old obj saved \<longleftrightarrow> mf_Status (co_Body saved) = mf_Status (co_Body obj) \<and> mf_Spec (co_Body saved) = mf_Spec (co_Body old)
     \<and> co_Finalizers saved = co_Finalizers old \<and> co_Deleting saved = co_Deleting old"

text \<open>
  A write of the status is not reconciled, so the controller does not wake itself up: the generation follows the spec and the mark
  for deletion. A write that changes the finalizers is reconciled, whatever the generation says.
\<close>

definition generation_of_spec :: "(MeshFederation \<Rightarrow> MeshFederation \<Rightarrow> bool) \<Rightarrow> bool" where
  "generation_of_spec generationChanged \<longleftrightarrow> (\<forall>objectOld objectNew. generationChanged objectOld objectNew \<longleftrightarrow>
     mf_Spec (co_Body objectNew) \<noteq> mf_Spec (co_Body objectOld) \<or> co_Deleting objectNew \<noteq> co_Deleting objectOld)"

lemma status_write_filtered:
  assumes "generation_of_spec generationChanged" and "status_outcome old obj saved"
  shows "\<not> reg_EventFilter (meshfederation_SetupWithManager generationChanged) (UpdateEvent old saved)"
  using assms by (simp add: meshfederation_SetupWithManager_def SetupWithManager_filter_def FinalizerChanged_def status_outcome_def generation_of_spec_def)

lemma finalizer_write_passes:
  assumes "update_outcome old obj saved" and "co_Finalizers obj \<noteq> co_Finalizers old"
  shows "reg_EventFilter (meshfederation_SetupWithManager generationChanged) (UpdateEvent old saved)"
  using assms by (simp add: meshfederation_SetupWithManager_def SetupWithManager_filter_def FinalizerChanged_def update_outcome_def)

definition racing_client :: "('b ctrl_object \<Rightarrow> 'b ctrl_object \<Rightarrow> 'b ctrl_object) \<Rightarrow> ('b racing, 'b) ctrl_client" where
  "racing_client merge = \<lparr>cc_Get = racing_Get, cc_Update = commit update_merge, cc_StatusUpdate = commit merge\<rparr>"

lemma racing_view_update:
  "racing_view (s\<lparr>rs_store := (rs_store s)(k := x)\<rparr>) k = (case x of None \<Rightarrow> None | Some obj \<Rightarrow> if gone obj then None else Some (obj\<lparr>co_Key := k\<rparr>))"
  by (simp add: racing_view_def)

lemma other_write_lost: "other_write k s = (True, s1) \<Longrightarrow> length (rs_pending s1) < length (rs_pending s) \<and> (racing_view s k \<noteq> None \<longrightarrow> racing_view s1 k \<noteq> None)"
  by (induction k s rule: other_write.induct) (auto simp: racing_view_def gone_def split: option.splits)

lemma other_write_won: "other_write k s = (False, s1) \<Longrightarrow> racing_view s1 k = racing_view s k"
  by (induction k s rule: other_write.induct) (auto simp: racing_view_def split: option.splits if_splits)

lemma gone_key [simp]: "gone (obj\<lparr>co_Key := k, co_Version := v\<rparr>) = gone obj" "gone (obj\<lparr>co_Key := k\<rparr>) = gone obj"
  by (simp_all add: gone_def)

lemma commit_ok:
  assumes "commit merge s obj = (s', Inr saved)"
  shows "\<exists>old. racing_view s (co_Key obj) = Some old \<and> co_Version old = co_Version obj
    \<and> saved = (merge old obj)\<lparr>co_Key := co_Key obj, co_Version := next_version (co_Version old)\<rparr>
    \<and> racing_view s' (co_Key obj) = (if gone saved then None else Some saved)"
proof -
  obtain lost s1 where w: "other_write (co_Key obj) s = (lost, s1)" by (cases "other_write (co_Key obj) s")
  with assms obtain old where old: "racing_view s1 (co_Key obj) = Some old" "\<not> lost" "co_Version old = co_Version obj"
    by (auto simp: commit_def Let_def split: option.splits if_splits)
  have "racing_view s (co_Key obj) = Some old" using other_write_won [of "co_Key obj" s s1] w old(1,2) by simp
  then show ?thesis
    using assms w old by (auto simp: commit_def Let_def racing_view_update split: if_splits)
qed

lemma commit_up:
  assumes "racing_view s (co_Key obj) = Some old" and "co_Version old = co_Version obj"
    and "co_Deleting old \<longrightarrow> set (co_Finalizers obj) \<subseteq> set (co_Finalizers old)"
  shows "(\<exists>s' saved. commit merge s obj = (s', Inr saved))
      \<or> (\<exists>s' err. commit merge s obj = (s', Inl err) \<and> IsConflict err \<and> length (rs_pending s') < length (rs_pending s)
          \<and> racing_view s' (co_Key obj) \<noteq> None)"
proof -
  obtain lost s1 where w: "other_write (co_Key obj) s = (lost, s1)" by (cases "other_write (co_Key obj) s")
  show ?thesis
  proof (cases lost)
    case True
    with other_write_lost [of "co_Key obj" s s1] w assms(1) show ?thesis by (auto simp: commit_def)
  next
    case False
    with other_write_won [of "co_Key obj" s s1] w assms show ?thesis by (auto simp: commit_def Let_def)
  qed
qed

lemma racing_client_contract:
  assumes "put = commit m" and "\<And>old obj k v. outcome old obj ((m old obj)\<lparr>co_Key := k, co_Version := v\<rparr>)"
  shows "versioned_write_up (racing_client merge) put racing_view outcome (\<lambda>s. length (rs_pending s))"
proof (unfold_locales, goal_cases)
  case (1 s k obj)
  then show ?case by (auto simp: racing_view_def split: option.splits if_splits)
next
  case (2 s k s' obj)
  then show ?case by (auto simp: racing_client_def racing_Get_def split: option.splits)
next
  case (3 s obj s' saved)
  then show ?case using commit_ok [of m s obj s' saved] assms by blast
next
  case (4 s k)
  then show ?case by (auto simp: racing_client_def racing_Get_def)
next
  case (5 s obj old)
  then show ?case using commit_up [of s obj old m] by (simp add: assms(1))
qed

interpretation racing_update: versioned_write_up "racing_client status_merge" "cc_Update (racing_client status_merge)" racing_view update_outcome
    "\<lambda>s. length (rs_pending s)"
  by (rule racing_client_contract [of _ update_merge]) (simp_all add: racing_client_def update_merge_def update_outcome_def)

interpretation racing_status: versioned_write_up "racing_client status_merge" "cc_StatusUpdate (racing_client status_merge)" racing_view status_outcome
    "\<lambda>s. length (rs_pending s)"
  by (rule racing_client_contract [of _ status_merge]) (simp_all add: racing_client_def status_merge_def status_outcome_def)

section \<open>The finalizer handler\<close>

lemma RetryUpdate_attempts:
  assumes "retries_on_conflict steps env"
    and "attempts steps (retry_attempt cli (co_Key original) mutate (cc_Update cli)) (s, original) = ((s', saved), err)"
  shows "RetryUpdate env cli original mutate s = (s', Some saved, err)"
  using assms by (simp add: retries_on_conflict_def RetryUpdate_def retryCall_def)

lemma RetryStatusUpdate_attempts:
  assumes "retries_on_conflict steps env"
    and "attempts steps (retry_attempt cli (co_Key original) mutate (cc_StatusUpdate cli)) (s, original) = ((s', saved), err)"
  shows "RetryStatusUpdate env cli original mutate s = (s', Some saved, err)"
  using assms by (simp add: retries_on_conflict_def RetryStatusUpdate_def retryCall_def)

text \<open>
  \<open>Add\<close> without an error leaves the finalizer on the object: either it was there and nothing is written, or it is
  on the stored object, added to the finalizers stored at that moment, whatever else was written meanwhile.
\<close>

lemma Add_persists:
  assumes "retries_on_conflict steps env" and "0 < steps" and "documented_utils utils"
    and "versioned_write cli (cc_Update cli) view update_outcome"
    and "Add env utils cli f obj s = ((s', obj'), existed, None)"
  shows "fh_finalizerName f \<in> set (co_Finalizers obj') \<and> (existed \<longleftrightarrow> fh_finalizerName f \<in> set (co_Finalizers obj))
    \<and> (if existed then s' = s \<and> obj' = obj
       else \<exists>s0 got saved. view s0 (co_Key obj) = Some got \<and> view s' (co_Key obj) = Some saved
         \<and> co_Finalizers saved = co_Finalizers got @ (if fh_finalizerName f \<in> set (co_Finalizers got) then [] else [fh_finalizerName f]))"
proof (cases "fh_finalizerName f \<in> set (co_Finalizers obj)")
  case True
  with assms(3,5) show ?thesis by (auto simp: Add_def documented_utils_def)
next
  case False
  let ?add = "\<lambda>saved. fst (ou_AddFinalizer utils saved (fh_finalizerName f))"
  have add: "?add o1 = o1\<lparr>co_Finalizers := co_Finalizers o1 @ (if fh_finalizerName f \<in> set (co_Finalizers o1) then [] else [fh_finalizerName f])\<rparr>" for o1
    using assms(3) by (simp add: documented_utils_def)
  obtain obj1 where obj1: "ou_AddFinalizer utils obj (fh_finalizerName f) = (obj1, True)" "co_Key obj1 = co_Key obj"
    "fh_finalizerName f \<in> set (co_Finalizers obj1)"
    using False assms(3) by (simp add: documented_utils_def)
  obtain s1 saved err where a: "attempts steps (retry_attempt cli (co_Key obj1) ?add (cc_Update cli)) (s, obj1) = ((s1, saved), err)"
    by (metis prod.exhaust)
  have "Add env utils cli f obj s = ((s1, obj1), False, err)"
    by (simp add: Add_def obj1(1) RetryUpdate_attempts [OF assms(1) a])
  with assms(5) have run: "s1 = s'" "obj' = obj1" "\<not> existed" "err = None" by auto
  have key: "co_Key (?add o1) = co_Key o1" for o1 by (simp add: add)
  from versioned_write.attempts_success [OF assms(4) a [unfolded run] assms(2) key] obtain s0 got
    where got: "view s0 (co_Key obj) = Some got" "update_outcome got (?add got) saved"
      "view s' (co_Key obj) = (if gone saved then None else Some saved)" by (auto simp: obj1(2))
  have "co_Finalizers saved = co_Finalizers (?add got)" using got(2) by (simp add: update_outcome_def)
  then have fins: "co_Finalizers saved = co_Finalizers got @ (if fh_finalizerName f \<in> set (co_Finalizers got) then [] else [fh_finalizerName f])"
    by (simp add: add)
  then have "\<not> gone saved" by (auto simp: gone_def)
  with got(1,3) fins run False obj1(3) show ?thesis by auto
qed

text \<open>
  C22: \<open>Finalize\<close> does nothing for an object that is not being deleted or does not carry the finalizer; a
  failing cleanup is reported and the finalizer stays, so that the deletion is retried; after a successful
  cleanup the finalizer, and no other one, is removed from the object as it is stored at that moment, and
  the object disappears with its last finalizer. This holds with other writers at work, as long as they
  win fewer races than the retry makes attempts.
\<close>

theorem Finalize_releases:
  assumes "retries_on_conflict steps env" and "documented_utils utils"
    and "versioned_write_up cli (cc_Update cli) view update_outcome races"
    and "\<forall>s1. cleanupFn s = (s1, None) \<longrightarrow> view s1 (co_Key obj) \<noteq> None \<and> races s1 < steps"
  shows "if co_Deleting obj \<and> fh_finalizerName f \<in> set (co_Finalizers obj) then
      (case cleanupFn s of
         (s1, Some err) \<Rightarrow> Finalize env utils cli f obj cleanupFn s = (s1, True, Some err)
       | (s1, None) \<Rightarrow> \<exists>s' s0 got. Finalize env utils cli f obj cleanupFn s = (s', True, None)
           \<and> view s0 (co_Key obj) = Some got \<and> (races s1 = 0 \<longrightarrow> view s1 (co_Key obj) = Some got)
           \<and> (if co_Deleting got \<and> set (co_Finalizers got) \<subseteq> {fh_finalizerName f} then view s' (co_Key obj) = None
              else \<exists>saved. view s' (co_Key obj) = Some saved
                \<and> co_Finalizers saved = removeAll (fh_finalizerName f) (co_Finalizers got)))
    else Finalize env utils cli f obj cleanupFn s = (s, False, None)"
proof (cases "co_Deleting obj \<and> fh_finalizerName f \<in> set (co_Finalizers obj)")
  case False
  then show ?thesis using assms(2) by (auto simp: Finalize_def documented_utils_def)
next
  case needed: True
  obtain s1 err where c: "cleanupFn s = (s1, err)" by (cases "cleanupFn s")
  let ?mutate = "\<lambda>saved. saved\<lparr>co_Finalizers := removeAll (fh_finalizerName f) (co_Finalizers saved)\<rparr>"
  have run: "Finalize env utils cli f obj cleanupFn s = (case err of Some e \<Rightarrow> (s1, True, Some e)
      | None \<Rightarrow> (case RetryUpdate env cli obj ?mutate s1 of (s', _, errRetry) \<Rightarrow> (s', True, errRetry)))"
    using needed assms(2) by (simp add: Finalize_def documented_utils_def c split: option.splits)
  show ?thesis
  proof (cases err)
    case None
    with c assms(4) have up: "view s1 (co_Key obj) \<noteq> None" "races s1 < steps" by auto
    from versioned_write_up.attempts_writes [OF assms(3) up, of ?mutate obj] obtain s' saved s0 got where
      a: "attempts steps (retry_attempt cli (co_Key obj) ?mutate (cc_Update cli)) (s1, obj) = ((s', saved), None)"
      and got: "view s0 (co_Key obj) = Some got" "races s1 = 0 \<longrightarrow> view s1 (co_Key obj) = Some got"
      and saved: "update_outcome got (?mutate got) saved" "view s' (co_Key obj) = (if gone saved then None else Some saved)"
      by auto
    have "if co_Deleting got \<and> set (co_Finalizers got) \<subseteq> {fh_finalizerName f} then view s' (co_Key obj) = None
        else \<exists>saved. view s' (co_Key obj) = Some saved \<and> co_Finalizers saved = removeAll (fh_finalizerName f) (co_Finalizers got)"
      using saved by (auto simp: update_outcome_def gone_def filter_empty_conv removeAll_filter_not_eq)
    moreover have "Finalize env utils cli f obj cleanupFn s = (s', True, None)"
      using run None RetryUpdate_attempts [OF assms(1) a] by simp
    moreover have "cleanupFn s = (s1, None)" using c None by simp
    ultimately show ?thesis using needed got by (simp only: simp_thms if_True prod.case option.case) metis
  qed (use needed c run in simp)
qed

text \<open>Sample data: an object with two finalizers and a stale condition, and a writer that wins one race.\<close>

definition plain_utils :: "'b object_utils" where
  "plain_utils = \<lparr>
     ou_AddFinalizer = (\<lambda>obj n. if n \<in> set (co_Finalizers obj) then (obj, False) else (obj\<lparr>co_Finalizers := co_Finalizers obj @ [n]\<rparr>, True)),
     ou_RemoveFinalizer = (\<lambda>obj n. (obj\<lparr>co_Finalizers := removeAll n (co_Finalizers obj)\<rparr>, n \<in> set (co_Finalizers obj))),
     ou_ContainsFinalizer = (\<lambda>obj n. n \<in> set (co_Finalizers obj))\<rparr>"

definition retry_five :: "('s, 'b) retry_env" where
  "retry_five = \<lparr>re_deepCopy = Some, re_RetryOnConflict = attempts 5\<rparr>"

definition ready :: "string \<Rightarrow> Condition" where
  "ready st = \<lparr>cond_Type = ''Ready'', cond_Status = st, cond_ObservedGeneration = 1, cond_Reason = ''Probe'', cond_Message = []\<rparr>"

definition sample_federation :: MeshFederation where
  "sample_federation = \<lparr>co_Key = (''istio-system'', ''mesh''), co_Version = ''1'', co_Finalizers = [''federation'', ''backup''], co_Deleting = True,
     co_Body = \<lparr>mf_Spec = \<lparr>mfs_Network = ''east'', mfs_TrustDomain = ''cluster.local'', mfs_ControlPlaneNamespace = ''istio-system'',
         mfs_IngressConfig = \<lparr>ic_Type = ''istio'', ic_GatewayConfig = \<lparr>gc_Selector = Map.empty, gc_PortConfig = \<lparr>pc_Name = ''tls'', pc_Number = 15443\<rparr>\<rparr>\<rparr>,
         mfs_ExportRules = None\<rparr>,
       mf_Status = \<lparr>mst_Conditions = [ready ''False'']\<rparr>\<rparr>\<rparr>"

definition sample_server :: "MeshFederationBody racing" where
  "sample_server = \<lparr>rs_store = [(''istio-system'', ''mesh'') \<mapsto> sample_federation],
     rs_pending = [((''istio-system'', ''mesh''), mf_Status_update (\<lambda>_. \<lparr>mst_Conditions = [ready ''True'']\<rparr>))]\<rparr>"

lemma retry_five_retries: "retries_on_conflict 5 retry_five"
  by (simp add: retries_on_conflict_def retry_five_def)

lemma plain_utils_documented: "documented_utils plain_utils"
  by (simp add: documented_utils_def plain_utils_def)

lemma sample_server_view: "racing_view sample_server (''istio-system'', ''mesh'') = Some sample_federation"
  by (simp add: racing_view_def sample_server_def sample_federation_def gone_def)

theorem Finalize_releases_witness:
  "\<exists>s' (s0 :: MeshFederationBody racing) got. Finalize retry_five plain_utils (racing_client status_merge) (NewHandler ''federation'') sample_federation (\<lambda>s. (s, None)) sample_server
      = (s', True, None)
    \<and> racing_view s0 (''istio-system'', ''mesh'') = Some got
    \<and> (if co_Deleting got \<and> set (co_Finalizers got) \<subseteq> {''federation''} then racing_view s' (''istio-system'', ''mesh'') = None
       else \<exists>saved. racing_view s' (''istio-system'', ''mesh'') = Some saved \<and> co_Finalizers saved = removeAll ''federation'' (co_Finalizers got))"
proof -
  have *: "co_Deleting sample_federation" "co_Key sample_federation = (''istio-system'', ''mesh'')" "fh_finalizerName (NewHandler ''federation'') = ''federation''"
    "''federation'' \<in> set (co_Finalizers sample_federation)" by (simp_all add: sample_federation_def NewHandler_def)
  have "length (rs_pending sample_server) < 5" by (simp add: sample_server_def)
  then have up: "\<forall>s1. (\<lambda>s. (s, None :: go_error option)) sample_server = (s1, None) \<longrightarrow>
      racing_view s1 (co_Key sample_federation) \<noteq> None \<and> length (rs_pending s1) < 5" using sample_server_view by (simp add: *(2))
  have needed: "co_Deleting sample_federation \<and> fh_finalizerName (NewHandler ''federation'') \<in> set (co_Finalizers sample_federation)" using * by simp
  show ?thesis
    using Finalize_releases [where f = "NewHandler ''federation''" and cleanupFn = "\<lambda>s. (s, None)" and s = sample_server and view = racing_view and steps = 5 and races = "\<lambda>s. length (rs_pending s)",
      OF retry_five_retries plain_utils_documented racing_update.versioned_write_up_axioms up, unfolded if_P [OF needed] prod.case option.case]
    unfolding *(2,3) by blast
qed

section \<open>The MeshFederation reconciler\<close>

abbreviation conditions_in :: "MeshFederation \<Rightarrow> Condition list" where
  "conditions_in mf \<equiv> mst_Conditions (mf_Status (co_Body mf))"

lemma set_conditions_simps [simp]:
  "co_Key (set_conditions f cs mf) = co_Key mf" "co_Version (set_conditions f cs mf) = co_Version mf"
  "co_Finalizers (set_conditions f cs mf) = co_Finalizers mf"
  "conditions_in (set_conditions f cs mf) = foldl (\<lambda>cs c. fst (f cs c)) (conditions_in mf) cs"
  by (simp_all add: set_conditions_def)

lemma available_Type [simp]: "cond_Type available = ''Available''"
  by (simp add: available_def)

lemma Reconcile_settled:
  assumes "cc_Get cli s req = (s1, Inr mf)" and "condition_of (conditions_in mf) ''Available'' = Some available"
  shows "meshfederation_Reconcile env set_condition cli req s = (s1, None)"
proof -
  obtain cs ch where sc: "set_condition (conditions_in mf) available = (cs, ch)" by (cases "set_condition (conditions_in mf) available")
  then have "\<not> ch" using assms(2) set_condition_changed [of "conditions_in mf" available] by simp
  with sc assms(1) show ?thesis by (simp add: meshfederation_Reconcile_def)
qed

lemma Reconcile_writes:
  assumes "cc_Get cli s req = (s1, Inr mf)" and "set_condition (conditions_in mf) available = (cs, True)" and "co_Key mf = req"
    and "retries_on_conflict steps env"
    and "attempts steps (retry_attempt cli req (set_conditions set_condition cs) (cc_StatusUpdate cli))
          (s1, mf\<lparr>co_Body := (co_Body mf)\<lparr>mf_Status := \<lparr>mst_Conditions = cs\<rparr>\<rparr>\<rparr>) = ((s', saved), None)"
  shows "meshfederation_Reconcile env set_condition cli req s = (s', None)"
proof -
  have "RetryStatusUpdate env cli (mf\<lparr>co_Body := (co_Body mf)\<lparr>mf_Status := \<lparr>mst_Conditions = cs\<rparr>\<rparr>\<rparr>) (set_conditions set_condition cs) s1
      = (s', Some saved, None)"
    by (rule RetryStatusUpdate_attempts [OF assms(4)]) (use assms(3,5) in simp)
  then show ?thesis using assms(1,2) by (simp add: meshfederation_Reconcile_def)
qed



end
