(* ===== verification/Json_Codec.thy ===== *)
theory Json_Codec
  imports Json
begin

text \<open>
  Texts that are read back: a printer for JSON values, the proof that the scanner reads a printed value
  whatever follows it, and the contract of a Go type with an encoding, the locale \<open>json_codec\<close>, from which the
  contracts for pointers and slices of the type follow.
\<close>

section \<open>Printing\<close>

definition hex_digit :: "nat \<Rightarrow> char" where
  "hex_digit d = (if d < 10 then char_of (48 + d) else char_of (87 + d))"

definition escape :: "char \<Rightarrow> string" where
  "escape c =
     (if c = CHR 0x22 \<or> c = CHR 0x5C then [CHR 0x5C, c]
      else if (of_char c :: nat) < 32
      then [CHR 0x5C, CHR ''u'', CHR ''0'', CHR ''0'', hex_digit (of_char c div 16), hex_digit (of_char c mod 16)]
      else [c])"

definition escapes :: "string \<Rightarrow> string" where
  "escapes s = concat (map escape s)"

definition quote :: "string \<Rightarrow> string" where
  "quote s = CHR 0x22 # escapes s @ [CHR 0x22]"

function print_json :: "json \<Rightarrow> string" where
  "print_json JNull = ''null''"
| "print_json (JBool b) = (if b then ''true'' else ''false'')"
| "print_json (JNumber l) = l"
| "print_json (JString s) = quote s"
| "print_json (JArray vs) = CHR ''['' # strings_Join (map print_json vs) '','' @ '']''"
| "print_json (JObject kvs) =
     CHR ''{'' # strings_Join (map (\<lambda>kv. quote (fst kv) @ CHR '':'' # print_json (snd kv)) kvs) '','' @ ''}''"
  by pat_completeness auto
termination by (relation "measure size") (auto dest: size_entry size_elem)

fun valid_utf8 :: "string \<Rightarrow> bool" where
  "valid_utf8 [] = True"
| "valid_utf8 (c # s) =
     (if (of_char c :: nat) < 0x80 then valid_utf8 s
      else (case utf8_tail c s of None \<Rightarrow> False | Some n \<Rightarrow> valid_utf8 (drop n s)))"

text \<open>Values of a nesting depth up to a bound, with valid strings and natural numbers.\<close>

fun json_ok :: "nat \<Rightarrow> json \<Rightarrow> bool" where
  "json_ok n JNull = True"
| "json_ok n (JBool b) = True"
| "json_ok n (JNumber l) = (l = fmt_nat (decimal_value l))"
| "json_ok n (JString s) = valid_utf8 s"
| "json_ok 0 (JArray vs) = False"
| "json_ok (Suc n) (JArray vs) = (\<forall>v \<in> set vs. json_ok n v)"
| "json_ok 0 (JObject kvs) = False"
| "json_ok (Suc n) (JObject kvs) = (\<forall>kv \<in> set kvs. valid_utf8 (fst kv) \<and> json_ok n (snd kv))"

lemma json_ok_mono: "json_ok n v \<Longrightarrow> n \<le> m \<Longrightarrow> json_ok m v"
proof (induction n v arbitrary: m rule: json_ok.induct)
  case (6 n vs)
  then show ?case by (cases m) auto
next
  case (8 n kvs)
  then show ?case by (cases m) auto
qed auto

lemma json_ok_numeral [simp]:
  "json_ok (numeral k) (JObject kvs) = (\<forall>kv \<in> set kvs. valid_utf8 (fst kv) \<and> json_ok (pred_numeral k) (snd kv))"
  "json_ok (numeral k) (JArray vs) = (\<forall>v \<in> set vs. json_ok (pred_numeral k) v)"
  by (simp_all add: numeral_eq_Suc)

section \<open>Strings\<close>

lemma escapes_simps [simp]: "escapes [] = []" "escapes (c # s) = escape c @ escapes s" "escapes (s @ t) = escapes s @ escapes t"
  by (simp_all add: escapes_def)

lemma hex_value_digit: "d < 16 \<Longrightarrow> hex_value (hex_digit d) = Some d"
  by (auto simp: hex_value_def hex_digit_def Let_def)

lemma of_char_lt: "(of_char c :: nat) < 256"
  using of_char_mod_256 [of c, where 'a = nat] by (metis mod_less_divisor zero_less_numeral)

lemma scan_string_escape:
  "scan_string InString (escape c @ s) = map_sum id (apfst ((@) (escape c))) (scan_string InString s)"
proof -
  have "hex_value (hex_digit (of_char c div 16)) \<noteq> None" "hex_value (hex_digit (of_char c mod 16)) \<noteq> None"
    using of_char_lt [of c] less_mult_imp_div_less [of "of_char c :: nat" 16 16] by (simp_all add: hex_value_digit)
  moreover have "hex_value (CHR ''0'') \<noteq> None" by (simp add: hex_value_def)
  ultimately show ?thesis
    by (cases "scan_string InString s") (auto simp: escape_def numeral_3_eq_3 apfst_def map_prod_def)
qed

lemma scan_string_escapes: "scan_string InString (escapes s @ CHR 0x22 # rest) = Inr (escapes s, rest)"
  by (induction s) (simp_all add: scan_string_escape)

lemma unquote_escape:
  assumes "(of_char c :: nat) < 0x80"
  shows "unquote (escape c @ s) = c # unquote s"
proof -
  let ?u = "CHR ''0'' # CHR ''0'' # hex_digit (of_char c div 16) # hex_digit (of_char c mod 16) # s"
  have "hex4 ?u = Some (of_char c)" if "(of_char c :: nat) < 32"
  proof -
    have "hex_value (CHR ''0'') = Some 0" by (simp add: hex_value_def)
    moreover have "(of_char c :: nat) div 16 < 16" using that by linarith
    ultimately show ?thesis by (simp add: hex4_def hex_value_digit)
  qed
  moreover have "unquote_unit (of_char c) s = ([c], s)" if "(of_char c :: nat) < 32"
    using that by (simp add: unquote_unit_def is_surrogate_def utf8_encode_def)
  moreover have "c \<noteq> CHR 0x5C \<Longrightarrow> c \<noteq> CHR 0x22 \<Longrightarrow> unquote (c # s) = c # unquote s"
    using assms by (simp add: unquote_step_def)
  ultimately show ?thesis
    by (cases "c = CHR 0x5C \<or> c = CHR 0x22"; cases "(of_char c :: nat) < 32")
      (auto simp: escape_def unquote_step_def escaped_char_def)
qed

lemma utf8_cont_high: "utf8_cont (utf8_lo b) hi d \<Longrightarrow> 0x80 \<le> (of_char d :: nat)" "utf8_cont 0x80 hi d \<Longrightarrow> 0x80 \<le> (of_char d :: nat)"
  by (auto simp: utf8_cont_def utf8_lo_def split: if_splits)

lemma utf8_tail_high:
  assumes "utf8_tail c s = Some n"
  shows "n \<le> length s" "\<forall>d \<in> set (take n s). 0x80 \<le> (of_char d :: nat)" "utf8_tail c (take n s @ t) = Some n"
proof -
  have n: "n = utf8_need (of_char c)" "n \<le> length s"
    and tail: "case take n s of [] \<Rightarrow> False | d # ds \<Rightarrow> utf8_cont (utf8_lo (of_char c)) (utf8_hi (of_char c)) d \<and> list_all (utf8_cont 0x80 0xBF) ds"
    using assms by (auto simp: utf8_tail_def Let_def split: if_splits)
  show "n \<le> length s" by (rule n(2))
  show "\<forall>d \<in> set (take n s). 0x80 \<le> (of_char d :: nat)"
    using tail by (auto simp: list_all_iff dest: utf8_cont_high split: list.splits)
  have "take n (take n s @ t) = take n s" using n(2) by simp
  with n tail show "utf8_tail c (take n s @ t) = Some n" by (simp add: utf8_tail_def Let_def)
qed

lemma escapes_high: "\<forall>d \<in> set s. 0x80 \<le> (of_char d :: nat) \<Longrightarrow> escapes s = s"
  by (induction s) (auto simp: escape_def)

lemma unquote_escapes: "valid_utf8 s \<Longrightarrow> unquote (escapes s) = s"
proof (induction s rule: valid_utf8.induct)
  case (2 c s)
  show ?case
  proof (cases "(of_char c :: nat) < 0x80")
    case True
    with 2 show ?thesis by (simp add: unquote_escape)
  next
    case False
    with "2.prems" obtain n where n: "utf8_tail c s = Some n" "valid_utf8 (drop n s)" by (auto split: option.splits)
    note high = utf8_tail_high [OF n(1)]
    have "escapes s = take n s @ escapes (drop n s)"
      by (metis append_take_drop_id escapes_high escapes_simps(3) high(2))
    moreover have "c \<noteq> CHR 0x22" "c \<noteq> CHR 0x5C" using False by auto
    moreover have "unquote (escapes (drop n s)) = drop n s" using "2.IH"(2) False n by simp
    ultimately show ?thesis
      using False high(1,3) by (simp add: escape_def unquote_step_def)
  qed
qed simp

section \<open>Numbers\<close>

definition number_end :: "string \<Rightarrow> bool" where
  "number_end s \<longleftrightarrow> (case s of [] \<Rightarrow> True | c # r \<Rightarrow> \<not> is_digit c \<and> c \<notin> {CHR ''.'', CHR ''e'', CHR ''E''})"

lemma is_digit_fmt_nat: "\<forall>c \<in> set (fmt_nat n). is_digit c"
  using fmt_nat_range by (fastforce simp: is_digit_def)

lemma fmt_nat_Cons: "\<exists>c ds. fmt_nat n = c # ds \<and> (c = CHR ''0'' \<longrightarrow> ds = [])"
proof (induction n rule: fmt_nat.induct)
  case (1 n)
  show ?case
  proof (cases "n < 10")
    case True
    then show ?thesis by (subst fmt_nat.simps) simp
  next
    case False
    with 1 obtain c ds where ih: "fmt_nat (n div 10) = c # ds" "c = CHR ''0'' \<longrightarrow> ds = []" by blast
    have "c \<noteq> CHR ''0''"
    proof
      assume "c = CHR ''0''"
      with ih have "decimal_value (fmt_nat (n div 10)) = 0" by (simp add: decimal_value_def digit_value_def)
      with False show False by simp
    qed
    with ih False show ?thesis by (subst fmt_nat.simps) simp
  qed
qed

lemma scan_number_fmt_nat:
  assumes "number_end rest"
  shows "scan_number (fmt_nat n @ rest) = Inr (fmt_nat n, rest)"
proof -
  obtain c ds where n: "fmt_nat n = c # ds" "c = CHR ''0'' \<longrightarrow> ds = []" using fmt_nat_Cons by blast
  have digits: "is_digit c" "\<forall>d \<in> set ds. is_digit d" using is_digit_fmt_nat [of n] n(1) by auto
  have "c \<noteq> CHR ''-''" using digits(1) by (auto simp: is_digit_def)
  moreover have "takeWhile is_digit (ds @ rest) = ds" "dropWhile is_digit (ds @ rest) = rest"
    using digits(2) assms by (auto simp: number_end_def takeWhile_append dropWhile_append takeWhile_eq_Nil_iff dropWhile_eq_self_iff
        split: list.splits)
  then have "scan_int (c # ds @ rest) = Inr (c # ds, rest)"
    using n(2) digits(1) by (auto simp: scan_int_def)
  moreover have "scan_fraction rest = Inr ([], rest)" "scan_exponent rest = Inr ([], rest)"
    using assms by (auto simp: scan_fraction_def scan_exponent_def number_end_def split: list.splits)
  ultimately show ?thesis
    by (simp add: n(1) scan_number_def scan_unsigned_def)
qed

section \<open>The scanner reads what was printed\<close>

lemma expect_Cons: "\<not> is_json_space c \<Longrightarrow> expect (c # s) = Inr (c, s)"
  by (simp add: expect_def)

lemma is_json_space_False [simp]:
  "\<not> is_json_space (CHR ''['')" "\<not> is_json_space (CHR '']'')" "\<not> is_json_space (CHR ''{'')" "\<not> is_json_space (CHR ''}'')"
  "\<not> is_json_space (CHR '','')" "\<not> is_json_space (CHR '':'')" "\<not> is_json_space (CHR 0x22)"
  by (simp_all add: is_json_space_def)

lemma is_digit_not:
  "is_digit c \<Longrightarrow> \<not> is_json_space c" "is_digit c \<Longrightarrow> c \<notin> {CHR ''['', CHR '']'', CHR ''{'', CHR ''}'', CHR 0x22, CHR ''t'', CHR ''f'', CHR ''n''}"
  by (auto simp: is_digit_def is_json_space_def)

lemma print_json_Cons:
  assumes "json_ok n v"
  obtains c s where "print_json v = c # s" "\<not> is_json_space c" "c \<noteq> CHR '']''" "c \<noteq> CHR ''}''"
proof (cases v)
  case (JNumber l)
  with assms fmt_nat_Cons [of "decimal_value l"] is_digit_fmt_nat [of "decimal_value l"] obtain c ds
    where "l = c # ds" "is_digit c" by auto
  with JNumber is_digit_not that show thesis by fastforce
next
  case (JBool b)
  with that show thesis by (cases b) (auto simp: is_json_space_def)
qed (use that in \<open>auto simp: quote_def is_json_space_def split: if_splits\<close>)

lemma scan_key_quote:
  assumes "valid_utf8 k"
  shows "scan_key (quote k @ CHR '':'' # s) = Inr (k, s)"
  using assms by (simp add: scan_key_def quote_def expect_Cons scan_string_escapes unquote_escapes)

lemma scan_scalar_string:
  assumes "valid_utf8 t"
  shows "scan_scalar (CHR 0x22) (escapes t @ CHR 0x22 # rest) = Inr (JString t, rest)"
  using assms by (simp add: scan_scalar_def scan_string_escapes unquote_escapes)

lemma scan_scalar_number:
  assumes "fmt_nat n = c # ds" and "number_end rest"
  shows "scan_scalar c (ds @ rest) = Inr (JNumber (fmt_nat n), rest)"
proof -
  have "is_digit c" using assms(1) is_digit_fmt_nat [of n] by simp
  with scan_number_fmt_nat [OF assms(2), of n] is_digit_not(2) [of c] assms(1) show ?thesis
    by (auto simp: scan_scalar_def)
qed

lemma strings_Join_concat: "strings_Join (w # ws) sep = w @ concat (map ((@) sep) ws)"
  by (induction ws arbitrary: w) auto

definition reads_back :: "nat \<Rightarrow> json \<Rightarrow> bool" where
  "reads_back n v \<longleftrightarrow> (\<forall>st rest. length st + n \<le> maxNestingDepth \<longrightarrow> number_end rest \<longrightarrow>
     run_value st (print_json v @ rest) = run_end st v rest)"

lemma run_elements:
  assumes "\<forall>v \<in> set vs. reads_back n v" and "Suc (length st) + n \<le> maxNestingDepth"
  shows "run_end (InArray acc # st) w (concat (map (\<lambda>v. CHR '','' # print_json v) vs) @ CHR '']'' # rest)
    = run_end st (JArray (acc @ w # vs)) rest"
  using assms(1)
proof (induction vs arbitrary: acc w)
  case Nil
  show ?case by (simp add: expect_Cons)
next
  case (Cons v vs)
  let ?tail = "concat (map (\<lambda>v. CHR '','' # print_json v) vs) @ CHR '']'' # rest"
  have "number_end ?tail" by (cases vs) (simp_all add: number_end_def is_digit_def)
  then have "run_value (InArray (acc @ [w]) # st) (print_json v @ ?tail) = run_end (InArray (acc @ [w]) # st) v ?tail"
    using Cons.prems assms(2) by (auto simp: reads_back_def)
  with Cons.IH [of "acc @ [w]" v] Cons.prems show ?case by (simp add: expect_Cons)
qed

lemma run_entries:
  assumes "\<forall>kv \<in> set kvs. valid_utf8 (fst kv) \<and> reads_back n (snd kv)" and "Suc (length st) + n \<le> maxNestingDepth"
  shows "run_end (InObject acc k # st) w
      (concat (map (\<lambda>kv. CHR '','' # quote (fst kv) @ CHR '':'' # print_json (snd kv)) kvs) @ CHR ''}'' # rest)
    = run_end st (JObject (acc @ (k, w) # kvs)) rest"
  using assms(1)
proof (induction kvs arbitrary: acc k w)
  case Nil
  show ?case by (simp add: expect_Cons)
next
  case (Cons kv kvs)
  let ?tail = "concat (map (\<lambda>kv. CHR '','' # quote (fst kv) @ CHR '':'' # print_json (snd kv)) kvs) @ CHR ''}'' # rest"
  let ?st = "InObject (acc @ [(k, w)]) (fst kv) # st"
  have "number_end ?tail" by (cases kvs) (simp_all add: number_end_def is_digit_def)
  then have "run_value ?st (print_json (snd kv) @ ?tail) = run_end ?st (snd kv) ?tail"
    using Cons.prems assms(2) by (auto simp: reads_back_def)
  with Cons.IH [of "acc @ [(k, w)]" "fst kv" "snd kv"] Cons.prems show ?case
    by (simp add: expect_Cons scan_key_quote)
qed

lemma run_array:
  assumes "\<forall>v \<in> set vs. json_ok n v \<and> reads_back n v" and "Suc (length st) + n \<le> maxNestingDepth"
  shows "run_value st (print_json (JArray vs) @ rest) = run_end st (JArray vs) rest"
proof (cases vs)
  case Nil
  with assms(2) show ?thesis by (simp add: run_value.simps expect_Cons)
next
  case (Cons v vs')
  let ?tail = "concat (map (\<lambda>v. CHR '','' # print_json v) vs') @ CHR '']'' # rest"
  obtain c s where v: "print_json v = c # s" "\<not> is_json_space c" "c \<noteq> CHR '']''"
    using assms(1) Cons print_json_Cons [of n v] by (metis list.set_intros(1))
  have printed: "print_json (JArray vs) @ rest = CHR ''['' # print_json v @ ?tail"
    using Cons by (simp add: strings_Join_concat comp_def)
  have "number_end ?tail" by (cases vs') (simp_all add: number_end_def is_digit_def)
  then have "run_value (InArray [] # st) (print_json v @ ?tail) = run_end (InArray [] # st) v ?tail"
    using assms Cons by (auto simp: reads_back_def)
  also have "\<dots> = run_end st (JArray vs) rest"
    using run_elements [of vs' n st "[]" v rest] assms Cons by simp
  finally show ?thesis
    unfolding printed using assms(2) v by (subst run_value.simps) (simp add: expect_Cons)
qed

lemma run_value_key:
  assumes "valid_utf8 k" and "length st < maxNestingDepth"
  shows "run_value st (CHR ''{'' # quote k @ CHR '':'' # t) = run_value (InObject [] k # st) t"
proof -
  obtain s where "expect (quote k @ CHR '':'' # t) = Inr (CHR 0x22, s)"
    by (simp add: quote_def expect_Cons)
  with assms scan_key_quote [OF assms(1)] show ?thesis
    by (subst run_value.simps) (simp add: expect_Cons)
qed

lemma run_object:
  assumes "\<forall>kv \<in> set kvs. valid_utf8 (fst kv) \<and> reads_back n (snd kv)" and "Suc (length st) + n \<le> maxNestingDepth"
  shows "run_value st (print_json (JObject kvs) @ rest) = run_end st (JObject kvs) rest"
proof (cases kvs)
  case Nil
  with assms(2) show ?thesis by (simp add: run_value.simps expect_Cons)
next
  case (Cons kv kvs')
  let ?tail = "concat (map (\<lambda>kv. CHR '','' # quote (fst kv) @ CHR '':'' # print_json (snd kv)) kvs') @ CHR ''}'' # rest"
  have printed: "print_json (JObject kvs) @ rest = CHR ''{'' # quote (fst kv) @ CHR '':'' # print_json (snd kv) @ ?tail"
    using Cons by (simp add: strings_Join_concat comp_def)
  have "number_end ?tail" by (cases kvs') (simp_all add: number_end_def is_digit_def)
  then have "run_value (InObject [] (fst kv) # st) (print_json (snd kv) @ ?tail) = run_end (InObject [] (fst kv) # st) (snd kv) ?tail"
    using assms Cons by (auto simp: reads_back_def)
  also have "\<dots> = run_end st (JObject kvs) rest"
    using run_entries [of kvs' n st "[]" "fst kv" "snd kv" rest] assms Cons by simp
  finally have inner: "run_value (InObject [] (fst kv) # st) (print_json (snd kv) @ ?tail) = run_end st (JObject kvs) rest" .
  have "valid_utf8 (fst kv)" using assms(1) Cons by simp
  then show ?thesis
    unfolding printed inner [symmetric] using assms(2) by (intro run_value_key) simp_all
qed

lemma reads_back: "json_ok n v \<Longrightarrow> reads_back n v"
proof (induction n v rule: json_ok.induct)
  case (3 n l)
  obtain c ds where l: "fmt_nat (decimal_value l) = c # ds" using fmt_nat_Cons by blast
  then have "is_digit c" using is_digit_fmt_nat [of "decimal_value l"] by simp
  with 3 l is_digit_not [of c] show ?case
    by (auto simp: reads_back_def run_value.simps expect_Cons scan_scalar_number [OF l])
next
  case (4 n s)
  then show ?case by (simp add: reads_back_def run_value.simps quote_def expect_Cons scan_scalar_string)
next
  case (6 n vs)
  then show ?case using run_array [of vs n] by (simp add: reads_back_def)
next
  case (8 n kvs)
  then show ?case using run_object [of kvs n] by (simp add: reads_back_def)
qed (auto simp: reads_back_def run_value.simps expect_def is_json_space_def scan_scalar_def)

text \<open>An object is read back whatever follows it, and nothing of what follows is looked at.\<close>

lemma readValue_object:
  assumes "json_ok n (JObject kvs)" and "n \<le> maxNestingDepth"
  shows "readValue (print_json (JObject kvs) @ rest) = Inr (JObject kvs, rest)"
proof (cases n)
  case (Suc m)
  with assms have "run_value [] (print_json (JObject kvs) @ rest) = Inr (JObject kvs, rest)"
    using run_object [of kvs m "[]" rest] reads_back by simp
  then show ?thesis by (simp add: readValue_def)
qed (use assms in simp)

section \<open>Types with an encoding\<close>

named_theorems codec \<open>the laws of the types with an encoding\<close>

locale json_codec =
  fixes t :: ty
    and build :: "json list \<Rightarrow> 'a"
    and encode :: "'a \<Rightarrow> json"
    and valid :: "'a \<Rightarrow> bool"
    and depth :: nat
  assumes encode_well_typed: "valid x \<Longrightarrow> well_typed t (encode x)"
    and encode_ok: "valid x \<Longrightarrow> json_ok depth (encode x)"
    and build_encode: "valid x \<Longrightarrow> build [encode x] = x"
    and encode_not_null: "encode x \<noteq> JNull"
begin

lemma ptr_encode: "valid x \<Longrightarrow> build_ptr build [encode x] = Some x"
  using encode_not_null by (simp add: build_ptr_def since_def build_encode)

lemma encode_ok_mono: "valid x \<Longrightarrow> depth \<le> n \<Longrightarrow> json_ok n (encode x)"
  using encode_ok json_ok_mono by blast

lemmas laws [codec] = encode_well_typed encode_ok_mono build_encode ptr_encode

lemma slice: "json_codec (TSlice t) (build_slice build) (\<lambda>xs. JArray (map encode xs)) (\<lambda>xs. \<forall>x \<in> set xs. valid x) (Suc depth)"
proof
  fix xs
  assume valid: "\<forall>x \<in> set xs. valid x"
  show "well_typed (TSlice t) (JArray (map encode xs))" using valid encode_well_typed by auto
  show "json_ok (Suc depth) (JArray (map encode xs))" using valid encode_ok by auto
  show "build_slice build [JArray (map encode xs)] = xs"
    using valid build_encode by (auto simp: build_slice_def since_def intro!: nth_equalityI)
qed simp

lemma Decode_print:
  assumes "valid x" and "encode x = JObject kvs" and "depth \<le> maxNestingDepth"
  shows "Decode t build (print_json (encode x) @ rest) = Inr x"
  unfolding Decode_Inr_iff
  using assms encode_well_typed encode_ok build_encode readValue_object [of depth kvs rest] by metis

end

lemma build_string_single [simp]: "build_string [JString s] = s"
  by (simp add: build_string_def)

interpretation str: json_codec TString build_string JString valid_utf8 0
  by unfold_locales (simp_all add: build_string_def)

lemma is_uint32_fmt [simp]: "is_uint32 (fmt_uint32 w)"
  using unsigned_less [of w] is_digit_fmt_nat [of "unat w"] by (simp add: is_uint32_def fmt_uint32_def list_all_iff)

lemma decimal_value_fmt_uint32 [simp]: "decimal_value (fmt_uint32 w) = unat w" "fmt_nat (unat w) = fmt_uint32 w"
  by (simp_all add: fmt_uint32_def)

interpretation uint32: json_codec TUint32 build_uint32 "\<lambda>w. JNumber (fmt_uint32 w)" "\<lambda>_. True" 0
  by unfold_locales (simp_all add: build_uint32_def)

text \<open>A label map is encoded with its keys in order, as \<open>json.Marshal\<close> does.\<close>

definition encode_map :: "(string \<rightharpoonup> string) \<Rightarrow> json" where
  "encode_map m = JObject (map (\<lambda>k. (k, JString (the (m k)))) (sorted_list_of_set (dom m)))"

definition valid_map :: "(string \<rightharpoonup> string) \<Rightarrow> bool" where
  "valid_map m \<longleftrightarrow> finite (dom m) \<and> (\<forall>k v. m k = Some v \<longrightarrow> valid_utf8 k \<and> valid_utf8 v)"

lemma foldl_map_upd: "foldl (\<lambda>m (k, v). m(k \<mapsto> f v)) m0 (map (\<lambda>k. (k, g k)) ks) = (\<lambda>k. if k \<in> set ks then Some (f (g k)) else m0 k)"
  by (induction ks arbitrary: m0) (auto simp: fun_eq_iff)

interpretation label_map: json_codec TMap build_map encode_map valid_map 1
proof unfold_locales
  fix m :: "string \<rightharpoonup> string"
  assume m: "valid_map m"
  then have fin: "set (sorted_list_of_set (dom m)) = dom m" by (simp add: valid_map_def)
  show "well_typed TMap (encode_map m)" by (auto simp: well_typed_TMap encode_map_def)
  show "json_ok 1 (encode_map m)" using m by (auto simp: encode_map_def valid_map_def)
  have "build_map [encode_map m] = (\<lambda>k. if k \<in> dom m then Some (the (m k)) else None)"
    by (simp add: build_map_def encode_map_def since_def foldl_map_upd fin build_string_single cong: if_cong)
  also have "\<dots> = m" by (auto simp: fun_eq_iff dom_def)
  finally show "build_map [encode_map m] = m" .
qed (simp add: encode_map_def)

end
