(* ===== verification/Parse_Args.thy ===== *)
theory Parse_Args
  imports Json_Codec Samples
begin

text \<open>
  The command line as the program reads it, \<open>internal/pkg/config/parse.go\<close>: \<open>ParseArgs\<close> on the texts of the
  three arguments. The field names and types of the structs are the ones of their tags in
  \<open>federation_config.go\<close>; what a decoded value gives is written out field by field.
\<close>

section \<open>The tags of the structs\<close>

fun field_names :: "ty \<Rightarrow> string list" where
  "field_names (TStruct fs) = map fst fs"
| "field_names _ = []"

abbreviation field :: "ty \<Rightarrow> string \<Rightarrow> json list \<Rightarrow> json list" where
  "field t \<equiv> field_values (field_names t)"

definition GatewayPort_type :: ty where
  "GatewayPort_type = TStruct [(''name'', TString), (''number'', TUint32)]"

definition LocalGateway_type :: ty where
  "LocalGateway_type = TStruct [(''selector'', TMap), (''port'', TPtr GatewayPort_type)]"

definition Gateways_type :: ty where
  "Gateways_type = TStruct [(''ingress'', LocalGateway_type)]"

definition ControlPlane_type :: ty where
  "ControlPlane_type = TStruct [(''namespace'', TString)]"

definition Local_type :: ty where
  "Local_type = TStruct [(''name'', TString), (''controlPlane'', ControlPlane_type), (''gateways'', Gateways_type), (''ingressType'', TString)]"

definition Remote_type :: ty where
  "Remote_type = TStruct [(''name'', TString), (''addresses'', TSlice TString), (''ingressType'', TString), (''port'', TPtr TUint32), (''network'', TString)]"

definition MeshPeers_type :: ty where
  "MeshPeers_type = TStruct [(''local'', Local_type), (''remotes'', TSlice Remote_type)]"

definition MatchExpressions_type :: ty where
  "MatchExpressions_type = TStruct [(''key'', TString), (''operator'', TString), (''values'', TSlice TString)]"

definition LabelSelectors_type :: ty where
  "LabelSelectors_type = TStruct [(''matchLabels'', TMap), (''matchExpressions'', TSlice MatchExpressions_type)]"

definition Rules_type :: ty where
  "Rules_type = TStruct [(''type'', TString), (''labelSelectors'', TSlice LabelSelectors_type)]"

definition ExportedServiceSet_type :: ty where
  "ExportedServiceSet_type = TStruct [(''rules'', TSlice Rules_type)]"

definition ImportedServiceSet_type :: ty where
  "ImportedServiceSet_type = TStruct [(''rules'', TSlice Rules_type)]"

section \<open>The decoded structs\<close>

definition build_GatewayPort :: "json list \<Rightarrow> GatewayPort" where
  "build_GatewayPort vs = \<lparr>gp_Name = build_string (field GatewayPort_type ''name'' vs),
     gp_Number = build_uint32 (field GatewayPort_type ''number'' vs)\<rparr>"

definition build_LocalGateway :: "json list \<Rightarrow> LocalGateway" where
  "build_LocalGateway vs = \<lparr>lg_Selector = build_map (field LocalGateway_type ''selector'' vs),
     lg_Port = build_ptr build_GatewayPort (field LocalGateway_type ''port'' vs)\<rparr>"

definition build_Gateways :: "json list \<Rightarrow> Gateways" where
  "build_Gateways vs = \<lparr>gws_Ingress = build_LocalGateway (field Gateways_type ''ingress'' vs)\<rparr>"

definition build_ControlPlane :: "json list \<Rightarrow> ControlPlane" where
  "build_ControlPlane vs = \<lparr>cp_Namespace = build_string (field ControlPlane_type ''namespace'' vs)\<rparr>"

definition build_Local :: "json list \<Rightarrow> Local" where
  "build_Local vs = \<lparr>local_Name = build_string (field Local_type ''name'' vs),
     local_ControlPlane = build_ControlPlane (field Local_type ''controlPlane'' vs),
     local_Gateways = build_Gateways (field Local_type ''gateways'' vs),
     local_IngressType = build_string (field Local_type ''ingressType'' vs)\<rparr>"

definition build_Remote :: "json list \<Rightarrow> Remote" where
  "build_Remote vs = \<lparr>remote_Name = build_string (field Remote_type ''name'' vs),
     remote_Addresses = build_slice build_string (field Remote_type ''addresses'' vs),
     remote_IngressType = build_string (field Remote_type ''ingressType'' vs),
     remote_Port = build_ptr build_uint32 (field Remote_type ''port'' vs),
     remote_Network = build_string (field Remote_type ''network'' vs)\<rparr>"

definition build_MeshPeers :: "json list \<Rightarrow> MeshPeers" where
  "build_MeshPeers vs = \<lparr>mp_Local = build_Local (field MeshPeers_type ''local'' vs),
     mp_Remotes = build_slice build_Remote (field MeshPeers_type ''remotes'' vs)\<rparr>"

definition build_MatchExpressions :: "json list \<Rightarrow> MatchExpressions" where
  "build_MatchExpressions vs = \<lparr>me_Key = build_string (field MatchExpressions_type ''key'' vs),
     me_Operator = build_string (field MatchExpressions_type ''operator'' vs),
     me_Values = build_slice build_string (field MatchExpressions_type ''values'' vs)\<rparr>"

definition build_LabelSelectors :: "json list \<Rightarrow> LabelSelectors" where
  "build_LabelSelectors vs = \<lparr>ls_MatchLabels = build_map (field LabelSelectors_type ''matchLabels'' vs),
     ls_MatchExpressions = build_slice build_MatchExpressions (field LabelSelectors_type ''matchExpressions'' vs)\<rparr>"

definition build_Rules :: "json list \<Rightarrow> Rules" where
  "build_Rules vs = \<lparr>rules_Type = build_string (field Rules_type ''type'' vs),
     rules_LabelSelectors = build_slice build_LabelSelectors (field Rules_type ''labelSelectors'' vs)\<rparr>"

definition build_ExportedServiceSet :: "json list \<Rightarrow> ExportedServiceSet" where
  "build_ExportedServiceSet vs = \<lparr>ess_Rules = build_slice build_Rules (field ExportedServiceSet_type ''rules'' vs)\<rparr>"

definition build_ImportedServiceSet :: "json list \<Rightarrow> ImportedServiceSet" where
  "build_ImportedServiceSet vs = \<lparr>iss_Rules = build_slice build_Rules (field ImportedServiceSet_type ''rules'' vs)\<rparr>"

section \<open>parse.go\<close>

definition unmarshalJSON :: "ty \<Rightarrow> (json list \<Rightarrow> 'a) \<Rightarrow> string \<Rightarrow> go_error + 'a" where
  "unmarshalJSON t build input = (case Decode t build input of
       Inl err \<Rightarrow> Inl (Wrap ''failed to unmarshal JSON'' err)
     | Inr out \<Rightarrow> Inr out)"

definition ParseArgs :: "string \<Rightarrow> string \<Rightarrow> string \<Rightarrow> go_error + Federation" where
  "ParseArgs meshPeers exportedServiceSet importedServiceSet =
     (case unmarshalJSON MeshPeers_type build_MeshPeers meshPeers of
        Inl err \<Rightarrow> Inl (Wrap ''failed to unmarshal mesh peers'' err)
      | Inr peers \<Rightarrow>
          (case unmarshalJSON ExportedServiceSet_type build_ExportedServiceSet exportedServiceSet of
             Inl err \<Rightarrow> Inl (Wrap ''failed to unmarshal exported services'' err)
           | Inr exported \<Rightarrow>
               (case (if importedServiceSet \<noteq> [] then unmarshalJSON ImportedServiceSet_type build_ImportedServiceSet importedServiceSet
                      else Inr \<lparr>iss_Rules = []\<rparr>) of
                  Inl err \<Rightarrow> Inl (Wrap ''failed to unmarshal imported services'' err)
                | Inr imported \<Rightarrow> Inr \<lparr>fed_namespace = [], fed_MeshPeers = peers, fed_ExportedServiceSet = exported,
                                    fed_ImportedServiceSet = imported\<rparr>)))"

section \<open>Encodings\<close>

text \<open>
  The JSON form of a configuration, as \<open>json.Marshal\<close> gives it and the chart passes it, and the
  configurations that have one: finite label maps and valid strings.
\<close>

abbreviation encode_uint32 :: "32 word \<Rightarrow> json" where
  "encode_uint32 w \<equiv> JNumber (fmt_uint32 w)"

abbreviation encode_list :: "('a \<Rightarrow> json) \<Rightarrow> 'a list \<Rightarrow> json" where
  "encode_list encode xs \<equiv> JArray (map encode xs)"

definition encode_GatewayPort :: "GatewayPort \<Rightarrow> json" where
  "encode_GatewayPort x = JObject ([(''name'', JString (gp_Name x)), (''number'', encode_uint32 (gp_Number x))])"

definition valid_GatewayPort :: "GatewayPort \<Rightarrow> bool" where
  "valid_GatewayPort x \<longleftrightarrow> valid_utf8 (gp_Name x)"

definition encode_LocalGateway :: "LocalGateway \<Rightarrow> json" where
  "encode_LocalGateway x = JObject ([(''selector'', encode_map (lg_Selector x))]
     @ (case lg_Port x of None \<Rightarrow> [] | Some p \<Rightarrow> [(''port'', encode_GatewayPort p)]))"

definition valid_LocalGateway :: "LocalGateway \<Rightarrow> bool" where
  "valid_LocalGateway x \<longleftrightarrow> valid_map (lg_Selector x) \<and> (\<forall>p. lg_Port x = Some p \<longrightarrow> valid_GatewayPort p)"

definition encode_Gateways :: "Gateways \<Rightarrow> json" where
  "encode_Gateways x = JObject ([(''ingress'', encode_LocalGateway (gws_Ingress x))])"

definition valid_Gateways :: "Gateways \<Rightarrow> bool" where
  "valid_Gateways x \<longleftrightarrow> valid_LocalGateway (gws_Ingress x)"

definition encode_ControlPlane :: "ControlPlane \<Rightarrow> json" where
  "encode_ControlPlane x = JObject ([(''namespace'', JString (cp_Namespace x))])"

definition valid_ControlPlane :: "ControlPlane \<Rightarrow> bool" where
  "valid_ControlPlane x \<longleftrightarrow> valid_utf8 (cp_Namespace x)"

definition encode_Local :: "Local \<Rightarrow> json" where
  "encode_Local x = JObject ([(''name'', JString (local_Name x)), (''controlPlane'', encode_ControlPlane (local_ControlPlane x)), (''gateways'', encode_Gateways (local_Gateways x)), (''ingressType'', JString (local_IngressType x))])"

definition valid_Local :: "Local \<Rightarrow> bool" where
  "valid_Local x \<longleftrightarrow> valid_utf8 (local_Name x) \<and> valid_ControlPlane (local_ControlPlane x) \<and> valid_Gateways (local_Gateways x) \<and> valid_utf8 (local_IngressType x)"

definition encode_Remote :: "Remote \<Rightarrow> json" where
  "encode_Remote x = JObject ([(''name'', JString (remote_Name x)), (''addresses'', encode_list JString (remote_Addresses x)), (''ingressType'', JString (remote_IngressType x))]
     @ (case remote_Port x of None \<Rightarrow> [] | Some p \<Rightarrow> [(''port'', encode_uint32 p)])
     @ [(''network'', JString (remote_Network x))])"

definition valid_Remote :: "Remote \<Rightarrow> bool" where
  "valid_Remote x \<longleftrightarrow> valid_utf8 (remote_Name x) \<and> (\<forall>y \<in> set (remote_Addresses x). valid_utf8 y) \<and> valid_utf8 (remote_IngressType x) \<and> valid_utf8 (remote_Network x)"

definition encode_MeshPeers :: "MeshPeers \<Rightarrow> json" where
  "encode_MeshPeers x = JObject ([(''local'', encode_Local (mp_Local x)), (''remotes'', encode_list encode_Remote (mp_Remotes x))])"

definition valid_MeshPeers :: "MeshPeers \<Rightarrow> bool" where
  "valid_MeshPeers x \<longleftrightarrow> valid_Local (mp_Local x) \<and> (\<forall>y \<in> set (mp_Remotes x). valid_Remote y)"

definition encode_MatchExpressions :: "MatchExpressions \<Rightarrow> json" where
  "encode_MatchExpressions x = JObject ([(''key'', JString (me_Key x)), (''operator'', JString (me_Operator x)), (''values'', encode_list JString (me_Values x))])"

definition valid_MatchExpressions :: "MatchExpressions \<Rightarrow> bool" where
  "valid_MatchExpressions x \<longleftrightarrow> valid_utf8 (me_Key x) \<and> valid_utf8 (me_Operator x) \<and> (\<forall>y \<in> set (me_Values x). valid_utf8 y)"

definition encode_LabelSelectors :: "LabelSelectors \<Rightarrow> json" where
  "encode_LabelSelectors x = JObject ((if ls_MatchLabels x = Map.empty then [] else [(''matchLabels'', encode_map (ls_MatchLabels x))])
     @ (if ls_MatchExpressions x = [] then [] else [(''matchExpressions'', encode_list encode_MatchExpressions (ls_MatchExpressions x))]))"

definition valid_LabelSelectors :: "LabelSelectors \<Rightarrow> bool" where
  "valid_LabelSelectors x \<longleftrightarrow> valid_map (ls_MatchLabels x) \<and> (\<forall>y \<in> set (ls_MatchExpressions x). valid_MatchExpressions y)"

definition encode_Rules :: "Rules \<Rightarrow> json" where
  "encode_Rules x = JObject ([(''type'', JString (rules_Type x)), (''labelSelectors'', encode_list encode_LabelSelectors (rules_LabelSelectors x))])"

definition valid_Rules :: "Rules \<Rightarrow> bool" where
  "valid_Rules x \<longleftrightarrow> valid_utf8 (rules_Type x) \<and> (\<forall>y \<in> set (rules_LabelSelectors x). valid_LabelSelectors y)"

definition encode_ExportedServiceSet :: "ExportedServiceSet \<Rightarrow> json" where
  "encode_ExportedServiceSet x = JObject ([(''rules'', encode_list encode_Rules (ess_Rules x))])"

definition valid_ExportedServiceSet :: "ExportedServiceSet \<Rightarrow> bool" where
  "valid_ExportedServiceSet x \<longleftrightarrow> (\<forall>y \<in> set (ess_Rules x). valid_Rules y)"

definition encode_ImportedServiceSet :: "ImportedServiceSet \<Rightarrow> json" where
  "encode_ImportedServiceSet x = JObject ([(''rules'', encode_list encode_Rules (iss_Rules x))])"

definition valid_ImportedServiceSet :: "ImportedServiceSet \<Rightarrow> bool" where
  "valid_ImportedServiceSet x \<longleftrightarrow> (\<forall>y \<in> set (iss_Rules x). valid_Rules y)"

section \<open>The contracts of the structs\<close>

lemmas struct_simps = field_values_def resolve_field_def

lemma build_ptr_Nil [simp]: "build_ptr build [] = None"
  by (simp add: build_ptr_def since_def)

lemma build_slice_Nil [simp]: "build_slice build [] = []"
  by (simp add: build_slice_def since_def)

lemma build_map_Nil [simp]: "build_map [] = Map.empty"
  by (simp add: build_map_def since_def)

interpretation strings: json_codec "TSlice TString" "build_slice build_string" "encode_list JString" "\<lambda>xs. \<forall>x \<in> set xs. valid_utf8 x" 1
  using str.slice by simp

interpretation gateway_port: json_codec GatewayPort_type build_GatewayPort encode_GatewayPort valid_GatewayPort 1
  by unfold_locales (auto simp: GatewayPort_type_def build_GatewayPort_def encode_GatewayPort_def valid_GatewayPort_def struct_simps codec split: option.splits)

interpretation local_gateway: json_codec LocalGateway_type build_LocalGateway encode_LocalGateway valid_LocalGateway 2
  by unfold_locales (auto simp: LocalGateway_type_def build_LocalGateway_def encode_LocalGateway_def valid_LocalGateway_def struct_simps codec split: option.splits)

interpretation gateways: json_codec Gateways_type build_Gateways encode_Gateways valid_Gateways 3
  by unfold_locales (auto simp: Gateways_type_def build_Gateways_def encode_Gateways_def valid_Gateways_def struct_simps codec split: option.splits)

interpretation control_plane: json_codec ControlPlane_type build_ControlPlane encode_ControlPlane valid_ControlPlane 1
  by unfold_locales (auto simp: ControlPlane_type_def build_ControlPlane_def encode_ControlPlane_def valid_ControlPlane_def struct_simps codec split: option.splits)

interpretation local_peer: json_codec Local_type build_Local encode_Local valid_Local 4
  by unfold_locales (auto simp: Local_type_def build_Local_def encode_Local_def valid_Local_def struct_simps codec split: option.splits)

interpretation remote_peer: json_codec Remote_type build_Remote encode_Remote valid_Remote 2
  by unfold_locales (auto simp: Remote_type_def build_Remote_def encode_Remote_def valid_Remote_def struct_simps codec split: option.splits)

interpretation remote_peers: json_codec "TSlice Remote_type" "build_slice build_Remote" "encode_list encode_Remote" "\<lambda>xs. \<forall>x \<in> set xs. valid_Remote x" 3
  using remote_peer.slice by simp

interpretation mesh_peers: json_codec MeshPeers_type build_MeshPeers encode_MeshPeers valid_MeshPeers 5
  by unfold_locales (auto simp: MeshPeers_type_def build_MeshPeers_def encode_MeshPeers_def valid_MeshPeers_def struct_simps codec split: option.splits)

interpretation match_expressions: json_codec MatchExpressions_type build_MatchExpressions encode_MatchExpressions valid_MatchExpressions 2
  by unfold_locales (auto simp: MatchExpressions_type_def build_MatchExpressions_def encode_MatchExpressions_def valid_MatchExpressions_def struct_simps codec split: option.splits)

interpretation match_expression_list: json_codec "TSlice MatchExpressions_type" "build_slice build_MatchExpressions" "encode_list encode_MatchExpressions" "\<lambda>xs. \<forall>x \<in> set xs. valid_MatchExpressions x" 3
  using match_expressions.slice by simp

interpretation label_selectors: json_codec LabelSelectors_type build_LabelSelectors encode_LabelSelectors valid_LabelSelectors 4
  by unfold_locales (auto simp: LabelSelectors_type_def build_LabelSelectors_def encode_LabelSelectors_def valid_LabelSelectors_def struct_simps codec split: option.splits)

interpretation label_selector_list: json_codec "TSlice LabelSelectors_type" "build_slice build_LabelSelectors" "encode_list encode_LabelSelectors" "\<lambda>xs. \<forall>x \<in> set xs. valid_LabelSelectors x" 5
  using label_selectors.slice by simp

interpretation rule: json_codec Rules_type build_Rules encode_Rules valid_Rules 6
  by unfold_locales (auto simp: Rules_type_def build_Rules_def encode_Rules_def valid_Rules_def struct_simps codec split: option.splits)

interpretation rule_list: json_codec "TSlice Rules_type" "build_slice build_Rules" "encode_list encode_Rules" "\<lambda>xs. \<forall>x \<in> set xs. valid_Rules x" 7
  using rule.slice by simp

interpretation exported_service_set: json_codec ExportedServiceSet_type build_ExportedServiceSet encode_ExportedServiceSet valid_ExportedServiceSet 8
  by unfold_locales (auto simp: ExportedServiceSet_type_def build_ExportedServiceSet_def encode_ExportedServiceSet_def valid_ExportedServiceSet_def struct_simps codec split: option.splits)

interpretation imported_service_set: json_codec ImportedServiceSet_type build_ImportedServiceSet encode_ImportedServiceSet valid_ImportedServiceSet 8
  by unfold_locales (auto simp: ImportedServiceSet_type_def build_ImportedServiceSet_def encode_ImportedServiceSet_def valid_ImportedServiceSet_def struct_simps codec split: option.splits)

section \<open>Lemmas\<close>

lemma unmarshalJSON_Inr_iff:
  "unmarshalJSON t build s = Inr x \<longleftrightarrow> (\<exists>v rest. readValue s = Inr (v, rest) \<and> well_typed t v \<and> x = build [v])"
proof -
  have "unmarshalJSON t build s = Inr x \<longleftrightarrow> Decode t build s = Inr x"
    by (auto simp: unmarshalJSON_def split: sum.splits)
  then show ?thesis by (simp only: Decode_Inr_iff)
qed

lemma ParseArgs_Inr_iff:
  "ParseArgs m e i = Inr cfg \<longleftrightarrow> (\<exists>peers exported imported.
     unmarshalJSON MeshPeers_type build_MeshPeers m = Inr peers
   \<and> unmarshalJSON ExportedServiceSet_type build_ExportedServiceSet e = Inr exported
   \<and> (if i = [] then imported = \<lparr>iss_Rules = []\<rparr> else unmarshalJSON ImportedServiceSet_type build_ImportedServiceSet i = Inr imported)
   \<and> cfg = \<lparr>fed_namespace = [], fed_MeshPeers = peers, fed_ExportedServiceSet = exported, fed_ImportedServiceSet = imported\<rparr>)"
  by (auto simp: ParseArgs_def split: sum.splits)

lemma unmarshal_printed:
  "valid_MeshPeers peers \<Longrightarrow>
     unmarshalJSON MeshPeers_type build_MeshPeers (print_json (encode_MeshPeers peers) @ rest) = Inr peers"
  "valid_ExportedServiceSet exported \<Longrightarrow>
     unmarshalJSON ExportedServiceSet_type build_ExportedServiceSet (print_json (encode_ExportedServiceSet exported) @ rest) = Inr exported"
  "valid_ImportedServiceSet imported \<Longrightarrow>
     unmarshalJSON ImportedServiceSet_type build_ImportedServiceSet (print_json (encode_ImportedServiceSet imported) @ rest) = Inr imported"
  using mesh_peers.Decode_print [OF _ encode_MeshPeers_def] exported_service_set.Decode_print [OF _ encode_ExportedServiceSet_def]
    imported_service_set.Decode_print [OF _ encode_ImportedServiceSet_def]
  by (simp_all add: unmarshalJSON_def maxNestingDepth_def)

lemma print_imported_not_Nil: "print_json (encode_ImportedServiceSet imported) @ rest \<noteq> []"
  by (simp add: encode_ImportedServiceSet_def)

section \<open>Properties\<close>

text \<open>
  C15: a configuration survives the command line. Printed as JSON, with finite label maps and valid strings,
  it is what \<open>ParseArgs\<close> returns, ports, optional fields and selectors included; an empty third argument stands for no
  import rules. What follows the first JSON value of an argument is never looked at: any
  text may follow it.
\<close>

theorem ParseArgs_roundtrip:
  assumes "valid_MeshPeers peers" and "valid_ExportedServiceSet exported" and "valid_ImportedServiceSet imported"
  shows "ParseArgs (print_json (encode_MeshPeers peers) @ rest) (print_json (encode_ExportedServiceSet exported) @ rest')
      (print_json (encode_ImportedServiceSet imported) @ rest'')
    = Inr \<lparr>fed_namespace = [], fed_MeshPeers = peers, fed_ExportedServiceSet = exported, fed_ImportedServiceSet = imported\<rparr>
    \<and> ParseArgs (print_json (encode_MeshPeers peers) @ rest) (print_json (encode_ExportedServiceSet exported) @ rest') []
    = Inr \<lparr>fed_namespace = [], fed_MeshPeers = peers, fed_ExportedServiceSet = exported, fed_ImportedServiceSet = \<lparr>iss_Rules = []\<rparr>\<rparr>"
  by (simp only: ParseArgs_Inr_iff unmarshal_printed(1) [OF assms(1)] unmarshal_printed(2) [OF assms(2)] unmarshal_printed(3) [OF assms(3)]
      print_imported_not_Nil if_False if_True) simp

lemma valid_samples:
  "valid_MeshPeers (fed_MeshPeers (east_cfg OpenShiftRouter [west, central]))"
  "valid_MeshPeers (fed_MeshPeers (east_cfg OpenShiftRouter [west]))"
  "valid_ExportedServiceSet (fed_ExportedServiceSet (east_cfg ingress rs))"
  by (simp_all add: sample_defs OpenShiftRouter_def valid_MeshPeers_def valid_Local_def valid_Remote_def valid_ControlPlane_def
      valid_Gateways_def valid_LocalGateway_def valid_GatewayPort_def valid_ExportedServiceSet_def valid_Rules_def
      valid_LabelSelectors_def valid_map_def)

theorem ParseArgs_roundtrip_witness:
  "ParseArgs (print_json (encode_MeshPeers (fed_MeshPeers (east_cfg OpenShiftRouter [west, central]))) @ ''}, and anything else'')
      (print_json (encode_ExportedServiceSet (fed_ExportedServiceSet (east_cfg OpenShiftRouter [])))) []
    = Inr (east_cfg OpenShiftRouter [west, central]\<lparr>fed_namespace := []\<rparr>)"
proof -
  have "valid_ImportedServiceSet \<lparr>iss_Rules = []\<rparr>" by (simp add: valid_ImportedServiceSet_def)
  from ParseArgs_roundtrip [OF valid_samples(1,3) this, of "''}, and anything else''" OpenShiftRouter "[]" "[]" "[]"]
  show ?thesis by (simp add: east_cfg_def)
qed


text \<open>The mesh peers with one remote, whose port is written as any natural number.\<close>

definition remote_text :: "Local \<Rightarrow> Remote \<Rightarrow> nat \<Rightarrow> string" where
  "remote_text l r n = print_json (JObject [(''local'', encode_Local l), (''remotes'', JArray [JObject
     [(''name'', JString (remote_Name r)), (''addresses'', encode_list JString (remote_Addresses r)),
      (''ingressType'', JString (remote_IngressType r)), (''port'', JNumber (fmt_nat n)), (''network'', JString (remote_Network r))]])])"

lemma is_uint32_fmt_nat [simp]: "is_uint32 (fmt_nat n) \<longleftrightarrow> n < 2 ^ 32"
  using is_digit_fmt_nat [of n] by (simp add: is_uint32_def list_all_iff)

lemma Decode_remote_text:
  assumes "valid_Local l" and "valid_Remote r"
  shows "Decode MeshPeers_type build_MeshPeers (remote_text l r n) =
    (if n < 2 ^ 32 then Inr \<lparr>mp_Local = l, mp_Remotes = [r\<lparr>remote_Port := Some (of_nat n)\<rparr>]\<rparr>
     else Inl (UnmarshalTypeError (''number '' @ fmt_nat n)))"
proof -
  let ?r = "JObject [(''name'', JString (remote_Name r)), (''addresses'', encode_list JString (remote_Addresses r)),
      (''ingressType'', JString (remote_IngressType r)), (''port'', JNumber (fmt_nat n)), (''network'', JString (remote_Network r))]"
  let ?kvs = "[(''local'', encode_Local l), (''remotes'', JArray [?r])]"
  have "json_ok 5 (JObject ?kvs)"
    using assms by (simp add: codec valid_Remote_def)
  from readValue_object [OF this, of "[]"] have read: "readValue (remote_text l r n) = Inr (JObject ?kvs, [])"
    by (simp add: remote_text_def maxNestingDepth_def)
  have local_ok: "json_check Local_type (encode_Local l) = None"
    using assms(1) by (simp add: json_check_iff codec del: json_check.simps)
  have "first_error (map (json_check TString \<circ> JString) (remote_Addresses r)) = None" by auto
  then have "json_check Remote_type ?r = (if n < 2 ^ 32 then None else Some (UnmarshalTypeError (''number '' @ fmt_nat n)))"
    by (simp add: Remote_type_def resolve_field_def del: first_error_None)
  then have "json_check MeshPeers_type (JObject ?kvs) = (if n < 2 ^ 32 then None else Some (UnmarshalTypeError (''number '' @ fmt_nat n)))"
    using local_ok by (simp add: MeshPeers_type_def resolve_field_def)
  moreover have "build_Remote [?r] = r\<lparr>remote_Port := Some (of_nat n)\<rparr>"
    using assms(2) by (simp add: build_Remote_def Remote_type_def struct_simps codec valid_Remote_def build_ptr_def since_def build_uint32_def)
  then have "build_slice build_Remote [JArray [?r]] = [r\<lparr>remote_Port := Some (of_nat n)\<rparr>]"
    by (simp add: build_slice_def since_def)
  then have "build_MeshPeers [JObject ?kvs] = \<lparr>mp_Local = l, mp_Remotes = [r\<lparr>remote_Port := Some (of_nat n)\<rparr>]\<rparr>"
    using assms by (simp add: build_MeshPeers_def MeshPeers_type_def struct_simps codec)
  ultimately show ?thesis by (simp add: Decode_def read)
qed

text \<open>
  C26: the port of a remote. It is accepted exactly if it fits in 32 bits and is then kept without wrapping
  around; a larger number is reported as an error of the mesh peers, with the number.
\<close>

theorem ParseArgs_port_bounds:
  assumes "valid_Local l" and "valid_Remote r" and "valid_ExportedServiceSet exported"
  shows "ParseArgs (remote_text l r n) (print_json (encode_ExportedServiceSet exported)) [] =
    (if n < 2 ^ 32
     then Inr \<lparr>fed_namespace = [], fed_MeshPeers = \<lparr>mp_Local = l, mp_Remotes = [r\<lparr>remote_Port := Some (of_nat n)\<rparr>]\<rparr>,
            fed_ExportedServiceSet = exported, fed_ImportedServiceSet = \<lparr>iss_Rules = []\<rparr>\<rparr>
     else Inl (Wrap ''failed to unmarshal mesh peers'' (Wrap ''failed to unmarshal JSON''
            (UnmarshalTypeError (''number '' @ fmt_nat n)))))
    \<and> (n < 2 ^ 32 \<longrightarrow> unat (GetPort (Some (r\<lparr>remote_Port := Some (of_nat n)\<rparr>))) = n)"
  using unmarshal_printed(2) [OF assms(3), of "[]"]
  by (auto simp: ParseArgs_def unmarshalJSON_def Decode_remote_text [OF assms(1,2)] unat_of_nat)

theorem ParseArgs_port_bounds_witness:
  "\<exists>e cfg. ParseArgs (remote_text (mp_Local (fed_MeshPeers (east_cfg Istio []))) west (2 ^ 32))
      (print_json (encode_ExportedServiceSet \<lparr>ess_Rules = []\<rparr>)) [] = Inl (Wrap ''failed to unmarshal mesh peers'' e)
    \<and> ParseArgs (remote_text (mp_Local (fed_MeshPeers (east_cfg Istio []))) west (2 ^ 32 - 1))
      (print_json (encode_ExportedServiceSet \<lparr>ess_Rules = []\<rparr>)) [] = Inr cfg
    \<and> map (\<lambda>r. GetPort (Some r)) (remotes_of cfg) = [- 1]"
proof -
  have valid: "valid_Local (mp_Local (fed_MeshPeers (east_cfg Istio [])))" "valid_Remote west" "valid_ExportedServiceSet \<lparr>ess_Rules = []\<rparr>"
    by (simp_all add: sample_defs OpenShiftRouter_def Istio_def valid_Local_def valid_Remote_def valid_ControlPlane_def
        valid_Gateways_def valid_LocalGateway_def valid_GatewayPort_def valid_ExportedServiceSet_def valid_map_def)
  show ?thesis
    using ParseArgs_port_bounds [OF valid, of "2 ^ 32"] ParseArgs_port_bounds [OF valid, of "2 ^ 32 - 1"] by simp
qed

end
