(* ===== verification/Flags.thy ===== *)
theory Flags
  imports Prelude
begin

text \<open>
  The command line flags, \<open>parseFlags\<close> of \<open>cmd/federation-controller/main.go\<close>: the variables it binds, their
  defaults, and \<open>Parse\<close> of Go's \<open>flag\<close> package on the arguments of the process. Libraries register flags of their
  own on the same flag set (the logging options of Istio, the kubeconfig of controller-runtime): which names they have
  and which values those accept is an argument, \<open>lib\<close>; what they are set to is kept in the order of the
  arguments. An error ends the process.
\<close>

section \<open>The variables\<close>

record flags =
  fl_meshPeers :: string
  fl_exportedServiceSet :: string
  fl_importedServiceSet :: string
  fl_metricsAddr :: string
  fl_probeAddr :: string
  fl_enableLeaderElection :: bool
  fl_useCtrls :: bool
  fl_library :: "(string \<times> string) list"

definition default_flags :: flags where
  "default_flags = \<lparr>fl_meshPeers = [], fl_exportedServiceSet = [], fl_importedServiceSet = [], fl_metricsAddr = '':8080'',
     fl_probeAddr = '':8081'', fl_enableLeaderElection = False, fl_useCtrls = False, fl_library = []\<rparr>"

text \<open>A flag takes a value, which it may refuse, or is boolean and may stand alone.\<close>

datatype flag_kind = ValueFlag "string \<Rightarrow> bool" | BoolFlag

type_synonym library_flags = "string \<Rightarrow> flag_kind option"

definition formal :: "library_flags \<Rightarrow> string \<Rightarrow> flag_kind option" where
  "formal lib name =
     (if name \<in> {''meshPeers'', ''exportedServiceSet'', ''importedServiceSet'', ''metrics-bind-address'', ''health-probe-bind-address''}
      then Some (ValueFlag (\<lambda>_. True))
      else if name \<in> {''leader-elect'', ''use-ctrls''} then Some BoolFlag
      else lib name)"

definition set_value :: "string \<Rightarrow> string \<Rightarrow> flags \<Rightarrow> flags" where
  "set_value name v fl =
     (if name = ''meshPeers'' then fl\<lparr>fl_meshPeers := v\<rparr>
      else if name = ''exportedServiceSet'' then fl\<lparr>fl_exportedServiceSet := v\<rparr>
      else if name = ''importedServiceSet'' then fl\<lparr>fl_importedServiceSet := v\<rparr>
      else if name = ''metrics-bind-address'' then fl\<lparr>fl_metricsAddr := v\<rparr>
      else if name = ''health-probe-bind-address'' then fl\<lparr>fl_probeAddr := v\<rparr>
      else fl\<lparr>fl_library := fl_library fl @ [(name, v)]\<rparr>)"

definition set_bool :: "string \<Rightarrow> bool \<Rightarrow> flags \<Rightarrow> flags" where
  "set_bool name b fl =
     (if name = ''leader-elect'' then fl\<lparr>fl_enableLeaderElection := b\<rparr>
      else if name = ''use-ctrls'' then fl\<lparr>fl_useCtrls := b\<rparr>
      else fl\<lparr>fl_library := fl_library fl @ [(name, if b then ''true'' else ''false'')]\<rparr>)"

section \<open>flag.Parse\<close>

definition strconv_ParseBool :: "string \<Rightarrow> bool option" where
  "strconv_ParseBool s =
     (if s \<in> {''1'', ''t'', ''T'', ''TRUE'', ''true'', ''True''} then Some True
      else if s \<in> {''0'', ''f'', ''F'', ''FALSE'', ''false'', ''False''} then Some False else None)"

definition flag_ErrHelp :: go_error where
  "flag_ErrHelp = Other ''flag: help requested''"

text \<open>A flag without its dashes: the name and, after the first equals sign, the value.\<close>

definition split_flag :: "string \<Rightarrow> string \<times> string option" where
  "split_flag s = (takeWhile (\<lambda>c. c \<noteq> CHR ''='') s,
     case dropWhile (\<lambda>c. c \<noteq> CHR ''='') s of [] \<Rightarrow> None | _ # v \<Rightarrow> Some v)"

text \<open>An argument that is no flag, and the argument \<open>--\<close>, end the flags.\<close>

fun flag_Parse :: "library_flags \<Rightarrow> string list \<Rightarrow> flags \<Rightarrow> go_error + flags" where
  "flag_Parse lib [] fl = Inr fl"
| "flag_Parse lib (s # args) fl =
     (if length s < 2 \<or> hd s \<noteq> CHR ''-'' \<or> s = ''--'' then Inr fl
      else
        let name = drop (if s ! 1 = CHR ''-'' then 2 else 1) s in
        if name = [] \<or> hd name = CHR ''-'' \<or> hd name = CHR ''='' then Inl (Wrap ''bad flag syntax'' (Other s))
        else
          (case split_flag name of (name, value) \<Rightarrow>
           case formal lib name of
             None \<Rightarrow> Inl (if name = ''help'' \<or> name = ''h'' then flag_ErrHelp else Wrap ''flag provided but not defined'' (Other name))
           | Some BoolFlag \<Rightarrow>
               (case value of
                  None \<Rightarrow> flag_Parse lib args (set_bool name True fl)
                | Some v \<Rightarrow> (case strconv_ParseBool v of
                               None \<Rightarrow> Inl (Wrap ''invalid boolean value'' (Other v))
                             | Some b \<Rightarrow> flag_Parse lib args (set_bool name b fl)))
           | Some (ValueFlag accepts) \<Rightarrow>
               (case value of
                  Some v \<Rightarrow> (if accepts v then flag_Parse lib args (set_value name v fl) else Inl (Wrap ''invalid value'' (Other v)))
                | None \<Rightarrow>
                    (case args of
                       [] \<Rightarrow> Inl (Wrap ''flag needs an argument'' (Other name))
                     | v # args' \<Rightarrow> (if accepts v then flag_Parse lib args' (set_value name v fl)
                                    else Inl (Wrap ''invalid value'' (Other v)))))))"

definition parseFlags :: "library_flags \<Rightarrow> string list \<Rightarrow> go_error + flags" where
  "parseFlags lib args = flag_Parse lib args default_flags"

section \<open>Lemmas\<close>

text \<open>A flag of the program given as \<open>--name=value\<close>.\<close>

definition value_arg :: "string \<Rightarrow> string \<Rightarrow> string" where
  "value_arg name v = ''--'' @ name @ CHR ''='' # v"

lemma split_flag_value: "CHR ''='' \<notin> set name \<Longrightarrow> split_flag (name @ CHR ''='' # v) = (name, Some v)"
  by (induction name) (auto simp: split_flag_def)

lemma flag_Parse_value:
  assumes "formal lib name = Some (ValueFlag accepts)" and "accepts v"
    and "CHR ''='' \<notin> set name" and "name \<noteq> []" and "hd name \<noteq> CHR ''-''"
  shows "flag_Parse lib (value_arg name v # args) fl = flag_Parse lib args (set_value name v fl)"
proof -
  have "hd (name @ CHR ''='' # v) \<noteq> CHR ''=''" "hd (name @ CHR ''='' # v) \<noteq> CHR ''-''"
    using assms(3-5) by (cases name; auto)+
  then show ?thesis
    using assms split_flag_value [OF assms(3), of v] by (simp add: value_arg_def Let_def)
qed

lemma flag_Parse_bool:
  assumes "formal lib name = Some BoolFlag" and "CHR ''='' \<notin> set name" and "name \<noteq> []" and "hd name \<noteq> CHR ''-''"
  shows "flag_Parse lib (value_arg name (if b then ''true'' else ''false'') # args) fl = flag_Parse lib args (set_bool name b fl)"
proof -
  let ?v = "if b then ''true'' else ''false''"
  have "hd (name @ CHR ''='' # ?v) \<noteq> CHR ''=''" "hd (name @ CHR ''='' # ?v) \<noteq> CHR ''-''"
    using assms(2-4) by (cases name; auto)+
  moreover have "strconv_ParseBool ?v = Some b" by (simp add: strconv_ParseBool_def)
  ultimately show ?thesis
    using assms split_flag_value [OF assms(2), of ?v] by (simp add: value_arg_def Let_def)
qed

lemma formal_program [simp]:
  "formal lib ''meshPeers'' = Some (ValueFlag (\<lambda>_. True))" "formal lib ''exportedServiceSet'' = Some (ValueFlag (\<lambda>_. True))"
  "formal lib ''importedServiceSet'' = Some (ValueFlag (\<lambda>_. True))" "formal lib ''metrics-bind-address'' = Some (ValueFlag (\<lambda>_. True))"
  "formal lib ''health-probe-bind-address'' = Some (ValueFlag (\<lambda>_. True))"
  "formal lib ''leader-elect'' = Some BoolFlag" "formal lib ''use-ctrls'' = Some BoolFlag"
  by (simp_all add: formal_def)

text \<open>The flags of the program, written out, followed by the remaining arguments.\<close>

definition flag_args :: "flags \<Rightarrow> string list" where
  "flag_args fl = [value_arg ''meshPeers'' (fl_meshPeers fl), value_arg ''exportedServiceSet'' (fl_exportedServiceSet fl),
     value_arg ''importedServiceSet'' (fl_importedServiceSet fl), value_arg ''metrics-bind-address'' (fl_metricsAddr fl),
     value_arg ''health-probe-bind-address'' (fl_probeAddr fl),
     value_arg ''leader-elect'' (if fl_enableLeaderElection fl then ''true'' else ''false''),
     value_arg ''use-ctrls'' (if fl_useCtrls fl then ''true'' else ''false'')]"

lemma parseFlags_args: "parseFlags lib (flag_args fl @ args) = flag_Parse lib args (fl\<lparr>fl_library := []\<rparr>)"
  by (cases fl) (simp add: parseFlags_def flag_args_def flag_Parse_value flag_Parse_bool set_value_def set_bool_def default_flags_def
      del: flag_Parse.simps)

end
