(* ===== verification/Startup.thy ===== *)
theory Startup
  imports Main_Wiring Adss Controllers Parse_Args Flags
begin

text \<open>
  The start of the process, \<open>main\<close>, \<open>runCtrls\<close>, \<open>runLegacyMode\<close> and \<open>startFederationServer\<close> of
  \<open>cmd/federation-controller/main.go\<close>, from the arguments of the process, with \<open>RunAndWait\<close> of
  the informer. What the process finds when it starts (which clients can be created, whether the
  cache syncs, what the peers have already sent) is the record \<open>legacy_env\<close>. The result is the set of parts that
  run, or the reason why the process ended.
\<close>

section \<open>The legacy mode\<close>

definition export_handler :: "marshaller \<Rightarrow> Federation \<Rightarrow> ServiceLister RequestHandler" where
  "export_handler marshal cfg = \<lparr>rh_GetTypeUrl = esg_GetTypeUrl (NewExportedServicesGenerator cfg (cache_lister (\<subseteq>\<^sub>m) [])),
     rh_GenerateResponse = (\<lambda>lister. GenerateResponse marshal (NewExportedServicesGenerator cfg lister))\<rparr>"

lemma NewServer_export_handler:
  "ads_handlers (NewServer [export_handler marshal cfg]) ExportedServiceTypeUrl = Some (export_handler marshal cfg)"
  "rh_GenerateResponse (export_handler marshal cfg) lister = GenerateResponse marshal (NewExportedServicesGenerator cfg lister)"
  by (simp_all add: NewServer_def export_handler_def esg_GetTypeUrl_def)

definition startFederationServer :: "marshaller \<Rightarrow> Federation \<Rightarrow> ServiceLister adsServer" where
  "startFederationServer marshal cfg = NewServer [export_handler marshal cfg]"

definition RunAndWait :: "bool \<Rightarrow> 'q Controller \<Rightarrow> 'q Controller startup" where
  "RunAndWait cacheSynced c =
     (if \<not> cacheSynced then Fatal (''timed out waiting for '' @ c_resourceType c @ '' controller caches to sync'') (Other []) else Started c)"

text \<open>
  \<open>le_early\<close> is what the peers have sent, in order, when the reconcilers first read the store; the clients
  are started before and run beside the rest of the start.
\<close>

record ('s, 'q) legacy_env =
  le_errs :: startup_errors
  le_reconciler_errs :: startup_errors
  le_queue :: "'q queue_ops"
  le_registration :: "go_error option"
  le_synced :: bool
  le_matches :: label_match
  le_client :: client_env
  le_marshal :: marshaller
  le_unmarshal :: unmarshaller
  le_early :: "(string \<times> FederatedService list) list"
  le_process :: process_env
  le_order :: "(string \<times> 's world Reconciler) list \<Rightarrow> (string \<times> 's world Reconciler) list"
  le_api :: "'s cluster_api"

record ('s, 'q) legacy =
  lm_serviceController :: "'q Controller"
  lm_server :: "ServiceLister adsServer"
  lm_watched :: "Remote list option"
  lm_clients :: "import_world ADSC list"
  lm_manager :: "'s world ReconcilerManager"

definition early_store :: "(string \<times> FederatedService list) list \<Rightarrow> ImportedServiceStore" where
  "early_store early = foldl (\<lambda>store (source, svcs). Update store source svcs) NewImportedServiceStore early"

definition runLegacyMode :: "('s, 'q) legacy_env \<Rightarrow> Federation \<Rightarrow> 's world \<Rightarrow> 's world \<times> ('s, 'q) legacy startup" where
  "runLegacyMode env cfg w =
     (case su_InClusterConfig (le_errs env) of Some e \<Rightarrow> (w, Fatal ''failed to create in-cluster config'' e) | None \<Rightarrow>
      case su_IstioClient (le_errs env) of Some e \<Rightarrow> (w, Fatal ''failed to create Istio client'' e) | None \<Rightarrow>
      case NewResourceController (le_queue env) (le_registration env) ''Service'' [NewServiceExportEventHandler (le_matches env) cfg] of
        Inl e \<Rightarrow> (w, Fatal ''failed to create service informer'' e)
      | Inr serviceController \<Rightarrow>
          (case RunAndWait (le_synced env) serviceController of
             Fatal msg e \<Rightarrow> (w, Fatal msg e)
           | Crashed p \<Rightarrow> (w, Crashed p)
           | Started controller \<Rightarrow>
               let server = startFederationServer (le_marshal env) cfg;
                   watched = (if local_IngressType (mp_Local (fed_MeshPeers cfg)) = OpenShiftRouter then Some (remotes_of cfg) else None)
               in case start_clients (le_client env) (le_unmarshal env) (remotes_of cfg) of
                    Fatal msg e \<Rightarrow> (w, Fatal msg e)
                  | Crashed p \<Rightarrow> (w, Crashed p)
                  | Started clients \<Rightarrow>
                      (case startReconciler (le_reconciler_errs env) (le_process env) (le_order env) (le_api env) cfg
                              (w\<lparr>w_store := early_store (le_early env)\<rparr>) of
                         (w', Fatal msg e) \<Rightarrow> (w', Fatal msg e)
                       | (w', Crashed p) \<Rightarrow> (w', Crashed p)
                       | (w', Started rm) \<Rightarrow>
                           (w', Started \<lparr>lm_serviceController = controller, lm_server = server, lm_watched = watched,
                                         lm_clients = clients, lm_manager = rm\<rparr>))))"

section \<open>main\<close>

record ctrl_errors =
  ct_NewManager :: "go_error option"
  ct_MeshFederation :: "go_error option"
  ct_FederatedService :: "go_error option"
  ct_Healthz :: "go_error option"
  ct_Readyz :: "go_error option"

datatype ctrl_kind = MeshFederationCtrl | FederatedServiceCtrl

record manager =
  mgr_MetricsBindAddress :: string
  mgr_HealthProbeBindAddress :: string
  mgr_LeaderElection :: bool
  mgr_LeaderElectionID :: string
  mgr_Controllers :: "ctrl_kind list"

text \<open>Every failing step of \<open>runCtrls\<close> logs and exits; otherwise the manager is started with two controllers.\<close>

definition runCtrls :: "ctrl_errors \<Rightarrow> flags \<Rightarrow> manager startup" where
  "runCtrls errs fl =
     (case ct_NewManager errs of Some e \<Rightarrow> Fatal ''unable to start manager'' e | None \<Rightarrow>
      case ct_MeshFederation errs of Some e \<Rightarrow> Fatal ''unable to create MeshFederation controller'' e | None \<Rightarrow>
      case ct_FederatedService errs of Some e \<Rightarrow> Fatal ''unable to create FederatedService controller'' e | None \<Rightarrow>
      case ct_Healthz errs of Some e \<Rightarrow> Fatal ''unable to set up health check'' e | None \<Rightarrow>
      case ct_Readyz errs of Some e \<Rightarrow> Fatal ''unable to set up ready check'' e | None \<Rightarrow>
      Started \<lparr>mgr_MetricsBindAddress = fl_metricsAddr fl, mgr_HealthProbeBindAddress = fl_probeAddr fl,
        mgr_LeaderElection = fl_enableLeaderElection fl,
        mgr_LeaderElectionID = ''80807133.federation.openshift-service-mesh.io'',
        mgr_Controllers = [MeshFederationCtrl, FederatedServiceCtrl]\<rparr>)"

record ('s, 'q) process =
  proc_ctrls :: "manager option"
  proc_legacy :: "('s, 'q) legacy"

text \<open>\<open>main\<close> after \<open>parseFlags\<close>; \<open>configureLog\<close> is the set-up of the logging library from its own flags.\<close>

definition main_with_flags :: "((string \<times> string) list \<Rightarrow> go_error option) \<Rightarrow> ctrl_errors \<Rightarrow> ('s, 'q) legacy_env \<Rightarrow> flags
    \<Rightarrow> 's world \<Rightarrow> 's world \<times> ('s, 'q) process startup" where
  "main_with_flags configureLog ctrlErrs env fl w =
     (case configureLog (fl_library fl) of Some e \<Rightarrow> (w, Fatal ''failed to configure logging options'' e) | None \<Rightarrow>
      case ParseArgs (fl_meshPeers fl) (fl_exportedServiceSet fl) (fl_importedServiceSet fl) of
        Inl e \<Rightarrow> (w, Fatal ''failed to parse configuration passed to the program arguments'' e)
      | Inr cfg \<Rightarrow>
          (case (if fl_useCtrls fl then (case runCtrls ctrlErrs fl of
                     Started mgr \<Rightarrow> Started (Some mgr) | Fatal msg e \<Rightarrow> Fatal msg e | Crashed p \<Rightarrow> Crashed p)
                 else Started None) of
             Fatal msg e \<Rightarrow> (w, Fatal msg e)
           | Crashed p \<Rightarrow> (w, Crashed p)
           | Started ctrls \<Rightarrow>
               (case runLegacyMode env cfg w of
                  (w', Fatal msg e) \<Rightarrow> (w', Fatal msg e)
                | (w', Crashed p) \<Rightarrow> (w', Crashed p)
                | (w', Started lm) \<Rightarrow> (w', Started \<lparr>proc_ctrls = ctrls, proc_legacy = lm\<rparr>))))"

text \<open>The process on its arguments. An error of the flags ends it before anything else is done.\<close>

definition controller_main :: "library_flags \<Rightarrow> ((string \<times> string) list \<Rightarrow> go_error option) \<Rightarrow> ctrl_errors \<Rightarrow> ('s, 'q) legacy_env
    \<Rightarrow> string list \<Rightarrow> 's world \<Rightarrow> 's world \<times> ('s, 'q) process startup" where
  "controller_main lib configureLog ctrlErrs env args w =
     (case parseFlags lib args of
        Inl e \<Rightarrow> (w, Fatal [] e)
      | Inr fl \<Rightarrow> main_with_flags configureLog ctrlErrs env fl w)"

section \<open>Lemmas\<close>

lemma From_early:
  assumes "svc \<in> set (From (early_store early) r)"
  shows "\<exists>(source, svcs) \<in> set early. svc \<in> set svcs"
proof -
  have "svc \<in> set (From (foldl (\<lambda>store (source, svcs). Update store source svcs) st early) r) \<Longrightarrow>
      svc \<in> set (From st r) \<or> (\<exists>(source, svcs) \<in> set early. svc \<in> set svcs)" for st
  proof (induction early arbitrary: st)
    case (Cons e early)
    obtain source svcs where e: "e = (source, svcs)" by (cases e)
    have "set (From (Update st source svcs) r) \<subseteq> set (From st r) \<union> set svcs"
      by (auto simp: From_def Update_def split: option.splits if_splits)
    with Cons.IH [of "Update st source svcs"] Cons.prems e show ?case by auto
  qed simp
  from this [of NewImportedServiceStore] assms show ?thesis
    by (simp add: early_store_def From_def NewImportedServiceStore_def)
qed

lemma start_clients_up:
  assumes "\<forall>r \<in> set remotes. remote_Addresses r \<noteq> []" and "\<And>addr auth. \<exists>conn. ce_NewClient env addr auth = Inr conn"
  shows "\<exists>clients. start_clients env unmarshal remotes = Started clients
    \<and> map (\<lambda>a. acfg_RemoteName (adsc_cfg a)) clients = map remote_Name remotes"
  using assms(1)
proof (induction remotes)
  case (Cons r remotes)
  then obtain addr where "discovery_addr r = Val addr"
    by (cases "remote_Addresses r") (simp_all add: discovery_addr_def)
  moreover obtain conn where "ce_NewClient env addr (ServiceFQDN r) = Inr conn" using assms(2) by blast
  ultimately obtain a where "startFDSClient env unmarshal r = Started a" "acfg_RemoteName (adsc_cfg a) = remote_Name r"
    by (simp add: startFDSClient_def New_def dial_def)
  with Cons show ?case by auto
qed simp

text \<open>
  What the start relies on outside the program: an API server that is up, a Service cache that answers
  and syncs, clients that can be created, and peers that have sent only dotted host names so far.
\<close>

definition no_startup_errors :: startup_errors where
  "no_startup_errors = \<lparr>su_InClusterConfig = None, su_IstioClient = None, su_RouteClient = None\<rparr>"

lemma no_startup_errors_sel:
  "su_InClusterConfig no_startup_errors = None" "su_IstioClient no_startup_errors = None" "su_RouteClient no_startup_errors = None"
  by (simp_all add: no_startup_errors_def)

definition healthy :: "label_match \<Rightarrow> Service list \<Rightarrow> ('s, 'q) legacy_env \<Rightarrow> 's world \<Rightarrow> bool" where
  "healthy matches svcs env w \<longleftrightarrow> cluster_up (le_api env) \<and> serves_cache matches svcs (w_lister w)
   \<and> le_errs env = no_startup_errors \<and> le_reconciler_errs env = no_startup_errors
   \<and> le_registration env = None \<and> le_synced env \<and> is_order (le_order env)
   \<and> (\<forall>addr auth. \<exists>conn. ce_NewClient (le_client env) addr auth = Inr conn)
   \<and> (\<forall>(source, fss) \<in> set (le_early env). \<forall>svc \<in> set fss. CHR ''.'' \<in> set (fs_Hostname svc))"

lemma healthy_early:
  assumes "healthy matches svcs env w"
  shows "serves_cache matches svcs (w_lister (w\<lparr>w_store := early_store (le_early env)\<rparr>))"
    and "\<forall>r \<in> set remotes. \<forall>svc \<in> set (From (w_store (w\<lparr>w_store := early_store (le_early env)\<rparr>)) r). CHR ''.'' \<in> set (fs_Hostname svc)"
  using assms From_early by (fastforce simp: healthy_def)+

lemma runLegacyMode_healthy:
  assumes "healthy matches svcs env w" and "\<forall>r \<in> set (remotes_of cfg). remote_Addresses r \<noteq> []"
  shows "\<exists>clients. map (\<lambda>a. acfg_RemoteName (adsc_cfg a)) clients = map remote_Name (remotes_of cfg)
    \<and> (\<exists>controller. runLegacyMode env cfg w = (case startReconciler no_startup_errors (le_process env) (le_order env) (le_api env) cfg
            (w\<lparr>w_store := early_store (le_early env)\<rparr>) of
         (w', Fatal msg e) \<Rightarrow> (w', Fatal msg e)
       | (w', Crashed p) \<Rightarrow> (w', Crashed p)
       | (w', Started rm) \<Rightarrow> (w', Started \<lparr>lm_serviceController = controller, lm_server = startFederationServer (le_marshal env) cfg,
             lm_watched = (if local_IngressType (mp_Local (fed_MeshPeers cfg)) = OpenShiftRouter then Some (remotes_of cfg) else None),
             lm_clients = clients, lm_manager = rm\<rparr>)))"
proof -
  have clients: "\<And>addr auth. \<exists>conn. ce_NewClient (le_client env) addr auth = Inr conn" using assms(1) by (simp add: healthy_def)
  obtain clients where "start_clients (le_client env) (le_unmarshal env) (remotes_of cfg) = Started clients"
    "map (\<lambda>a. acfg_RemoteName (adsc_cfg a)) clients = map remote_Name (remotes_of cfg)"
    using start_clients_up [OF assms(2) clients] by blast
  with assms(1) show ?thesis
    by (auto simp: healthy_def no_startup_errors_def runLegacyMode_def NewResourceController_def RunAndWait_def Let_def
        intro!: exI [of _ clients])
qed

lemma runLegacyMode_starts:
  assumes "healthy matches svcs env w" and "lg_Port (local_ingress cfg) = Some port"
    and "\<forall>r \<in> set (remotes_of cfg). remote_Addresses r \<noteq> []"
  shows "\<exists>w' lm ns cfg'. runLegacyMode env cfg w = (w', Started lm)
    \<and> map (\<lambda>a. acfg_RemoteName (adsc_cfg a)) (lm_clients lm) = map remote_Name (remotes_of cfg)
    \<and> ads_handlers (lm_server lm) ExportedServiceTypeUrl = Some (export_handler (le_marshal env) cfg)
    \<and> (lm_watched lm \<noteq> None \<longleftrightarrow> local_IngressType (mp_Local (fed_MeshPeers cfg)) = OpenShiftRouter)
    \<and> Namespace (le_process env) cfg = (ns, cfg') \<and> lm_manager lm = NewReconcilerManager (reconcilers_for (le_api env) cfg' ns)"
proof -
  let ?w = "w\<lparr>w_store := early_store (le_early env)\<rparr>"
  have up: "cluster_up (le_api env)" "is_order (le_order env)" using assms(1) by (simp_all add: healthy_def)
  from startReconciler_starts [OF up(1) healthy_early(1) [OF assms(1)] assms(2) healthy_early(2) [OF assms(1)] no_startup_errors_sel up(2),
      of "le_process env"] obtain w' ns cfg'
    where "Namespace (le_process env) cfg = (ns, cfg')" and
    "startReconciler no_startup_errors (le_process env) (le_order env) (le_api env) cfg ?w
      = (w', Started (NewReconcilerManager (reconcilers_for (le_api env) cfg' ns)))" by blast
  with runLegacyMode_healthy [OF assms(1,3)] NewServer_export_handler(1) [of "le_marshal env" cfg] show ?thesis
    by (auto simp: startFederationServer_def)
qed

lemma runLegacyMode_without_port:
  assumes "healthy matches svcs env w" and "lg_Port (local_ingress cfg) = None"
    and "\<forall>r \<in> set (remotes_of cfg). remote_Addresses r \<noteq> []"
  shows "\<exists>w'. runLegacyMode env cfg w = (w', Crashed NilDereference)"
proof -
  have up: "cluster_up (le_api env)" "is_order (le_order env)" using assms(1) by (simp_all add: healthy_def)
  from startReconciler_without_port [OF up(1) healthy_early(1) [OF assms(1)] assms(2) healthy_early(2) [OF assms(1)] no_startup_errors_sel up(2),
      of "le_process env"] runLegacyMode_healthy [OF assms(1,3)] show ?thesis by auto
qed

text \<open>The arguments of the container, as the chart writes them.\<close>

definition chart_args :: "MeshPeers \<Rightarrow> ExportedServiceSet \<Rightarrow> string list" where
  "chart_args peers exported = [value_arg ''meshPeers'' (print_json (encode_MeshPeers peers)),
     value_arg ''exportedServiceSet'' (print_json (encode_ExportedServiceSet exported))]"

abbreviation chart_cfg :: "MeshPeers \<Rightarrow> ExportedServiceSet \<Rightarrow> Federation" where
  "chart_cfg peers exported \<equiv> \<lparr>fed_namespace = [], fed_MeshPeers = peers, fed_ExportedServiceSet = exported,
     fed_ImportedServiceSet = \<lparr>iss_Rules = []\<rparr>\<rparr>"

lemma controller_main_chart:
  assumes "valid_MeshPeers peers" and "valid_ExportedServiceSet exported" and "configureLog [] = None"
  shows "controller_main lib configureLog ctrlErrs env (chart_args peers exported) w =
    (case runLegacyMode env (chart_cfg peers exported) w of
       (w', Fatal msg e) \<Rightarrow> (w', Fatal msg e)
     | (w', Crashed p) \<Rightarrow> (w', Crashed p)
     | (w', Started lm) \<Rightarrow> (w', Started \<lparr>proc_ctrls = None, proc_legacy = lm\<rparr>))"
proof -
  have "parseFlags lib (chart_args peers exported) = Inr (default_flags\<lparr>fl_meshPeers := print_json (encode_MeshPeers peers),
      fl_exportedServiceSet := print_json (encode_ExportedServiceSet exported)\<rparr>)"
    by (simp add: parseFlags_def chart_args_def flag_Parse_value set_value_def del: flag_Parse.simps(2))
  moreover have "ParseArgs (print_json (encode_MeshPeers peers)) (print_json (encode_ExportedServiceSet exported)) [] = Inr (chart_cfg peers exported)"
    using unmarshal_printed(1) [OF assms(1), of "[]"] unmarshal_printed(2) [OF assms(2), of "[]"] by (simp add: ParseArgs_def)
  ultimately show ?thesis
    using assms(3) by (simp add: controller_main_def main_with_flags_def default_flags_def)
qed

section \<open>Properties\<close>

definition sample_legacy_env :: "(cluster, fifo) legacy_env" where
  "sample_legacy_env = \<lparr>le_errs = \<lparr>su_InClusterConfig = None, su_IstioClient = None, su_RouteClient = None\<rparr>,
     le_reconciler_errs = \<lparr>su_InClusterConfig = None, su_IstioClient = None, su_RouteClient = None\<rparr>, le_queue = fifo_ops,
     le_registration = None, le_synced = True, le_matches = (\<subseteq>\<^sub>m), le_client = refusing_env, le_marshal = (\<lambda>_. ([], None)),
     le_unmarshal = one_unmarshal, le_early = [(''west'', [importedA_ns1])],
     le_process = \<lparr>env_LookupEnv = (\<lambda>_. None), env_ReadFile = (\<lambda>_. ([], None))\<rparr>, le_order = rev, le_api = memory_api\<rparr>"

definition no_ctrl_errors :: ctrl_errors where
  "no_ctrl_errors = \<lparr>ct_NewManager = None, ct_MeshFederation = None, ct_FederatedService = None, ct_Healthz = None, ct_Readyz = None\<rparr>"

lemma sample_healthy: "healthy (\<subseteq>\<^sub>m) [svcA_ns1] sample_legacy_env sample_world"
  using cluster_up_memory plain_lister_serves
  by (simp add: healthy_def sample_legacy_env_def sample_world_def no_startup_errors_def refusing_env_def importedA_ns1_def)



text \<open>
  C29: the gateway port may be left out of the configuration, as its tag says, and \<open>ParseArgs\<close> accepts that; but the
  factories dereference it. In a healthy environment the process then ends at its first reconciliation with a nil
  dereference, whatever the order of the reconcilers.
\<close>

theorem missing_port_crashes:
  assumes "healthy matches svcs env w" and "valid_MeshPeers peers" and "valid_ExportedServiceSet exported"
    and "configureLog [] = None" and "lg_Port (gws_Ingress (local_Gateways (mp_Local peers))) = None"
    and "\<forall>r \<in> set (mp_Remotes peers). remote_Addresses r \<noteq> []"
  shows "\<exists>w'. controller_main lib configureLog ctrlErrs env (chart_args peers exported) w = (w', Crashed NilDereference)"
  using runLegacyMode_without_port [OF assms(1), of "chart_cfg peers exported"] assms(5,6)
  by (auto simp: controller_main_chart [OF assms(2,3), of configureLog, OF assms(4)])

definition portless_peers :: MeshPeers where
  "portless_peers = \<lparr>mp_Local = \<lparr>local_Name = ''east'', local_ControlPlane = \<lparr>cp_Namespace = ''istio-system''\<rparr>,
     local_Gateways = \<lparr>gws_Ingress = \<lparr>lg_Selector = Map.empty, lg_Port = None\<rparr>\<rparr>, local_IngressType = Istio\<rparr>, mp_Remotes = []\<rparr>"

theorem missing_port_crashes_witness:
  "\<exists>w'. controller_main (\<lambda>_. None) (\<lambda>_. None) no_ctrl_errors sample_legacy_env (chart_args portless_peers \<lparr>ess_Rules = []\<rparr>) sample_world
     = (w', Crashed NilDereference)"
proof (rule missing_port_crashes [OF sample_healthy])
  show "valid_MeshPeers portless_peers" "valid_ExportedServiceSet \<lparr>ess_Rules = []\<rparr>"
    by (simp_all add: portless_peers_def Istio_def valid_MeshPeers_def valid_Local_def valid_ControlPlane_def valid_Gateways_def
        valid_LocalGateway_def valid_map_def valid_ExportedServiceSet_def)
qed (simp_all add: portless_peers_def)

text \<open>
  The flag \<open>use-ctrls\<close> adds the controller-runtime reconcilers to the legacy mode. The process starts
  with it exactly when it starts without it and the controllers can be set up, and then runs the very
  same legacy parts; the description of the flag says that it replaces them.
\<close>

lemma use_ctrls_keeps_legacy:
  "main_with_flags configureLog ctrlErrs env (fl\<lparr>fl_useCtrls := True\<rparr>) w = (w', Started p)
   \<longleftrightarrow> (\<exists>mgr. runCtrls ctrlErrs fl = Started mgr \<and> proc_ctrls p = Some mgr)
     \<and> main_with_flags configureLog ctrlErrs env (fl\<lparr>fl_useCtrls := False\<rparr>) w = (w', Started (p\<lparr>proc_ctrls := None\<rparr>))"
  by (cases p) (auto simp: main_with_flags_def runCtrls_def split: option.splits sum.splits startup.splits prod.splits)

end
