(* ===== verification/Store.thy ===== *)
theory Store
  imports Prelude
begin

text \<open>
  An explicit store for code whose correctness is about sharing. A pointer, a map or a slice of Go is an
  address; \<open>new\<close> and \<open>make\<close> take a fresh one. The locale \<open>deep_copy\<close> says what a deep copy is: it leaves
  the store it found alone, the copy reads the same, and no address of the copy was in use before. The
  lemmas build deep copies of structs, pointers and slices from those of their parts, the way generated
  copying code is put together.
\<close>

type_synonym addr = nat

record 'c heap =
  hp_next :: nat
  hp_cells :: "addr \<rightharpoonup> 'c"

definition heap_wf :: "'c heap \<Rightarrow> bool" where
  "heap_wf h \<longleftrightarrow> (\<forall>a. hp_cells h a \<noteq> None \<longrightarrow> a < hp_next h)"

definition alloc :: "'c \<Rightarrow> 'c heap \<Rightarrow> 'c heap \<times> addr" where
  "alloc c h = (\<lparr>hp_next = Suc (hp_next h), hp_cells = (hp_cells h)(hp_next h \<mapsto> c)\<rparr>, hp_next h)"

lemma alloc_wf:
  assumes "heap_wf h"
  shows "heap_wf (fst (alloc c h))" and "hp_cells h \<subseteq>\<^sub>m hp_cells (fst (alloc c h))"
    and "hp_cells (fst (alloc c h)) (snd (alloc c h)) = Some c" and "snd (alloc c h) \<notin> dom (hp_cells h)"
  using assms by (auto simp: alloc_def heap_wf_def map_le_def less_Suc_eq)

section \<open>Deep copies\<close>

text \<open>\<open>read\<close> is the value an object stands for, \<open>None\<close> where a reference dangles; \<open>foot\<close> the addresses it uses.\<close>

locale deep_copy =
  fixes read :: "'c heap \<Rightarrow> 'a \<Rightarrow> 'v option" and foot :: "'c heap \<Rightarrow> 'a \<Rightarrow> addr set" and copy :: "'c heap \<Rightarrow> 'a \<Rightarrow> 'c heap \<times> 'a"
  assumes frame: "read h x = Some v \<Longrightarrow> \<forall>a \<in> foot h x. hp_cells h' a = hp_cells h a \<Longrightarrow> read h' x = Some v \<and> foot h' x = foot h x"
    and foot_dom: "read h x = Some v \<Longrightarrow> foot h x \<subseteq> dom (hp_cells h)"
    and copy_ok: "heap_wf h \<Longrightarrow> read h x = Some v \<Longrightarrow> copy h x = (h', y) \<Longrightarrow>
      heap_wf h' \<and> hp_cells h \<subseteq>\<^sub>m hp_cells h' \<and> read h' y = Some v \<and> foot h' y \<inter> dom (hp_cells h) = {}"
begin

lemma read_extends:
  assumes "read h x = Some v" and "hp_cells h \<subseteq>\<^sub>m hp_cells h'"
  shows "read h' x = Some v \<and> foot h' x = foot h x"
proof (rule frame [OF assms(1)])
  show "\<forall>a \<in> foot h x. hp_cells h' a = hp_cells h a"
    using foot_dom [OF assms(1)] assms(2) by (auto simp: map_le_def dom_def)
qed

text \<open>The copy and its source can be changed independently.\<close>

lemma copy_independent:
  assumes "heap_wf h" and "read h x = Some v" and "copy h x = (h', y)"
  shows "read h' x = Some v" and "read h' y = Some v" and "foot h' x \<inter> foot h' y = {}"
    and "\<And>g. \<forall>a. a \<notin> foot h' y \<longrightarrow> hp_cells g a = hp_cells h' a \<Longrightarrow> read g x = Some v"
    and "\<And>g. \<forall>a. a \<notin> foot h' x \<longrightarrow> hp_cells g a = hp_cells h' a \<Longrightarrow> read g y = Some v"
proof -
  note ok = copy_ok [OF assms]
  note x = read_extends [OF assms(2), of h']
  show xv: "read h' x = Some v" and yv: "read h' y = Some v" using ok x by auto
  show disj: "foot h' x \<inter> foot h' y = {}" using ok x foot_dom [OF assms(2)] by auto
  show "read g x = Some v" if "\<forall>a. a \<notin> foot h' y \<longrightarrow> hp_cells g a = hp_cells h' a" for g
    using frame [OF xv, of g] that disj by blast
  show "read g y = Some v" if "\<forall>a. a \<notin> foot h' x \<longrightarrow> hp_cells g a = hp_cells h' a" for g
    using frame [OF yv, of g] that disj by blast
qed

end

section \<open>Building deep copies\<close>

text \<open>Values without references: assignment copies them.\<close>

interpretation plain: deep_copy "\<lambda>h x. Some x" "\<lambda>h x. {}" "\<lambda>h x. (h, x)"
  by unfold_locales auto

text \<open>Two parts, copied one after the other.\<close>

definition pair_read :: "('c heap \<Rightarrow> 'a \<Rightarrow> 'v option) \<Rightarrow> ('c heap \<Rightarrow> 'b \<Rightarrow> 'w option) \<Rightarrow> 'c heap \<Rightarrow> 'a \<times> 'b \<Rightarrow> ('v \<times> 'w) option" where
  "pair_read r1 r2 h = (\<lambda>(x, y). case (r1 h x, r2 h y) of (Some v, Some w) \<Rightarrow> Some (v, w) | _ \<Rightarrow> None)"

definition pair_foot :: "('c heap \<Rightarrow> 'a \<Rightarrow> addr set) \<Rightarrow> ('c heap \<Rightarrow> 'b \<Rightarrow> addr set) \<Rightarrow> 'c heap \<Rightarrow> 'a \<times> 'b \<Rightarrow> addr set" where
  "pair_foot f1 f2 h = (\<lambda>(x, y). f1 h x \<union> f2 h y)"

definition pair_copy :: "('c heap \<Rightarrow> 'a \<Rightarrow> 'c heap \<times> 'a) \<Rightarrow> ('c heap \<Rightarrow> 'b \<Rightarrow> 'c heap \<times> 'b) \<Rightarrow> 'c heap \<Rightarrow> 'a \<times> 'b \<Rightarrow> 'c heap \<times> 'a \<times> 'b" where
  "pair_copy c1 c2 h = (\<lambda>(x, y). case c1 h x of (h1, x') \<Rightarrow> (case c2 h1 y of (h2, y') \<Rightarrow> (h2, x', y')))"

lemma pair_read_Some: "pair_read r1 r2 h (x, y) = Some u \<longleftrightarrow> (\<exists>v w. u = (v, w) \<and> r1 h x = Some v \<and> r2 h y = Some w)"
  by (auto simp: pair_read_def split: option.splits)

lemma deep_copy_pair:
  assumes "deep_copy r1 f1 c1" and "deep_copy r2 f2 c2"
  shows "deep_copy (pair_read r1 r2) (pair_foot f1 f2) (pair_copy c1 c2)"
proof
  fix h h' :: "'a heap" and z :: "'b \<times> 'd" and u
  assume r: "pair_read r1 r2 h z = Some u" and eq: "\<forall>a \<in> pair_foot f1 f2 h z. hp_cells h' a = hp_cells h a"
  obtain x y where z: "z = (x, y)" by (cases z)
  obtain v w where vw: "u = (v, w)" "r1 h x = Some v" "r2 h y = Some w" using r by (auto simp: z pair_read_Some)
  with eq deep_copy.frame [OF assms(1) vw(2), of h'] deep_copy.frame [OF assms(2) vw(3), of h']
  show "pair_read r1 r2 h' z = Some u \<and> pair_foot f1 f2 h' z = pair_foot f1 f2 h z"
    by (simp add: z pair_read_Some pair_foot_def)
next
  fix h :: "'a heap" and z :: "'b \<times> 'd" and u
  assume "pair_read r1 r2 h z = Some u"
  then show "pair_foot f1 f2 h z \<subseteq> dom (hp_cells h)"
    using deep_copy.foot_dom [OF assms(1)] deep_copy.foot_dom [OF assms(2)]
    by (cases z) (fastforce simp: pair_read_Some pair_foot_def)
next
  fix h h' :: "'a heap" and z z' :: "'b \<times> 'd" and u
  assume wf: "heap_wf h" and r: "pair_read r1 r2 h z = Some u" and c: "pair_copy c1 c2 h z = (h', z')"
  obtain x y where z: "z = (x, y)" by (cases z)
  obtain v w where vw: "u = (v, w)" "r1 h x = Some v" "r2 h y = Some w" using r by (auto simp: z pair_read_Some)
  obtain h1 x' where c1: "c1 h x = (h1, x')" by (cases "c1 h x")
  obtain y' where c2: "c2 h1 y = (h', y')" and z': "z' = (x', y')" using c by (auto simp: z pair_copy_def c1 split: prod.splits)
  note ok1 = deep_copy.copy_ok [OF assms(1) wf vw(2) c1]
  have "r2 h1 y = Some w" using deep_copy.read_extends [OF assms(2) vw(3)] ok1 by blast
  note ok2 = deep_copy.copy_ok [OF assms(2) _ this c2]
  have x': "r1 h' x' = Some v \<and> f1 h' x' = f1 h1 x'" using deep_copy.read_extends [OF assms(1), of h1 x' v h'] ok1 ok2 by blast
  have "dom (hp_cells h) \<subseteq> dom (hp_cells h1)" using ok1 by (simp add: map_le_implies_dom_le)
  then have "f2 h' y' \<inter> dom (hp_cells h) = {}" using ok1 ok2 by blast
  with ok1 ok2 x' show "heap_wf h' \<and> hp_cells h \<subseteq>\<^sub>m hp_cells h' \<and> pair_read r1 r2 h' z' = Some u \<and> pair_foot f1 f2 h' z' \<inter> dom (hp_cells h) = {}"
    by (simp add: z' vw(1) pair_read_Some pair_foot_def Int_Un_distrib2) (blast intro: map_le_trans)
qed

text \<open>A struct is its parts under another name.\<close>

lemma deep_copy_struct:
  fixes r :: "'c heap \<Rightarrow> 'a \<Rightarrow> 'v option" and r' :: "'c heap \<Rightarrow> 's \<Rightarrow> 'w option"
  assumes "deep_copy r f c" and "\<And>y. parts (wrap y) = y"
    and "\<And>h s. r' h s = map_option build (r h (parts s))" and "\<And>h s. f' h s = f h (parts s)"
    and "\<And>h s. c' h s = (case c h (parts s) of (h', y) \<Rightarrow> (h', wrap y))"
  shows "deep_copy r' f' c'"
proof
  fix h h' :: "'c heap" and s v
  assume "r' h s = Some v" and "\<forall>a \<in> f' h s. hp_cells h' a = hp_cells h a"
  then show "r' h' s = Some v \<and> f' h' s = f' h s"
    using deep_copy.frame [OF assms(1), of h "parts s" _ h'] by (auto simp: assms(3,4))
next
  fix h :: "'c heap" and s v
  assume "r' h s = Some v"
  then obtain u where "r h (parts s) = Some u" by (auto simp: assms(3))
  then show "f' h s \<subseteq> dom (hp_cells h)" unfolding assms(4) by (rule deep_copy.foot_dom [OF assms(1)])
next
  fix h h' :: "'c heap" and s t v
  assume wf: "heap_wf h" and "r' h s = Some v" and c: "c' h s = (h', t)"
  then obtain u where u: "r h (parts s) = Some u" "v = build u" by (auto simp: assms(3))
  obtain y where y: "c h (parts s) = (h', y)" "t = wrap y" using c by (auto simp: assms(5) split: prod.splits)
  from deep_copy.copy_ok [OF assms(1) wf u(1) y(1)] show "heap_wf h' \<and> hp_cells h \<subseteq>\<^sub>m hp_cells h' \<and> r' h' t = Some v \<and> f' h' t \<inter> dom (hp_cells h) = {}"
    by (simp add: assms(2,3,4) u(2) y(2))
qed

text \<open>A pointer: the object behind it is copied into a new cell.\<close>

definition ptr_read :: "('c \<Rightarrow> 'a option) \<Rightarrow> ('c heap \<Rightarrow> 'a \<Rightarrow> 'v option) \<Rightarrow> 'c heap \<Rightarrow> addr option \<Rightarrow> 'v option option" where
  "ptr_read dest r h p = (case p of
       None \<Rightarrow> Some None
     | Some a \<Rightarrow> map_option Some (Option.bind (Option.bind (hp_cells h a) dest) (r h)))"

definition ptr_foot :: "('c \<Rightarrow> 'a option) \<Rightarrow> ('c heap \<Rightarrow> 'a \<Rightarrow> addr set) \<Rightarrow> 'c heap \<Rightarrow> addr option \<Rightarrow> addr set" where
  "ptr_foot dest f h p = (case p of
       None \<Rightarrow> {}
     | Some a \<Rightarrow> insert a (case Option.bind (hp_cells h a) dest of None \<Rightarrow> {} | Some x \<Rightarrow> f h x))"

definition ptr_copy :: "('c \<Rightarrow> 'a option) \<Rightarrow> ('a \<Rightarrow> 'c) \<Rightarrow> ('c heap \<Rightarrow> 'a \<Rightarrow> 'c heap \<times> 'a) \<Rightarrow> 'c heap \<Rightarrow> addr option \<Rightarrow> 'c heap \<times> addr option" where
  "ptr_copy dest cell c h p = (case p of
       None \<Rightarrow> (h, None)
     | Some a \<Rightarrow> (case Option.bind (hp_cells h a) dest of
           None \<Rightarrow> (h, Some a)
         | Some x \<Rightarrow> (case c h x of (h1, y) \<Rightarrow> (case alloc (cell y) h1 of (h2, b) \<Rightarrow> (h2, Some b)))))"

lemma ptr_read_Some:
  "ptr_read dest r h p = Some u \<longleftrightarrow> (p = None \<and> u = None)
     \<or> (\<exists>a c x v. p = Some a \<and> hp_cells h a = Some c \<and> dest c = Some x \<and> r h x = Some v \<and> u = Some v)"
  by (auto simp: ptr_read_def split: option.splits Option.bind_splits)

lemma deep_copy_ptr:
  fixes r :: "'c heap \<Rightarrow> 'a \<Rightarrow> 'v option"
  assumes "deep_copy r f c" and "\<And>x. dest (cell x) = Some x"
  shows "deep_copy (ptr_read dest r) (ptr_foot dest f) (ptr_copy dest cell c)"
proof
  fix h h' :: "'c heap" and p u
  assume "ptr_read dest r h p = Some u" and "\<forall>a \<in> ptr_foot dest f h p. hp_cells h' a = hp_cells h a"
  then show "ptr_read dest r h' p = Some u \<and> ptr_foot dest f h' p = ptr_foot dest f h p"
    using deep_copy.frame [OF assms(1), of h _ _ h'] unfolding ptr_read_Some by (fastforce simp: ptr_foot_def)
next
  fix h :: "'c heap" and p u
  assume "ptr_read dest r h p = Some u"
  then show "ptr_foot dest f h p \<subseteq> dom (hp_cells h)"
    using deep_copy.foot_dom [OF assms(1), of h] unfolding ptr_read_Some by (fastforce simp: ptr_foot_def)
next
  fix h h' :: "'c heap" and p p' u
  assume wf: "heap_wf h" and "ptr_read dest r h p = Some u" and cp: "ptr_copy dest cell c h p = (h', p')"
  then consider "p = None" "u = None" | a e x v where "p = Some a" "hp_cells h a = Some e" "dest e = Some x" "r h x = Some v" "u = Some v"
    unfolding ptr_read_Some by blast
  then show "heap_wf h' \<and> hp_cells h \<subseteq>\<^sub>m hp_cells h' \<and> ptr_read dest r h' p' = Some u \<and> ptr_foot dest f h' p' \<inter> dom (hp_cells h) = {}"
  proof cases
    case 1
    with wf cp show ?thesis by (simp add: ptr_copy_def ptr_read_def ptr_foot_def)
  next
    case (2 a e x v)
    obtain h1 y where y: "c h x = (h1, y)" by (cases "c h x")
    note ok = deep_copy.copy_ok [OF assms(1) wf 2(4) y]
    let ?h2 = "fst (alloc (cell y) h1)" and ?b = "snd (alloc (cell y) h1)"
    have new: "h' = ?h2" "p' = Some ?b" using cp 2 y by (auto simp: ptr_copy_def split: prod.splits)
    note al = alloc_wf [of h1 "cell y"]
    have r: "r ?h2 y = Some v \<and> f ?h2 y = f h1 y"
      using deep_copy.read_extends [OF assms(1), of h1 y v ?h2] ok al(2) by blast
    have "?b \<notin> dom (hp_cells h)" using al(4) ok map_le_implies_dom_le by blast
    moreover have "hp_cells h \<subseteq>\<^sub>m hp_cells ?h2" using ok al(2) map_le_trans by blast
    ultimately show ?thesis
      using ok al(1,3) r 2(5) by (simp add: new ptr_read_def ptr_foot_def assms(2))
  qed
qed

text \<open>The elements of a slice, from the first to the last.\<close>

fun list_read :: "('c heap \<Rightarrow> 'a \<Rightarrow> 'v option) \<Rightarrow> 'c heap \<Rightarrow> 'a list \<Rightarrow> 'v list option" where
  "list_read r h [] = Some []"
| "list_read r h (x # xs) = (case (r h x, list_read r h xs) of (Some v, Some vs) \<Rightarrow> Some (v # vs) | _ \<Rightarrow> None)"

definition list_foot :: "('c heap \<Rightarrow> 'a \<Rightarrow> addr set) \<Rightarrow> 'c heap \<Rightarrow> 'a list \<Rightarrow> addr set" where
  "list_foot f h xs = (\<Union>x \<in> set xs. f h x)"

fun list_copy :: "('c heap \<Rightarrow> 'a \<Rightarrow> 'c heap \<times> 'a) \<Rightarrow> 'c heap \<Rightarrow> 'a list \<Rightarrow> 'c heap \<times> 'a list" where
  "list_copy c h [] = (h, [])"
| "list_copy c h (x # xs) = (case c h x of (h1, y) \<Rightarrow> (case list_copy c h1 xs of (h2, ys) \<Rightarrow> (h2, y # ys)))"

lemma list_read_Cons: "list_read r h (x # xs) = Some us \<longleftrightarrow> (\<exists>v vs. us = v # vs \<and> r h x = Some v \<and> list_read r h xs = Some vs)"
  by (auto split: option.splits)

lemma list_foot_dom:
  fixes r :: "'c heap \<Rightarrow> 'a \<Rightarrow> 'v option"
  assumes "deep_copy r f c" and "list_read r h xs = Some us"
  shows "list_foot f h xs \<subseteq> dom (hp_cells h)"
  using assms(2)
proof (induction xs arbitrary: us)
  case (Cons x xs)
  then obtain v vs where "r h x = Some v" "list_read r h xs = Some vs" unfolding list_read_Cons by blast
  with Cons.IH deep_copy.foot_dom [OF assms(1)] show ?case by (simp add: list_foot_def)
qed (simp add: list_foot_def)

lemma list_frame:
  fixes r :: "'c heap \<Rightarrow> 'a \<Rightarrow> 'v option" and h h' :: "'c heap"
  assumes "deep_copy r f c" and "list_read r h xs = Some us" and "\<forall>a \<in> list_foot f h xs. hp_cells h' a = hp_cells h a"
  shows "list_read r h' xs = Some us \<and> list_foot f h' xs = list_foot f h xs"
  using assms(2,3)
proof (induction xs arbitrary: us)
  case (Cons x xs)
  then obtain v vs where vs: "us = v # vs" "r h x = Some v" "list_read r h xs = Some vs" unfolding list_read_Cons by blast
  have "r h' x = Some v \<and> f h' x = f h x"
    using deep_copy.frame [OF assms(1) vs(2), of h'] Cons.prems(2) by (simp add: list_foot_def)
  moreover have "list_read r h' xs = Some vs \<and> list_foot f h' xs = list_foot f h xs"
    using Cons.IH [OF vs(3)] Cons.prems(2) by (simp add: list_foot_def)
  ultimately show ?case by (simp add: vs(1) list_foot_def)
qed (simp add: list_foot_def)

lemma list_copy_ok:
  fixes r :: "'c heap \<Rightarrow> 'a \<Rightarrow> 'v option" and h h' :: "'c heap"
  assumes "deep_copy r f c" and "heap_wf h" and "list_read r h xs = Some us" and "list_copy c h xs = (h', ys)"
  shows "heap_wf h' \<and> hp_cells h \<subseteq>\<^sub>m hp_cells h' \<and> list_read r h' ys = Some us \<and> list_foot f h' ys \<inter> dom (hp_cells h) = {}"
  using assms(2-4)
proof (induction xs arbitrary: h us ys)
  case (Cons x xs)
  obtain v vs where vs: "us = v # vs" "r h x = Some v" "list_read r h xs = Some vs" using Cons.prems(2) unfolding list_read_Cons by blast
  obtain h1 y where y: "c h x = (h1, y)" by (cases "c h x")
  obtain zs where zs: "list_copy c h1 xs = (h', zs)" "ys = y # zs" using Cons.prems(3) y by (auto split: prod.splits)
  note ok1 = deep_copy.copy_ok [OF assms(1) Cons.prems(1) vs(2) y]
  have "list_foot f h xs \<subseteq> dom (hp_cells h)" by (rule list_foot_dom [OF assms(1) vs(3)])
  then have "\<forall>a \<in> list_foot f h xs. hp_cells h1 a = hp_cells h a" using ok1 unfolding map_le_def by (metis subsetD)
  then have "list_read r h1 xs = Some vs" using list_frame [OF assms(1) vs(3)] by blast
  note ok2 = Cons.IH [OF _ this zs(1)]
  have y': "r h' y = Some v \<and> f h' y = f h1 y" using deep_copy.read_extends [OF assms(1), of h1 y v h'] ok1 ok2 by blast
  have "list_foot f h' zs \<inter> dom (hp_cells h) = {}" using ok1 ok2 map_le_implies_dom_le by blast
  then have "list_foot f h' ys \<inter> dom (hp_cells h) = {}" using y' ok1 by (auto simp: zs(2) list_foot_def)
  moreover have "hp_cells h \<subseteq>\<^sub>m hp_cells h'" using ok1 ok2 map_le_trans by blast
  ultimately show ?case using ok1 ok2 y' by (simp add: zs(2) vs(1))
qed (simp add: list_foot_def)

lemma deep_copy_list:
  fixes r :: "'c heap \<Rightarrow> 'a \<Rightarrow> 'v option"
  assumes "deep_copy r f c"
  shows "deep_copy (list_read r) (list_foot f) (list_copy c)"
proof
  fix h h' :: "'c heap" and xs us
  assume "list_read r h xs = Some us" and "\<forall>a \<in> list_foot f h xs. hp_cells h' a = hp_cells h a"
  then show "list_read r h' xs = Some us \<and> list_foot f h' xs = list_foot f h xs" by (rule list_frame [OF assms])
next
  fix h :: "'c heap" and xs us
  assume "list_read r h xs = Some us"
  then show "list_foot f h xs \<subseteq> dom (hp_cells h)" by (rule list_foot_dom [OF assms])
qed (rule list_copy_ok [OF assms])

end
