(* ===== verification/Api_Deepcopy.thy ===== *)
theory Api_Deepcopy
  imports Store Controllers
begin

text \<open>
  The deep copies of the API types, \<open>api/v1alpha1/zz_generated.deepcopy.go\<close>, over an explicit store. The
  structs here keep references: a pointer, a map or a slice is an address or \<open>nil\<close>. \<open>read\<close> functions give the
  value of \<open>Controllers\<close> that an object stands for. The types of the Kubernetes library
  (\<open>LabelSelector\<close>, \<open>ObjectMeta\<close>, \<open>ListMeta\<close>, \<open>Condition\<close>) are type variables, and their deep copies are
  arguments (\<open>meta_library\<close>) that are assumed to be deep copies. A new cell is filled before its address is
  taken, which no other code can observe.
\<close>

section \<open>Structs with references\<close>

record GatewayConfig_ref =
  gcr_Selector :: "addr option"
  gcr_PortConfig :: PortConfig

record IngressConfig_ref =
  icr_Type :: string
  icr_GatewayConfig :: GatewayConfig_ref

record ExportRules_ref =
  err_ServiceSelectors :: "addr option"

record MeshFederationSpec_ref =
  mfsr_Network :: string
  mfsr_TrustDomain :: string
  mfsr_ControlPlaneNamespace :: string
  mfsr_IngressConfig :: IngressConfig_ref
  mfsr_ExportRules :: "addr option"

record MeshFederationStatus_ref =
  mstr_Conditions :: "addr option"

type_synonym TypeMeta = "string \<times> string"

record 'm MeshFederation_ref =
  mfr_TypeMeta :: TypeMeta
  mfr_ObjectMeta :: 'm
  mfr_Spec :: MeshFederationSpec_ref
  mfr_Status :: MeshFederationStatus_ref

record 'n MeshFederationList_ref =
  mflr_TypeMeta :: TypeMeta
  mflr_ListMeta :: 'n
  mflr_Items :: "addr option"

record FederatedServiceSpec =
  fss_Foo :: string

datatype FederatedServiceStatus = FederatedServiceStatus

record 'm FederatedService_ref =
  fsr_TypeMeta :: TypeMeta
  fsr_ObjectMeta :: 'm
  fsr_Spec :: FederatedServiceSpec
  fsr_Status :: FederatedServiceStatus

record 'n FederatedServiceList_ref =
  fslr_TypeMeta :: TypeMeta
  fslr_ListMeta :: 'n
  fslr_Items :: "addr option"

section \<open>Cells\<close>

datatype ('l, 'c, 'm, 'n) api_cell =
    SelectorCell 'l
  | MapCell labels
  | ConditionsCell "'c list"
  | ExportRulesCell ExportRules_ref
  | GatewayConfigCell GatewayConfig_ref
  | IngressConfigCell IngressConfig_ref
  | PortConfigCell PortConfig
  | SpecCell MeshFederationSpec_ref
  | StatusCell MeshFederationStatus_ref
  | MeshFederationCell "'m MeshFederation_ref"
  | MeshFederationsCell "'m MeshFederation_ref list"
  | MeshFederationListCell "'n MeshFederationList_ref"
  | ServiceSpecCell FederatedServiceSpec
  | ServiceStatusCell FederatedServiceStatus
  | FederatedServiceCell "'m FederatedService_ref"
  | FederatedServicesCell "'m FederatedService_ref list"
  | FederatedServiceListCell "'n FederatedServiceList_ref"

type_synonym ('l, 'c, 'm, 'n) api_heap = "('l, 'c, 'm, 'n) api_cell heap"

abbreviation "in_Selector \<equiv> (\<lambda>e. case e of SelectorCell x \<Rightarrow> Some x | _ \<Rightarrow> None)"
abbreviation "in_Map \<equiv> (\<lambda>e. case e of MapCell x \<Rightarrow> Some x | _ \<Rightarrow> None)"
abbreviation "in_Conditions \<equiv> (\<lambda>e. case e of ConditionsCell x \<Rightarrow> Some x | _ \<Rightarrow> None)"
abbreviation "in_ExportRules \<equiv> (\<lambda>e. case e of ExportRulesCell x \<Rightarrow> Some x | _ \<Rightarrow> None)"
abbreviation "in_GatewayConfig \<equiv> (\<lambda>e. case e of GatewayConfigCell x \<Rightarrow> Some x | _ \<Rightarrow> None)"
abbreviation "in_IngressConfig \<equiv> (\<lambda>e. case e of IngressConfigCell x \<Rightarrow> Some x | _ \<Rightarrow> None)"
abbreviation "in_PortConfig \<equiv> (\<lambda>e. case e of PortConfigCell x \<Rightarrow> Some x | _ \<Rightarrow> None)"
abbreviation "in_Spec \<equiv> (\<lambda>e. case e of SpecCell x \<Rightarrow> Some x | _ \<Rightarrow> None)"
abbreviation "in_Status \<equiv> (\<lambda>e. case e of StatusCell x \<Rightarrow> Some x | _ \<Rightarrow> None)"
abbreviation "in_MeshFederation \<equiv> (\<lambda>e. case e of MeshFederationCell x \<Rightarrow> Some x | _ \<Rightarrow> None)"
abbreviation "in_MeshFederations \<equiv> (\<lambda>e. case e of MeshFederationsCell x \<Rightarrow> Some x | _ \<Rightarrow> None)"
abbreviation "in_MeshFederationList \<equiv> (\<lambda>e. case e of MeshFederationListCell x \<Rightarrow> Some x | _ \<Rightarrow> None)"
abbreviation "in_ServiceSpec \<equiv> (\<lambda>e. case e of ServiceSpecCell x \<Rightarrow> Some x | _ \<Rightarrow> None)"
abbreviation "in_ServiceStatus \<equiv> (\<lambda>e. case e of ServiceStatusCell x \<Rightarrow> Some x | _ \<Rightarrow> None)"
abbreviation "in_FederatedService \<equiv> (\<lambda>e. case e of FederatedServiceCell x \<Rightarrow> Some x | _ \<Rightarrow> None)"
abbreviation "in_FederatedServices \<equiv> (\<lambda>e. case e of FederatedServicesCell x \<Rightarrow> Some x | _ \<Rightarrow> None)"
abbreviation "in_FederatedServiceList \<equiv> (\<lambda>e. case e of FederatedServiceListCell x \<Rightarrow> Some x | _ \<Rightarrow> None)"

record ('l, 'c, 'm, 'n) meta_library =
  ml_LabelSelector :: "('l, 'c, 'm, 'n) api_heap \<Rightarrow> 'l \<Rightarrow> ('l, 'c, 'm, 'n) api_heap \<times> 'l"
  ml_Condition :: "('l, 'c, 'm, 'n) api_heap \<Rightarrow> 'c \<Rightarrow> ('l, 'c, 'm, 'n) api_heap \<times> 'c"
  ml_ObjectMeta :: "('l, 'c, 'm, 'n) api_heap \<Rightarrow> 'm \<Rightarrow> ('l, 'c, 'm, 'n) api_heap \<times> 'm"
  ml_ListMeta :: "('l, 'c, 'm, 'n) api_heap \<Rightarrow> 'n \<Rightarrow> ('l, 'c, 'm, 'n) api_heap \<times> 'n"

section \<open>DeepCopyInto and DeepCopy\<close>

text \<open>The second component of a result is what the code writes to \<open>*out\<close>.\<close>

definition ExportRules_DeepCopyInto :: "('l, 'c, 'm, 'n) meta_library \<Rightarrow> ('l, 'c, 'm, 'n) api_heap \<Rightarrow> ExportRules_ref
    \<Rightarrow> ('l, 'c, 'm, 'n) api_heap \<times> ExportRules_ref" where
  "ExportRules_DeepCopyInto lib h inn =
     (case ptr_copy in_Selector SelectorCell (ml_LabelSelector lib) h (err_ServiceSelectors inn) of
        (h', p) \<Rightarrow> (h', inn\<lparr>err_ServiceSelectors := p\<rparr>))"

definition ExportRules_DeepCopy :: "('l, 'c, 'm, 'n) meta_library \<Rightarrow> ('l, 'c, 'm, 'n) api_heap \<Rightarrow> addr option
    \<Rightarrow> ('l, 'c, 'm, 'n) api_heap \<times> addr option" where
  "ExportRules_DeepCopy lib = ptr_copy in_ExportRules ExportRulesCell (ExportRules_DeepCopyInto lib)"

definition PortConfig_DeepCopyInto :: "('l, 'c, 'm, 'n) api_heap \<Rightarrow> PortConfig \<Rightarrow> ('l, 'c, 'm, 'n) api_heap \<times> PortConfig" where
  "PortConfig_DeepCopyInto h inn = (h, inn)"

definition PortConfig_DeepCopy :: "('l, 'c, 'm, 'n) api_heap \<Rightarrow> addr option \<Rightarrow> ('l, 'c, 'm, 'n) api_heap \<times> addr option" where
  "PortConfig_DeepCopy = ptr_copy in_PortConfig PortConfigCell PortConfig_DeepCopyInto"

text \<open>The loop over the entries of the selector fills the new map with all of them.\<close>

definition GatewayConfig_DeepCopyInto :: "('l, 'c, 'm, 'n) api_heap \<Rightarrow> GatewayConfig_ref \<Rightarrow> ('l, 'c, 'm, 'n) api_heap \<times> GatewayConfig_ref" where
  "GatewayConfig_DeepCopyInto h inn =
     (case ptr_copy in_Map MapCell (\<lambda>h m. (h, m)) h (gcr_Selector inn) of
        (h', p) \<Rightarrow> (h', inn\<lparr>gcr_Selector := p, gcr_PortConfig := gcr_PortConfig inn\<rparr>))"

definition GatewayConfig_DeepCopy :: "('l, 'c, 'm, 'n) api_heap \<Rightarrow> addr option \<Rightarrow> ('l, 'c, 'm, 'n) api_heap \<times> addr option" where
  "GatewayConfig_DeepCopy = ptr_copy in_GatewayConfig GatewayConfigCell GatewayConfig_DeepCopyInto"

definition IngressConfig_DeepCopyInto :: "('l, 'c, 'm, 'n) api_heap \<Rightarrow> IngressConfig_ref \<Rightarrow> ('l, 'c, 'm, 'n) api_heap \<times> IngressConfig_ref" where
  "IngressConfig_DeepCopyInto h inn =
     (case GatewayConfig_DeepCopyInto h (icr_GatewayConfig inn) of (h', g) \<Rightarrow> (h', inn\<lparr>icr_GatewayConfig := g\<rparr>))"

definition IngressConfig_DeepCopy :: "('l, 'c, 'm, 'n) api_heap \<Rightarrow> addr option \<Rightarrow> ('l, 'c, 'm, 'n) api_heap \<times> addr option" where
  "IngressConfig_DeepCopy = ptr_copy in_IngressConfig IngressConfigCell IngressConfig_DeepCopyInto"

definition MeshFederationSpec_DeepCopyInto :: "('l, 'c, 'm, 'n) meta_library \<Rightarrow> ('l, 'c, 'm, 'n) api_heap \<Rightarrow> MeshFederationSpec_ref
    \<Rightarrow> ('l, 'c, 'm, 'n) api_heap \<times> MeshFederationSpec_ref" where
  "MeshFederationSpec_DeepCopyInto lib h inn =
     (case IngressConfig_DeepCopyInto h (mfsr_IngressConfig inn) of (h1, ingress) \<Rightarrow>
        (case ptr_copy in_ExportRules ExportRulesCell (ExportRules_DeepCopyInto lib) h1 (mfsr_ExportRules inn) of (h2, rules) \<Rightarrow>
           (h2, inn\<lparr>mfsr_IngressConfig := ingress, mfsr_ExportRules := rules\<rparr>)))"

definition MeshFederationSpec_DeepCopy :: "('l, 'c, 'm, 'n) meta_library \<Rightarrow> ('l, 'c, 'm, 'n) api_heap \<Rightarrow> addr option
    \<Rightarrow> ('l, 'c, 'm, 'n) api_heap \<times> addr option" where
  "MeshFederationSpec_DeepCopy lib = ptr_copy in_Spec SpecCell (MeshFederationSpec_DeepCopyInto lib)"

definition MeshFederationStatus_DeepCopyInto :: "('l, 'c, 'm, 'n) meta_library \<Rightarrow> ('l, 'c, 'm, 'n) api_heap \<Rightarrow> MeshFederationStatus_ref
    \<Rightarrow> ('l, 'c, 'm, 'n) api_heap \<times> MeshFederationStatus_ref" where
  "MeshFederationStatus_DeepCopyInto lib h inn =
     (case ptr_copy in_Conditions ConditionsCell (list_copy (ml_Condition lib)) h (mstr_Conditions inn) of
        (h', p) \<Rightarrow> (h', inn\<lparr>mstr_Conditions := p\<rparr>))"

definition MeshFederationStatus_DeepCopy :: "('l, 'c, 'm, 'n) meta_library \<Rightarrow> ('l, 'c, 'm, 'n) api_heap \<Rightarrow> addr option
    \<Rightarrow> ('l, 'c, 'm, 'n) api_heap \<times> addr option" where
  "MeshFederationStatus_DeepCopy lib = ptr_copy in_Status StatusCell (MeshFederationStatus_DeepCopyInto lib)"

definition MeshFederation_DeepCopyInto :: "('l, 'c, 'm, 'n) meta_library \<Rightarrow> ('l, 'c, 'm, 'n) api_heap \<Rightarrow> 'm MeshFederation_ref
    \<Rightarrow> ('l, 'c, 'm, 'n) api_heap \<times> 'm MeshFederation_ref" where
  "MeshFederation_DeepCopyInto lib h inn =
     (case ml_ObjectMeta lib h (mfr_ObjectMeta inn) of (h1, meta) \<Rightarrow>
        (case MeshFederationSpec_DeepCopyInto lib h1 (mfr_Spec inn) of (h2, spec) \<Rightarrow>
           (case MeshFederationStatus_DeepCopyInto lib h2 (mfr_Status inn) of (h3, status) \<Rightarrow>
              (h3, inn\<lparr>mfr_TypeMeta := mfr_TypeMeta inn, mfr_ObjectMeta := meta, mfr_Spec := spec, mfr_Status := status\<rparr>))))"

definition MeshFederation_DeepCopy :: "('l, 'c, 'm, 'n) meta_library \<Rightarrow> ('l, 'c, 'm, 'n) api_heap \<Rightarrow> addr option
    \<Rightarrow> ('l, 'c, 'm, 'n) api_heap \<times> addr option" where
  "MeshFederation_DeepCopy lib = ptr_copy in_MeshFederation MeshFederationCell (MeshFederation_DeepCopyInto lib)"

definition MeshFederation_DeepCopyObject :: "('l, 'c, 'm, 'n) meta_library \<Rightarrow> ('l, 'c, 'm, 'n) api_heap \<Rightarrow> addr option
    \<Rightarrow> ('l, 'c, 'm, 'n) api_heap \<times> addr option" where
  "MeshFederation_DeepCopyObject lib h inn = (case MeshFederation_DeepCopy lib h inn of (h', Some c) \<Rightarrow> (h', Some c) | (h', None) \<Rightarrow> (h', None))"

definition MeshFederationList_DeepCopyInto :: "('l, 'c, 'm, 'n) meta_library \<Rightarrow> ('l, 'c, 'm, 'n) api_heap \<Rightarrow> 'n MeshFederationList_ref
    \<Rightarrow> ('l, 'c, 'm, 'n) api_heap \<times> 'n MeshFederationList_ref" where
  "MeshFederationList_DeepCopyInto lib h inn =
     (case ml_ListMeta lib h (mflr_ListMeta inn) of (h1, meta) \<Rightarrow>
        (case ptr_copy in_MeshFederations MeshFederationsCell (list_copy (MeshFederation_DeepCopyInto lib)) h1 (mflr_Items inn) of (h2, items) \<Rightarrow>
           (h2, inn\<lparr>mflr_TypeMeta := mflr_TypeMeta inn, mflr_ListMeta := meta, mflr_Items := items\<rparr>)))"

definition MeshFederationList_DeepCopy :: "('l, 'c, 'm, 'n) meta_library \<Rightarrow> ('l, 'c, 'm, 'n) api_heap \<Rightarrow> addr option
    \<Rightarrow> ('l, 'c, 'm, 'n) api_heap \<times> addr option" where
  "MeshFederationList_DeepCopy lib = ptr_copy in_MeshFederationList MeshFederationListCell (MeshFederationList_DeepCopyInto lib)"

definition MeshFederationList_DeepCopyObject :: "('l, 'c, 'm, 'n) meta_library \<Rightarrow> ('l, 'c, 'm, 'n) api_heap \<Rightarrow> addr option
    \<Rightarrow> ('l, 'c, 'm, 'n) api_heap \<times> addr option" where
  "MeshFederationList_DeepCopyObject lib h inn =
     (case MeshFederationList_DeepCopy lib h inn of (h', Some c) \<Rightarrow> (h', Some c) | (h', None) \<Rightarrow> (h', None))"

definition FederatedServiceSpec_DeepCopyInto :: "('l, 'c, 'm, 'n) api_heap \<Rightarrow> FederatedServiceSpec \<Rightarrow> ('l, 'c, 'm, 'n) api_heap \<times> FederatedServiceSpec" where
  "FederatedServiceSpec_DeepCopyInto h inn = (h, inn)"

definition FederatedServiceSpec_DeepCopy :: "('l, 'c, 'm, 'n) api_heap \<Rightarrow> addr option \<Rightarrow> ('l, 'c, 'm, 'n) api_heap \<times> addr option" where
  "FederatedServiceSpec_DeepCopy = ptr_copy in_ServiceSpec ServiceSpecCell FederatedServiceSpec_DeepCopyInto"

definition FederatedServiceStatus_DeepCopyInto :: "('l, 'c, 'm, 'n) api_heap \<Rightarrow> FederatedServiceStatus \<Rightarrow> ('l, 'c, 'm, 'n) api_heap \<times> FederatedServiceStatus" where
  "FederatedServiceStatus_DeepCopyInto h inn = (h, inn)"

definition FederatedServiceStatus_DeepCopy :: "('l, 'c, 'm, 'n) api_heap \<Rightarrow> addr option \<Rightarrow> ('l, 'c, 'm, 'n) api_heap \<times> addr option" where
  "FederatedServiceStatus_DeepCopy = ptr_copy in_ServiceStatus ServiceStatusCell FederatedServiceStatus_DeepCopyInto"

text \<open>Spec and status of a \<open>FederatedService\<close> are assigned.\<close>

definition FederatedService_DeepCopyInto :: "('l, 'c, 'm, 'n) meta_library \<Rightarrow> ('l, 'c, 'm, 'n) api_heap \<Rightarrow> 'm FederatedService_ref
    \<Rightarrow> ('l, 'c, 'm, 'n) api_heap \<times> 'm FederatedService_ref" where
  "FederatedService_DeepCopyInto lib h inn =
     (case ml_ObjectMeta lib h (fsr_ObjectMeta inn) of (h', meta) \<Rightarrow>
        (h', inn\<lparr>fsr_TypeMeta := fsr_TypeMeta inn, fsr_ObjectMeta := meta, fsr_Spec := fsr_Spec inn, fsr_Status := fsr_Status inn\<rparr>))"

definition FederatedService_DeepCopy :: "('l, 'c, 'm, 'n) meta_library \<Rightarrow> ('l, 'c, 'm, 'n) api_heap \<Rightarrow> addr option
    \<Rightarrow> ('l, 'c, 'm, 'n) api_heap \<times> addr option" where
  "FederatedService_DeepCopy lib = ptr_copy in_FederatedService FederatedServiceCell (FederatedService_DeepCopyInto lib)"

definition FederatedService_DeepCopyObject :: "('l, 'c, 'm, 'n) meta_library \<Rightarrow> ('l, 'c, 'm, 'n) api_heap \<Rightarrow> addr option
    \<Rightarrow> ('l, 'c, 'm, 'n) api_heap \<times> addr option" where
  "FederatedService_DeepCopyObject lib h inn = (case FederatedService_DeepCopy lib h inn of (h', Some c) \<Rightarrow> (h', Some c) | (h', None) \<Rightarrow> (h', None))"

definition FederatedServiceList_DeepCopyInto :: "('l, 'c, 'm, 'n) meta_library \<Rightarrow> ('l, 'c, 'm, 'n) api_heap \<Rightarrow> 'n FederatedServiceList_ref
    \<Rightarrow> ('l, 'c, 'm, 'n) api_heap \<times> 'n FederatedServiceList_ref" where
  "FederatedServiceList_DeepCopyInto lib h inn =
     (case ml_ListMeta lib h (fslr_ListMeta inn) of (h1, meta) \<Rightarrow>
        (case ptr_copy in_FederatedServices FederatedServicesCell (list_copy (FederatedService_DeepCopyInto lib)) h1 (fslr_Items inn) of (h2, items) \<Rightarrow>
           (h2, inn\<lparr>fslr_TypeMeta := fslr_TypeMeta inn, fslr_ListMeta := meta, fslr_Items := items\<rparr>)))"

definition FederatedServiceList_DeepCopy :: "('l, 'c, 'm, 'n) meta_library \<Rightarrow> ('l, 'c, 'm, 'n) api_heap \<Rightarrow> addr option
    \<Rightarrow> ('l, 'c, 'm, 'n) api_heap \<times> addr option" where
  "FederatedServiceList_DeepCopy lib = ptr_copy in_FederatedServiceList FederatedServiceListCell (FederatedServiceList_DeepCopyInto lib)"

definition FederatedServiceList_DeepCopyObject :: "('l, 'c, 'm, 'n) meta_library \<Rightarrow> ('l, 'c, 'm, 'n) api_heap \<Rightarrow> addr option
    \<Rightarrow> ('l, 'c, 'm, 'n) api_heap \<times> addr option" where
  "FederatedServiceList_DeepCopyObject lib h inn =
     (case FederatedServiceList_DeepCopy lib h inn of (h', Some c) \<Rightarrow> (h', Some c) | (h', None) \<Rightarrow> (h', None))"

section \<open>The values the objects stand for, and their addresses\<close>

definition gateway_read :: "('l, 'c, 'm, 'n) api_heap \<Rightarrow> GatewayConfig_ref \<Rightarrow> GatewayConfig option" where
  "gateway_read h g = map_option (\<lambda>(sel, pc). \<lparr>gc_Selector = (case sel of None \<Rightarrow> Map.empty | Some m \<Rightarrow> m), gc_PortConfig = pc\<rparr>)
     (pair_read (ptr_read in_Map (\<lambda>h m. Some m)) (\<lambda>h x. Some x) h (gcr_Selector g, gcr_PortConfig g))"

definition gateway_foot :: "('l, 'c, 'm, 'n) api_heap \<Rightarrow> GatewayConfig_ref \<Rightarrow> addr set" where
  "gateway_foot h g = pair_foot (ptr_foot in_Map (\<lambda>h m. {})) (\<lambda>h x. {}) h (gcr_Selector g, gcr_PortConfig g)"

interpretation GatewayConfig_copy: deep_copy gateway_read gateway_foot GatewayConfig_DeepCopyInto
  by (rule deep_copy_struct [OF deep_copy_pair [OF deep_copy_ptr [OF plain.deep_copy_axioms, where dest = in_Map and cell = MapCell] plain.deep_copy_axioms],
        where parts = "\<lambda>g. (gcr_Selector g, gcr_PortConfig g)" and wrap = "\<lambda>(p, x). \<lparr>gcr_Selector = p, gcr_PortConfig = x\<rparr>"])
    (auto simp: gateway_read_def gateway_foot_def GatewayConfig_DeepCopyInto_def pair_copy_def split: prod.splits)

definition ingress_read :: "('l, 'c, 'm, 'n) api_heap \<Rightarrow> IngressConfig_ref \<Rightarrow> IngressConfig option" where
  "ingress_read h i = map_option (\<lambda>(t, g). \<lparr>ic_Type = t, ic_GatewayConfig = g\<rparr>)
     (pair_read (\<lambda>h x. Some x) gateway_read h (icr_Type i, icr_GatewayConfig i))"

definition ingress_foot :: "('l, 'c, 'm, 'n) api_heap \<Rightarrow> IngressConfig_ref \<Rightarrow> addr set" where
  "ingress_foot h i = pair_foot (\<lambda>h x. {}) gateway_foot h (icr_Type i, icr_GatewayConfig i)"

interpretation IngressConfig_copy: deep_copy ingress_read ingress_foot IngressConfig_DeepCopyInto
  by (rule deep_copy_struct [OF deep_copy_pair [OF plain.deep_copy_axioms GatewayConfig_copy.deep_copy_axioms],
        where parts = "\<lambda>i. (icr_Type i, icr_GatewayConfig i)" and wrap = "\<lambda>(t, g). \<lparr>icr_Type = t, icr_GatewayConfig = g\<rparr>"])
    (auto simp: ingress_read_def ingress_foot_def IngressConfig_DeepCopyInto_def pair_copy_def split: prod.splits)

definition rules_read :: "(('l, 'c, 'm, 'n) api_heap \<Rightarrow> 'l \<Rightarrow> LabelSelectors option) \<Rightarrow> ('l, 'c, 'm, 'n) api_heap \<Rightarrow> ExportRules_ref \<Rightarrow> ExportRules option" where
  "rules_read selRead h e = map_option (\<lambda>sel. \<lparr>er_ServiceSelectors = sel\<rparr>) (ptr_read in_Selector selRead h (err_ServiceSelectors e))"

definition rules_foot :: "(('l, 'c, 'm, 'n) api_heap \<Rightarrow> 'l \<Rightarrow> addr set) \<Rightarrow> ('l, 'c, 'm, 'n) api_heap \<Rightarrow> ExportRules_ref \<Rightarrow> addr set" where
  "rules_foot selFoot h e = ptr_foot in_Selector selFoot h (err_ServiceSelectors e)"

abbreviation spec_parts :: "MeshFederationSpec_ref \<Rightarrow> (string \<times> string \<times> string) \<times> IngressConfig_ref \<times> addr option" where
  "spec_parts s \<equiv> ((mfsr_Network s, mfsr_TrustDomain s, mfsr_ControlPlaneNamespace s), mfsr_IngressConfig s, mfsr_ExportRules s)"

definition spec_read :: "(('l, 'c, 'm, 'n) api_heap \<Rightarrow> 'l \<Rightarrow> LabelSelectors option) \<Rightarrow> ('l, 'c, 'm, 'n) api_heap \<Rightarrow> MeshFederationSpec_ref
    \<Rightarrow> MeshFederationSpec option" where
  "spec_read selRead h s = map_option (\<lambda>((n, t, c), i, e). \<lparr>mfs_Network = n, mfs_TrustDomain = t, mfs_ControlPlaneNamespace = c,
       mfs_IngressConfig = i, mfs_ExportRules = e\<rparr>)
     (pair_read (\<lambda>h x. Some x) (pair_read ingress_read (ptr_read in_ExportRules (rules_read selRead))) h (spec_parts s))"

definition spec_foot :: "(('l, 'c, 'm, 'n) api_heap \<Rightarrow> 'l \<Rightarrow> addr set) \<Rightarrow> ('l, 'c, 'm, 'n) api_heap \<Rightarrow> MeshFederationSpec_ref \<Rightarrow> addr set" where
  "spec_foot selFoot h s = pair_foot (\<lambda>h x. {}) (pair_foot ingress_foot (ptr_foot in_ExportRules (rules_foot selFoot))) h (spec_parts s)"

definition status_read :: "(('l, 'c, 'm, 'n) api_heap \<Rightarrow> 'c \<Rightarrow> Condition option) \<Rightarrow> ('l, 'c, 'm, 'n) api_heap \<Rightarrow> MeshFederationStatus_ref
    \<Rightarrow> MeshFederationStatus option" where
  "status_read condRead h s = map_option (\<lambda>cs. \<lparr>mst_Conditions = (case cs of None \<Rightarrow> [] | Some cs \<Rightarrow> cs)\<rparr>)
     (ptr_read in_Conditions (list_read condRead) h (mstr_Conditions s))"

definition status_foot :: "(('l, 'c, 'm, 'n) api_heap \<Rightarrow> 'c \<Rightarrow> addr set) \<Rightarrow> ('l, 'c, 'm, 'n) api_heap \<Rightarrow> MeshFederationStatus_ref \<Rightarrow> addr set" where
  "status_foot condFoot h s = ptr_foot in_Conditions (list_foot condFoot) h (mstr_Conditions s)"

abbreviation federation_parts :: "'m MeshFederation_ref \<Rightarrow> TypeMeta \<times> 'm \<times> MeshFederationSpec_ref \<times> MeshFederationStatus_ref" where
  "federation_parts m \<equiv> (mfr_TypeMeta m, mfr_ObjectMeta m, mfr_Spec m, mfr_Status m)"

text \<open>The type, the metadata, and the body of a MeshFederation as in \<open>Controllers\<close>.\<close>

definition federation_read :: "(('l, 'c, 'm, 'n) api_heap \<Rightarrow> 'l \<Rightarrow> LabelSelectors option) \<Rightarrow> (('l, 'c, 'm, 'n) api_heap \<Rightarrow> 'c \<Rightarrow> Condition option)
    \<Rightarrow> (('l, 'c, 'm, 'n) api_heap \<Rightarrow> 'm \<Rightarrow> 'v option) \<Rightarrow> ('l, 'c, 'm, 'n) api_heap \<Rightarrow> 'm MeshFederation_ref \<Rightarrow> (TypeMeta \<times> 'v \<times> MeshFederationBody) option" where
  "federation_read selRead condRead metaRead h m = map_option (\<lambda>(t, v, sp, st). (t, v, \<lparr>mf_Spec = sp, mf_Status = st\<rparr>))
     (pair_read (\<lambda>h x. Some x) (pair_read metaRead (pair_read (spec_read selRead) (status_read condRead))) h (federation_parts m))"

definition federation_foot :: "(('l, 'c, 'm, 'n) api_heap \<Rightarrow> 'l \<Rightarrow> addr set) \<Rightarrow> (('l, 'c, 'm, 'n) api_heap \<Rightarrow> 'c \<Rightarrow> addr set)
    \<Rightarrow> (('l, 'c, 'm, 'n) api_heap \<Rightarrow> 'm \<Rightarrow> addr set) \<Rightarrow> ('l, 'c, 'm, 'n) api_heap \<Rightarrow> 'm MeshFederation_ref \<Rightarrow> addr set" where
  "federation_foot selFoot condFoot metaFoot h m =
     pair_foot (\<lambda>h x. {}) (pair_foot metaFoot (pair_foot (spec_foot selFoot) (status_foot condFoot))) h (federation_parts m)"

definition federations_read :: "(('l, 'c, 'm, 'n) api_heap \<Rightarrow> 'l \<Rightarrow> LabelSelectors option) \<Rightarrow> (('l, 'c, 'm, 'n) api_heap \<Rightarrow> 'c \<Rightarrow> Condition option)
    \<Rightarrow> (('l, 'c, 'm, 'n) api_heap \<Rightarrow> 'm \<Rightarrow> 'v option) \<Rightarrow> (('l, 'c, 'm, 'n) api_heap \<Rightarrow> 'n \<Rightarrow> 'w option)
    \<Rightarrow> ('l, 'c, 'm, 'n) api_heap \<Rightarrow> 'n MeshFederationList_ref \<Rightarrow> (TypeMeta \<times> 'w \<times> (TypeMeta \<times> 'v \<times> MeshFederationBody) list option) option" where
  "federations_read selRead condRead metaRead listRead h m =
     pair_read (\<lambda>h x. Some x) (pair_read listRead (ptr_read in_MeshFederations (list_read (federation_read selRead condRead metaRead)))) h
       (mflr_TypeMeta m, mflr_ListMeta m, mflr_Items m)"

definition federations_foot :: "(('l, 'c, 'm, 'n) api_heap \<Rightarrow> 'l \<Rightarrow> addr set) \<Rightarrow> (('l, 'c, 'm, 'n) api_heap \<Rightarrow> 'c \<Rightarrow> addr set)
    \<Rightarrow> (('l, 'c, 'm, 'n) api_heap \<Rightarrow> 'm \<Rightarrow> addr set) \<Rightarrow> (('l, 'c, 'm, 'n) api_heap \<Rightarrow> 'n \<Rightarrow> addr set)
    \<Rightarrow> ('l, 'c, 'm, 'n) api_heap \<Rightarrow> 'n MeshFederationList_ref \<Rightarrow> addr set" where
  "federations_foot selFoot condFoot metaFoot listFoot h m =
     pair_foot (\<lambda>h x. {}) (pair_foot listFoot (ptr_foot in_MeshFederations (list_foot (federation_foot selFoot condFoot metaFoot)))) h
       (mflr_TypeMeta m, mflr_ListMeta m, mflr_Items m)"

definition service_read :: "(('l, 'c, 'm, 'n) api_heap \<Rightarrow> 'm \<Rightarrow> 'v option) \<Rightarrow> ('l, 'c, 'm, 'n) api_heap \<Rightarrow> 'm FederatedService_ref
    \<Rightarrow> ((TypeMeta \<times> FederatedServiceSpec \<times> FederatedServiceStatus) \<times> 'v) option" where
  "service_read metaRead h f = pair_read (\<lambda>h x. Some x) metaRead h ((fsr_TypeMeta f, fsr_Spec f, fsr_Status f), fsr_ObjectMeta f)"

definition service_foot :: "(('l, 'c, 'm, 'n) api_heap \<Rightarrow> 'm \<Rightarrow> addr set) \<Rightarrow> ('l, 'c, 'm, 'n) api_heap \<Rightarrow> 'm FederatedService_ref \<Rightarrow> addr set" where
  "service_foot metaFoot h f = pair_foot (\<lambda>h x. {}) metaFoot h ((fsr_TypeMeta f, fsr_Spec f, fsr_Status f), fsr_ObjectMeta f)"

definition services_read :: "(('l, 'c, 'm, 'n) api_heap \<Rightarrow> 'm \<Rightarrow> 'v option) \<Rightarrow> (('l, 'c, 'm, 'n) api_heap \<Rightarrow> 'n \<Rightarrow> 'w option)
    \<Rightarrow> ('l, 'c, 'm, 'n) api_heap \<Rightarrow> 'n FederatedServiceList_ref
    \<Rightarrow> (TypeMeta \<times> 'w \<times> ((TypeMeta \<times> FederatedServiceSpec \<times> FederatedServiceStatus) \<times> 'v) list option) option" where
  "services_read metaRead listRead h m =
     pair_read (\<lambda>h x. Some x) (pair_read listRead (ptr_read in_FederatedServices (list_read (service_read metaRead)))) h
       (fslr_TypeMeta m, fslr_ListMeta m, fslr_Items m)"

definition services_foot :: "(('l, 'c, 'm, 'n) api_heap \<Rightarrow> 'm \<Rightarrow> addr set) \<Rightarrow> (('l, 'c, 'm, 'n) api_heap \<Rightarrow> 'n \<Rightarrow> addr set)
    \<Rightarrow> ('l, 'c, 'm, 'n) api_heap \<Rightarrow> 'n FederatedServiceList_ref \<Rightarrow> addr set" where
  "services_foot metaFoot listFoot h m =
     pair_foot (\<lambda>h x. {}) (pair_foot listFoot (ptr_foot in_FederatedServices (list_foot (service_foot metaFoot)))) h
       (fslr_TypeMeta m, fslr_ListMeta m, fslr_Items m)"

section \<open>The copies are deep\<close>

locale meta_copies =
  sel: deep_copy selRead selFoot "ml_LabelSelector lib" + cond: deep_copy condRead condFoot "ml_Condition lib"
  + meta: deep_copy metaRead metaFoot "ml_ObjectMeta lib" + lmeta: deep_copy listRead listFoot "ml_ListMeta lib"
  for lib :: "('l, 'c, 'm, 'n) meta_library"
    and selRead :: "('l, 'c, 'm, 'n) api_heap \<Rightarrow> 'l \<Rightarrow> LabelSelectors option" and selFoot :: "('l, 'c, 'm, 'n) api_heap \<Rightarrow> 'l \<Rightarrow> addr set"
    and condRead :: "('l, 'c, 'm, 'n) api_heap \<Rightarrow> 'c \<Rightarrow> Condition option" and condFoot :: "('l, 'c, 'm, 'n) api_heap \<Rightarrow> 'c \<Rightarrow> addr set"
    and metaRead :: "('l, 'c, 'm, 'n) api_heap \<Rightarrow> 'm \<Rightarrow> 'v option" and metaFoot :: "('l, 'c, 'm, 'n) api_heap \<Rightarrow> 'm \<Rightarrow> addr set"
    and listRead :: "('l, 'c, 'm, 'n) api_heap \<Rightarrow> 'n \<Rightarrow> 'w option" and listFoot :: "('l, 'c, 'm, 'n) api_heap \<Rightarrow> 'n \<Rightarrow> addr set"
begin

lemma ExportRules_deep: "deep_copy (rules_read selRead) (rules_foot selFoot) (ExportRules_DeepCopyInto lib)"
  by (rule deep_copy_struct [OF deep_copy_ptr [OF sel.deep_copy_axioms, where dest = in_Selector and cell = SelectorCell],
        where parts = err_ServiceSelectors and wrap = "\<lambda>p. \<lparr>err_ServiceSelectors = p\<rparr>"])
    (auto simp: rules_read_def rules_foot_def ExportRules_DeepCopyInto_def split: prod.splits)

lemma Spec_deep: "deep_copy (spec_read selRead) (spec_foot selFoot) (MeshFederationSpec_DeepCopyInto lib)"
  by (rule deep_copy_struct [OF deep_copy_pair [OF plain.deep_copy_axioms deep_copy_pair [OF IngressConfig_copy.deep_copy_axioms
          deep_copy_ptr [OF ExportRules_deep, where dest = in_ExportRules and cell = ExportRulesCell]]], where parts = spec_parts
        and wrap = "\<lambda>((n, t, c), i, e). \<lparr>mfsr_Network = n, mfsr_TrustDomain = t, mfsr_ControlPlaneNamespace = c, mfsr_IngressConfig = i, mfsr_ExportRules = e\<rparr>"])
    (auto simp: spec_read_def spec_foot_def MeshFederationSpec_DeepCopyInto_def pair_copy_def split: prod.splits)

lemma Status_deep: "deep_copy (status_read condRead) (status_foot condFoot) (MeshFederationStatus_DeepCopyInto lib)"
  by (rule deep_copy_struct [OF deep_copy_ptr [OF deep_copy_list [OF cond.deep_copy_axioms], where dest = in_Conditions and cell = ConditionsCell],
        where parts = mstr_Conditions and wrap = "\<lambda>p. \<lparr>mstr_Conditions = p\<rparr>"])
    (auto simp: status_read_def status_foot_def MeshFederationStatus_DeepCopyInto_def split: prod.splits)

lemma MeshFederation_deep:
  "deep_copy (federation_read selRead condRead metaRead) (federation_foot selFoot condFoot metaFoot) (MeshFederation_DeepCopyInto lib)"
  by (rule deep_copy_struct [OF deep_copy_pair [OF plain.deep_copy_axioms deep_copy_pair [OF meta.deep_copy_axioms deep_copy_pair [OF Spec_deep Status_deep]]],
        where parts = federation_parts
        and wrap = "\<lambda>(t, m, sp, st). \<lparr>mfr_TypeMeta = t, mfr_ObjectMeta = m, mfr_Spec = sp, mfr_Status = st\<rparr>"])
    (auto simp: federation_read_def federation_foot_def MeshFederation_DeepCopyInto_def pair_copy_def split: prod.splits)

lemma MeshFederationList_deep:
  "deep_copy (federations_read selRead condRead metaRead listRead) (federations_foot selFoot condFoot metaFoot listFoot) (MeshFederationList_DeepCopyInto lib)"
  by (rule deep_copy_struct [OF deep_copy_pair [OF plain.deep_copy_axioms deep_copy_pair [OF lmeta.deep_copy_axioms
          deep_copy_ptr [OF deep_copy_list [OF MeshFederation_deep], where dest = in_MeshFederations and cell = MeshFederationsCell]]],
        where parts = "\<lambda>m. (mflr_TypeMeta m, mflr_ListMeta m, mflr_Items m)" and build = "\<lambda>x. x"
        and wrap = "\<lambda>(t, m, p). \<lparr>mflr_TypeMeta = t, mflr_ListMeta = m, mflr_Items = p\<rparr>"])
    (auto simp: federations_read_def federations_foot_def MeshFederationList_DeepCopyInto_def pair_copy_def option.map_ident split: prod.splits)

lemma FederatedService_deep: "deep_copy (service_read metaRead) (service_foot metaFoot) (FederatedService_DeepCopyInto lib)"
  by (rule deep_copy_struct [OF deep_copy_pair [OF plain.deep_copy_axioms meta.deep_copy_axioms],
        where parts = "\<lambda>f. ((fsr_TypeMeta f, fsr_Spec f, fsr_Status f), fsr_ObjectMeta f)" and build = "\<lambda>x. x"
        and wrap = "\<lambda>((t, sp, st), m). \<lparr>fsr_TypeMeta = t, fsr_ObjectMeta = m, fsr_Spec = sp, fsr_Status = st\<rparr>"])
    (auto simp: service_read_def service_foot_def FederatedService_DeepCopyInto_def pair_copy_def option.map_ident split: prod.splits)

lemma FederatedServiceList_deep:
  "deep_copy (services_read metaRead listRead) (services_foot metaFoot listFoot) (FederatedServiceList_DeepCopyInto lib)"
  by (rule deep_copy_struct [OF deep_copy_pair [OF plain.deep_copy_axioms deep_copy_pair [OF lmeta.deep_copy_axioms
          deep_copy_ptr [OF deep_copy_list [OF FederatedService_deep], where dest = in_FederatedServices and cell = FederatedServicesCell]]],
        where parts = "\<lambda>m. (fslr_TypeMeta m, fslr_ListMeta m, fslr_Items m)" and build = "\<lambda>x. x"
        and wrap = "\<lambda>(t, m, p). \<lparr>fslr_TypeMeta = t, fslr_ListMeta = m, fslr_Items = p\<rparr>"])
    (auto simp: services_read_def services_foot_def FederatedServiceList_DeepCopyInto_def pair_copy_def option.map_ident split: prod.splits)

lemma MeshFederation_ptr_deep:
  "deep_copy (ptr_read in_MeshFederation (federation_read selRead condRead metaRead))
     (ptr_foot in_MeshFederation (federation_foot selFoot condFoot metaFoot)) (MeshFederation_DeepCopy lib)"
  unfolding MeshFederation_DeepCopy_def by (rule deep_copy_ptr [OF MeshFederation_deep]) simp

lemma MeshFederationList_ptr_deep:
  "deep_copy (ptr_read in_MeshFederationList (federations_read selRead condRead metaRead listRead))
     (ptr_foot in_MeshFederationList (federations_foot selFoot condFoot metaFoot listFoot)) (MeshFederationList_DeepCopy lib)"
  unfolding MeshFederationList_DeepCopy_def by (rule deep_copy_ptr [OF MeshFederationList_deep]) simp

lemma FederatedServiceList_ptr_deep:
  "deep_copy (ptr_read in_FederatedServiceList (services_read metaRead listRead))
     (ptr_foot in_FederatedServiceList (services_foot metaFoot listFoot)) (FederatedServiceList_DeepCopy lib)"
  unfolding FederatedServiceList_DeepCopy_def by (rule deep_copy_ptr [OF FederatedServiceList_deep]) simp

end

section \<open>A library of metadata types\<close>

text \<open>Selectors and metadata with a map of labels each, conditions and list metadata without references.\<close>

type_synonym sample_heap = "(addr option, Condition, string \<times> addr option, string) api_heap"

definition label_selector_read :: "sample_heap \<Rightarrow> addr option \<Rightarrow> LabelSelectors option" where
  "label_selector_read h p = map_option (\<lambda>m. \<lparr>ls_MatchLabels = (case m of None \<Rightarrow> Map.empty | Some m \<Rightarrow> m), ls_MatchExpressions = []\<rparr>)
     (ptr_read in_Map (\<lambda>h m. Some m) h p)"

definition sample_library :: "(addr option, Condition, string \<times> addr option, string) meta_library" where
  "sample_library = \<lparr>ml_LabelSelector = ptr_copy in_Map MapCell (\<lambda>h m. (h, m)), ml_Condition = (\<lambda>h c. (h, c)),
     ml_ObjectMeta = pair_copy (\<lambda>h n. (h, n)) (ptr_copy in_Map MapCell (\<lambda>h m. (h, m))), ml_ListMeta = (\<lambda>h v. (h, v))\<rparr>"

interpretation label_maps: deep_copy "ptr_read in_Map (\<lambda>h m. Some m)" "ptr_foot in_Map (\<lambda>h m. {})" "ptr_copy in_Map MapCell (\<lambda>h m. (h, m))"
  by (rule deep_copy_ptr [OF plain.deep_copy_axioms]) simp

interpretation sample_meta: meta_copies sample_library label_selector_read "ptr_foot in_Map (\<lambda>h m. {})" "\<lambda>h c. Some c" "\<lambda>h c. {}"
    "pair_read (\<lambda>h n. Some n) (ptr_read in_Map (\<lambda>h m. Some m))" "pair_foot (\<lambda>h n. {}) (ptr_foot in_Map (\<lambda>h m. {}))" "\<lambda>h v. Some v" "\<lambda>h v. {}"
proof (intro meta_copies.intro)
  show "deep_copy label_selector_read (ptr_foot in_Map (\<lambda>h m. {})) (ml_LabelSelector sample_library)"
    by (rule deep_copy_struct [OF label_maps.deep_copy_axioms, where parts = "\<lambda>x. x" and wrap = "\<lambda>x. x"])
      (auto simp: label_selector_read_def sample_library_def split: prod.splits)
  show "deep_copy (pair_read (\<lambda>h n. Some n) (ptr_read in_Map (\<lambda>h m. Some m))) (pair_foot (\<lambda>h n. {}) (ptr_foot in_Map (\<lambda>h m. {}))) (ml_ObjectMeta sample_library)"
    unfolding sample_library_def meta_library.simps by (rule deep_copy_pair [OF plain.deep_copy_axioms label_maps.deep_copy_axioms])
qed (simp_all add: sample_library_def plain.deep_copy_axioms)

section \<open>Properties\<close>

text \<open>
  C24: the generated deep copy of a list of MeshFederations, given deep copies of the metadata types. The
  result is \<open>nil\<close> only for \<open>nil\<close>; source and copy read the same value; they share no address; and a
  program that writes through one of them, however much, does not change what the other one reads.
\<close>

theorem MeshFederationList_copy_independent:
  fixes metaRead :: "('l, 'c, 'm, 'n) api_heap \<Rightarrow> 'm \<Rightarrow> 'v option" and listRead :: "('l, 'c, 'm, 'n) api_heap \<Rightarrow> 'n \<Rightarrow> 'w option"
  assumes "meta_copies lib selRead selFoot condRead condFoot metaRead metaFoot listRead listFoot"
    and "heap_wf h" and "ptr_read in_MeshFederationList (federations_read selRead condRead metaRead listRead) h p = Some v"
    and "MeshFederationList_DeepCopyObject lib h p = (h', p')"
  shows "(p' = None \<longleftrightarrow> p = None)
    \<and> ptr_read in_MeshFederationList (federations_read selRead condRead metaRead listRead) h' p' = Some v
    \<and> ptr_foot in_MeshFederationList (federations_foot selFoot condFoot metaFoot listFoot) h' p
        \<inter> ptr_foot in_MeshFederationList (federations_foot selFoot condFoot metaFoot listFoot) h' p' = {}
    \<and> (\<forall>g. (\<forall>a. a \<notin> ptr_foot in_MeshFederationList (federations_foot selFoot condFoot metaFoot listFoot) h' p' \<longrightarrow> hp_cells g a = hp_cells h' a) \<longrightarrow>
        ptr_read in_MeshFederationList (federations_read selRead condRead metaRead listRead) g p = Some v)
    \<and> (\<forall>g. (\<forall>a. a \<notin> ptr_foot in_MeshFederationList (federations_foot selFoot condFoot metaFoot listFoot) h' p \<longrightarrow> hp_cells g a = hp_cells h' a) \<longrightarrow>
        ptr_read in_MeshFederationList (federations_read selRead condRead metaRead listRead) g p' = Some v)"
proof -
  have copy: "MeshFederationList_DeepCopy lib h p = (h', p')"
    using assms(4) by (auto simp: MeshFederationList_DeepCopyObject_def split: prod.splits option.splits)
  have "p' = None \<longleftrightarrow> p = None"
    using copy by (auto simp: MeshFederationList_DeepCopy_def ptr_copy_def split: option.splits prod.splits)
  with deep_copy.copy_independent [OF meta_copies.MeshFederationList_ptr_deep [OF assms(1)] assms(2,3) copy] show ?thesis by blast
qed

definition sample_store :: sample_heap where
  "sample_store = \<lparr>hp_next = 6, hp_cells = [
     0 \<mapsto> MapCell [''app'' \<mapsto> ''gw''],
     1 \<mapsto> ConditionsCell [available],
     2 \<mapsto> SelectorCell (Some 0),
     3 \<mapsto> ExportRulesCell \<lparr>err_ServiceSelectors = Some 2\<rparr>,
     4 \<mapsto> MeshFederationsCell [\<lparr>mfr_TypeMeta = (''MeshFederation'', ''v1alpha1''), mfr_ObjectMeta = (''mesh'', Some 0),
       mfr_Spec = \<lparr>mfsr_Network = ''east'', mfsr_TrustDomain = ''cluster.local'', mfsr_ControlPlaneNamespace = ''istio-system'',
         mfsr_IngressConfig = \<lparr>icr_Type = ''istio'', icr_GatewayConfig = \<lparr>gcr_Selector = Some 0, gcr_PortConfig = \<lparr>pc_Name = ''tls'', pc_Number = 15443\<rparr>\<rparr>\<rparr>,
         mfsr_ExportRules = Some 3\<rparr>,
       mfr_Status = \<lparr>mstr_Conditions = Some 1\<rparr>\<rparr>],
     5 \<mapsto> MeshFederationListCell \<lparr>mflr_TypeMeta = (''MeshFederationList'', ''v1alpha1''), mflr_ListMeta = ''7'', mflr_Items = Some 4\<rparr>]\<rparr>"

abbreviation sample_list_read :: "sample_heap \<Rightarrow> addr option \<Rightarrow> (TypeMeta \<times> string \<times> (TypeMeta \<times> (string \<times> labels option) \<times> MeshFederationBody) list option) option option" where
  "sample_list_read \<equiv> ptr_read in_MeshFederationList (federations_read label_selector_read (\<lambda>h c. Some c)
     (pair_read (\<lambda>h n. Some n) (ptr_read in_Map (\<lambda>h m. Some m))) (\<lambda>h v. Some v))"

lemma sample_store_wf: "heap_wf sample_store"
  by (simp add: heap_wf_def sample_store_def)

lemma sample_store_read: "\<exists>v. sample_list_read sample_store (Some 5) = Some v"
  by (simp add: ptr_read_def federations_read_def federation_read_def spec_read_def status_read_def ingress_read_def gateway_read_def
      rules_read_def label_selector_read_def pair_read_def sample_store_def)

theorem MeshFederationList_copy_independent_witness:
  "\<exists>v h' p'. MeshFederationList_DeepCopyObject sample_library sample_store (Some 5) = (h', p') \<and> p' \<noteq> None
    \<and> sample_list_read sample_store (Some 5) = Some v \<and> sample_list_read h' p' = Some v"
proof -
  obtain v where v: "sample_list_read sample_store (Some 5) = Some v" using sample_store_read by blast
  obtain h' p' where c: "MeshFederationList_DeepCopyObject sample_library sample_store (Some 5) = (h', p')"
    by (cases "MeshFederationList_DeepCopyObject sample_library sample_store (Some 5)")
  from MeshFederationList_copy_independent [OF sample_meta.meta_copies_axioms sample_store_wf v c] v c show ?thesis by blast
qed

text \<open>The copy that a retried update starts from is never \<open>nil\<close> and reads the same as its source.\<close>

lemma MeshFederation_DeepCopyObject_reads:
  assumes "meta_copies lib selRead selFoot condRead condFoot metaRead metaFoot listRead listFoot" and "heap_wf h"
    and "ptr_read in_MeshFederation (federation_read selRead condRead metaRead) h (Some a) = Some v"
    and "MeshFederation_DeepCopyObject lib h (Some a) = (h', p')"
  shows "\<exists>b. p' = Some b \<and> b \<noteq> a \<and> ptr_read in_MeshFederation (federation_read selRead condRead metaRead) h' (Some b) = Some v"
proof -
  have copy: "MeshFederation_DeepCopy lib h (Some a) = (h', p')"
    using assms(4) by (auto simp: MeshFederation_DeepCopyObject_def split: prod.splits option.splits)
  note ind = deep_copy.copy_independent [OF meta_copies.MeshFederation_ptr_deep [OF assms(1)] assms(2,3) copy]
  obtain b where b: "p' = Some b"
    using copy by (auto simp: MeshFederation_DeepCopy_def ptr_copy_def split: option.splits prod.splits)
  have "b \<noteq> a" using ind(3) by (auto simp: b ptr_foot_def)
  with b ind(2) show ?thesis by blast
qed

end
