(* ===== verification/Scheme.thy ===== *)
theory Scheme
  imports Prelude
begin

text \<open>
  The registration of the API types, \<open>api/v1alpha1/groupversion_info.go\<close>, the two \<open>init\<close> functions of the types, and
  \<open>MustAddToScheme\<close> of \<open>internal/controller/scheme.go\<close>. The scheme of the Kubernetes library and its own types
  are arguments; a kind stands for the Go type of that name. A type that is not in the scheme cannot be
  read or written by the clients of the controllers.
\<close>

record GroupVersion =
  gv_Group :: string
  gv_Version :: string

definition federation_GroupVersion :: GroupVersion where
  "federation_GroupVersion = \<lparr>gv_Group = ''federation.openshift-service-mesh.io'', gv_Version = ''v1alpha1''\<rparr>"

text \<open>The library: adding types under a group and version, the meta types of a group and version, and the types of client-go.\<close>

record 'sch scheme_lib =
  sl_AddKnownTypes :: "GroupVersion \<Rightarrow> string list \<Rightarrow> 'sch \<Rightarrow> 'sch"
  sl_AddToGroupVersion :: "GroupVersion \<Rightarrow> 'sch \<Rightarrow> 'sch"
  sl_clientgo_AddToScheme :: "'sch \<Rightarrow> 'sch \<times> go_error option"

record Builder =
  sb_GroupVersion :: GroupVersion
  sb_Registered :: "string list list"

definition Register :: "string list \<Rightarrow> Builder \<Rightarrow> Builder" where
  "Register kinds b = b\<lparr>sb_Registered := sb_Registered b @ [kinds]\<rparr>"

definition Builder_AddToScheme :: "'sch scheme_lib \<Rightarrow> Builder \<Rightarrow> 'sch \<Rightarrow> 'sch \<times> go_error option" where
  "Builder_AddToScheme lib b s =
     (fold (\<lambda>kinds s. sl_AddToGroupVersion lib (sb_GroupVersion b) (sl_AddKnownTypes lib (sb_GroupVersion b) kinds s))
        (sb_Registered b) s, None)"

definition SchemeBuilder :: Builder where
  "SchemeBuilder = \<lparr>sb_GroupVersion = federation_GroupVersion, sb_Registered = []\<rparr>"

definition init_federatedservice :: "Builder \<Rightarrow> Builder" where
  "init_federatedservice = Register [''FederatedService'', ''FederatedServiceList'']"

definition init_meshfederation :: "Builder \<Rightarrow> Builder" where
  "init_meshfederation = Register [''MeshFederation'', ''MeshFederationList'']"

text \<open>The functions \<open>init\<close> of a package run in the order of its files, before \<open>main\<close>.\<close>

definition AddToScheme :: "'sch scheme_lib \<Rightarrow> 'sch \<Rightarrow> 'sch \<times> go_error option" where
  "AddToScheme lib = Builder_AddToScheme lib (init_meshfederation (init_federatedservice SchemeBuilder))"

text \<open>\<open>Must\<close> panics on an error; \<open>None\<close> stands for that.\<close>

fun utilruntime_Must :: "'sch \<times> go_error option \<Rightarrow> 'sch option" where
  "utilruntime_Must (s, None) = Some s"
| "utilruntime_Must (s, Some e) = None"

definition MustAddToScheme :: "'sch scheme_lib \<Rightarrow> 'sch \<Rightarrow> 'sch option" where
  "MustAddToScheme lib s = (case utilruntime_Must (sl_clientgo_AddToScheme lib s) of
       None \<Rightarrow> None
     | Some s' \<Rightarrow> utilruntime_Must (AddToScheme lib s'))"

section \<open>The registered types\<close>

text \<open>What the library documents: added types are recognized, and adding never forgets a type.\<close>

definition documented_scheme :: "'sch scheme_lib \<Rightarrow> ('sch \<Rightarrow> GroupVersion \<Rightarrow> string \<Rightarrow> bool) \<Rightarrow> bool" where
  "documented_scheme lib recognizes \<longleftrightarrow>
     (\<forall>gv kinds s gv' k. gv = gv' \<and> k \<in> set kinds \<or> recognizes s gv' k \<longrightarrow> recognizes (sl_AddKnownTypes lib gv kinds s) gv' k)
   \<and> (\<forall>gv s gv' k. recognizes s gv' k \<longrightarrow> recognizes (sl_AddToGroupVersion lib gv s) gv' k)"

lemma Builder_recognizes:
  assumes lib: "documented_scheme lib recognizes"
    and "(\<exists>kinds \<in> set (sb_Registered b). k \<in> set kinds) \<and> gv = sb_GroupVersion b \<or> recognizes s gv k"
  shows "recognizes (fst (Builder_AddToScheme lib b s)) gv k"
proof -
  have "recognizes (fold (\<lambda>kinds s. sl_AddToGroupVersion lib gv' (sl_AddKnownTypes lib gv' kinds s)) ks s) gv k"
    if "(\<exists>kinds \<in> set ks. k \<in> set kinds) \<and> gv = gv' \<or> recognizes s gv k" for ks gv' s
    using that
  proof (induction ks arbitrary: s)
    case (Cons kinds ks)
    then have "(\<exists>kinds \<in> set ks. k \<in> set kinds) \<and> gv = gv' \<or>
        recognizes (sl_AddToGroupVersion lib gv' (sl_AddKnownTypes lib gv' kinds s)) gv k"
      using lib unfolding documented_scheme_def by auto
    with Cons.IH show ?case by simp
  qed simp
  with assms(2) show ?thesis by (simp add: Builder_AddToScheme_def)
qed

text \<open>
  The process starts with a scheme that knows the four API types, unless the registration of the
  Kubernetes types fails.
\<close>

lemma MustAddToScheme_recognizes:
  assumes "documented_scheme lib recognizes" and "MustAddToScheme lib s = Some s'"
    and "k \<in> {''FederatedService'', ''FederatedServiceList'', ''MeshFederation'', ''MeshFederationList''}"
  shows "recognizes s' federation_GroupVersion k"
proof -
  obtain s1 where "s' = fst (AddToScheme lib s1)"
    using assms(2) by (auto simp: MustAddToScheme_def AddToScheme_def Builder_AddToScheme_def split: option.splits)
  then show ?thesis
    unfolding AddToScheme_def using assms(3)
    by (auto simp: init_meshfederation_def init_federatedservice_def Register_def SchemeBuilder_def intro!: Builder_recognizes [OF assms(1)])
qed

lemma MustAddToScheme_panics_iff: "MustAddToScheme lib s = None \<longleftrightarrow> snd (sl_clientgo_AddToScheme lib s) \<noteq> None"
  by (cases "sl_clientgo_AddToScheme lib s"; cases "snd (sl_clientgo_AddToScheme lib s)")
    (auto simp: MustAddToScheme_def AddToScheme_def Builder_AddToScheme_def)

text \<open>A scheme that is the set of the types it knows.\<close>

definition set_scheme :: "(GroupVersion \<times> string) set scheme_lib" where
  "set_scheme = \<lparr>sl_AddKnownTypes = (\<lambda>gv kinds s. s \<union> Pair gv ` set kinds),
     sl_AddToGroupVersion = (\<lambda>gv s. insert (gv, ''WatchEvent'') s),
     sl_clientgo_AddToScheme = (\<lambda>s. (insert (\<lparr>gv_Group = [], gv_Version = ''v1''\<rparr>, ''Service'') s, None))\<rparr>"

lemma MustAddToScheme_set: "\<exists>s'. MustAddToScheme set_scheme {} = Some s' \<and> (federation_GroupVersion, ''MeshFederation'') \<in> s'"
proof -
  have "documented_scheme set_scheme (\<lambda>s gv k. (gv, k) \<in> s)" by (auto simp: documented_scheme_def set_scheme_def)
  moreover obtain s' where "MustAddToScheme set_scheme {} = Some s'"
    using MustAddToScheme_panics_iff [of set_scheme "{}"] by (auto simp: set_scheme_def)
  ultimately show ?thesis using MustAddToScheme_recognizes by fastforce
qed

end
