(* ===== verification/Process.thy ===== *)
theory Process
  imports Startup
begin

text \<open>
  The running process: the goroutines that \<open>runLegacyMode\<close> starts, as one step relation over the state they
  share. A discovery client stores what it received and then sends its push requests; the worker of the informer and the
  address watcher send theirs. They run while \<open>startReconciler\<close> still walks through \<open>ReconcileAll\<close>; after it the
  manager receives one request at a time. The channel has no buffer, so a goroutine that sends waits until the
  manager takes its request, and what it still has to send is part of the state. A reconciliation begins, reads store
  and cache, and writes to the cluster in three separate steps: the others go on in between (its reads of the store, one
  per remote under the lock of the store, are taken as one step). A panic, and an
  error of the first reconciliation, end the process: they have no further step.
\<close>

section \<open>State and steps\<close>

datatype sender = FromClient string | FromInformer | FromWatcher

text \<open>What the manager does; the flag tells a reconciliation of \<open>ReconcileAll\<close> from one that was asked for.\<close>

datatype manager_phase = ManagerIdle | ManagerReceived bool PushRequest | ManagerRead bool PushRequest ImportedServiceStore ServiceLister

record 's proc =
  pc_world :: "'s world"
  pc_sending :: "sender \<Rightarrow> PushRequest list"
  pc_initial :: "string list"
  pc_phase :: manager_phase

text \<open>
  The constants of a run; \<open>pe_messages\<close> and \<open>pe_caches\<close> are what peers may send and how the Service cache may
  change.
\<close>

record 's proc_env =
  pe_api :: "'s cluster_api"
  pe_cfg :: Federation
  pe_ns :: string
  pe_unmarshal :: unmarshaller
  pe_matches :: label_match
  pe_messages :: "Any list \<Rightarrow> bool"
  pe_caches :: "ServiceLister \<Rightarrow> ServiceLister \<Rightarrow> bool"

abbreviation pe_manager :: "'s proc_env \<Rightarrow> 's world ReconcilerManager" where
  "pe_manager env \<equiv> NewReconcilerManager (reconcilers_for (pe_api env) (pe_cfg env) (pe_ns env))"

definition mcp_pushes :: "sends \<Rightarrow> PushRequest list" where
  "mcp_pushes sends = map snd (filter (\<lambda>s. fst s = McpPushRequests) sends)"

inductive proc_step :: "'s proc_env \<Rightarrow> 's proc \<Rightarrow> 's proc \<Rightarrow> bool" for env where
  client_handles: "pc_sending p (FromClient remote) = [] \<Longrightarrow> pe_messages env resources \<Longrightarrow>
    Handle (pe_unmarshal env) (w_store (pc_world p)) remote resources = (store', pushes, err) \<Longrightarrow>
    proc_step env p (p\<lparr>pc_world := (pc_world p)\<lparr>w_store := store'\<rparr>, pc_sending := (pc_sending p)(FromClient remote := pushes)\<rparr>)"
| worker_handles: "pc_sending p FromInformer = [] \<Longrightarrow>
    triggerXDSPushIfMatchRules (pe_matches env) (pe_cfg env) services = (sends, Val ()) \<Longrightarrow>
    proc_step env p (p\<lparr>pc_sending := (pc_sending p)(FromInformer := mcp_pushes sends)\<rparr>)"
| watcher_ticks: "pc_sending p FromWatcher = [] \<Longrightarrow>
    resolveIPs lookupIP (remotes_of (pe_cfg env)) prevIPs = Val (ips, pushes) \<Longrightarrow>
    proc_step env p (p\<lparr>pc_sending := (pc_sending p)(FromWatcher := pushes)\<rparr>)"
| cache_changes: "pe_caches env (w_lister (pc_world p)) lister' \<Longrightarrow>
    proc_step env p (p\<lparr>pc_world := (pc_world p)\<lparr>w_lister := lister'\<rparr>\<rparr>)"
| manager_begins: "pc_phase p = ManagerIdle \<Longrightarrow> pc_initial p = url # urls \<Longrightarrow>
    proc_step env p (p\<lparr>pc_initial := urls, pc_phase := ManagerReceived True (push_of url)\<rparr>)"
| manager_receives: "pc_phase p = ManagerIdle \<Longrightarrow> pc_initial p = [] \<Longrightarrow> pc_sending p g = q # qs \<Longrightarrow>
    proc_step env p (p\<lparr>pc_sending := (pc_sending p)(g := qs), pc_phase := ManagerReceived False q\<rparr>)"
| manager_reads: "pc_phase p = ManagerReceived initial q \<Longrightarrow>
    proc_step env p (p\<lparr>pc_phase := ManagerRead initial q (w_store (pc_world p)) (w_lister (pc_world p))\<rparr>)"
| initial_writes: "pc_phase p = ManagerRead True q st l \<Longrightarrow> map_of (rm_reconcilers (pe_manager env)) (pr_TypeUrl q) = Some r \<Longrightarrow>
    rec_Reconcile r ((pc_world p)\<lparr>w_store := st, w_lister := l\<rparr>) = (w', Val ()) \<Longrightarrow>
    proc_step env p (p\<lparr>pc_world := (pc_world p)\<lparr>w_cluster := w_cluster w'\<rparr>, pc_phase := ManagerIdle\<rparr>)"
| manager_writes: "pc_phase p = ManagerRead False q st l \<Longrightarrow>
    manager_step (pe_manager env) (PushReceived q) ((pc_world p)\<lparr>w_store := st, w_lister := l\<rparr>) = (w', Val True) \<Longrightarrow>
    proc_step env p (p\<lparr>pc_world := (pc_world p)\<lparr>w_cluster := w_cluster w'\<rparr>, pc_phase := ManagerIdle\<rparr>)"

text \<open>Both ways to write are a step of the manager.\<close>

lemma initial_is_manager_step:
  "map_of (rm_reconcilers rm) (pr_TypeUrl q) = Some r \<Longrightarrow> rec_Reconcile r w = (w', Val ()) \<Longrightarrow>
   manager_step rm (PushReceived q) w = (w', Val True)"
  by (simp add: manager_step_def)

text \<open>The first reconciliation is over, nothing is left to send and the manager waits.\<close>

definition quiescent :: "'s proc \<Rightarrow> bool" where
  "quiescent p \<longleftrightarrow> pc_phase p = ManagerIdle \<and> pc_initial p = [] \<and> (\<forall>g. pc_sending p g = [])"

section \<open>Objects that follow the store\<close>

text \<open>What the import side asks the cache: whether a Service exists, with the error when the cache fails.\<close>

definition found_in :: "ServiceLister \<Rightarrow> string \<Rightarrow> string \<Rightarrow> go_error option option" where
  "found_in l ns n = (case lister_Get l ns n of Inr s \<Rightarrow> None | Inl err \<Rightarrow> Some (if IsNotFound err then None else Some err))"

definition awaited :: "string \<Rightarrow> 's proc \<Rightarrow> bool" where
  "awaited url p \<longleftrightarrow> url \<in> set (pc_initial p) \<or> (\<exists>g. \<exists>q \<in> set (pc_sending p g). pr_TypeUrl q = url)"

definition kind_synced :: "('s world \<Rightarrow> 'spec kobject list outcome) \<Rightarrow> ('s \<Rightarrow> key \<rightharpoonup> 'spec kobject) \<Rightarrow> ('spec \<Rightarrow> 'spec \<Rightarrow> bool)
    \<Rightarrow> 's world \<Rightarrow> bool" where
  "kind_synced gen view conforms w \<longleftrightarrow>
     (\<forall>objs. gen w = Val objs \<longrightarrow> (\<exists>before. synced conforms peer_labels objs before (view (w_cluster w))))"

definition kind_inv :: "string \<Rightarrow> ('s world \<Rightarrow> 'spec kobject list outcome) \<Rightarrow> ('s \<Rightarrow> key \<rightharpoonup> 'spec kobject) \<Rightarrow> ('spec \<Rightarrow> 'spec \<Rightarrow> bool)
    \<Rightarrow> 's proc \<Rightarrow> bool" where
  "kind_inv url gen view conforms p \<longleftrightarrow> awaited url p \<or> (case pc_phase p of
       ManagerIdle \<Rightarrow> kind_synced gen view conforms (pc_world p)
     | ManagerReceived initial q \<Rightarrow> pr_TypeUrl q = url \<or> kind_synced gen view conforms (pc_world p)
     | ManagerRead initial q st l \<Rightarrow> (if pr_TypeUrl q = url then gen ((pc_world p)\<lparr>w_store := st, w_lister := l\<rparr>) = gen (pc_world p)
                             else kind_synced gen view conforms (pc_world p)))"

text \<open>
  A kind of objects that is generated from the store and from which Services exist: its reconciler
  synchronises it, no other reconciler touches it, and an accepted message asks for it.
\<close>

locale reconciled_kind =
  fixes env :: "'s proc_env" and url :: string and gen :: "'s world \<Rightarrow> 'spec kobject list outcome"
    and view :: "'s \<Rightarrow> key \<rightharpoonup> 'spec kobject" and conforms :: "'spec \<Rightarrow> 'spec \<Rightarrow> bool"
  assumes gen_cong: "w_store w = w_store w' \<Longrightarrow> found_in (w_lister w) = found_in (w_lister w') \<Longrightarrow> gen w = gen w'"
    and step_synced: "manager_step (pe_manager env) (PushReceived q) w = (w', Val True) \<Longrightarrow> pr_TypeUrl q = url \<Longrightarrow> gen w = Val objs \<Longrightarrow>
      synced conforms peer_labels objs (view (w_cluster w)) (view (w_cluster w'))"
    and step_keeps: "manager_step (pe_manager env) (PushReceived q) w = (w', Val True) \<Longrightarrow> pr_TypeUrl q \<noteq> url \<Longrightarrow>
      view (w_cluster w') = view (w_cluster w)"
    and import_asks: "Handle (pe_unmarshal env) store remote resources = (store', pushes, err) \<Longrightarrow>
      store' = store \<and> pushes = [] \<or> (\<exists>q \<in> set pushes. pr_TypeUrl q = url)"
begin

lemma kind_synced_cong:
  assumes "w_store w = w_store w'" and "found_in (w_lister w) = found_in (w_lister w')"
    and "view (w_cluster w) = view (w_cluster w')"
  shows "kind_synced gen view conforms w = kind_synced gen view conforms w'"
  using gen_cong [OF assms(1,2)] assms(3) by (simp add: kind_synced_def)

lemma awaited_send:
  assumes "pc_sending p g = []" and "awaited url p" and "pc_sending p' = (pc_sending p)(g := qs)" and "pc_initial p' = pc_initial p"
  shows "awaited url p'"
proof (cases "url \<in> set (pc_initial p)")
  case False
  then obtain g' q where q: "q \<in> set (pc_sending p g')" "pr_TypeUrl q = url" using assms(2) by (auto simp: awaited_def)
  with assms(1) have "g' \<noteq> g" by auto
  with q assms(3) have "q \<in> set (pc_sending p' g')" by simp
  with q(2) show ?thesis unfolding awaited_def by blast
qed (simp add: awaited_def assms(4))

lemma inv_send:
  assumes "kind_inv url gen view conforms p" and "pc_sending p g = []" and "pc_sending p' = (pc_sending p)(g := qs)"
    and "pc_initial p' = pc_initial p" and "pc_world p' = pc_world p" and "pc_phase p' = pc_phase p"
  shows "kind_inv url gen view conforms p'"
  using assms(1) awaited_send [OF assms(2) _ assms(3,4)] unfolding kind_inv_def assms(5,6) by blast

text \<open>The end of a reconciliation.\<close>

lemma inv_write:
  assumes "kind_inv url gen view conforms p" and phase: "pc_phase p = ManagerRead initial q st l"
    and step: "manager_step (pe_manager env) (PushReceived q) ((pc_world p)\<lparr>w_store := st, w_lister := l\<rparr>) = (w', Val True)"
    and p': "p' = p\<lparr>pc_world := (pc_world p)\<lparr>w_cluster := w_cluster w'\<rparr>, pc_phase := ManagerIdle\<rparr>"
  shows "kind_inv url gen view conforms p'"
proof -
  let ?w = "(pc_world p)\<lparr>w_store := st, w_lister := l\<rparr>"
  have awaited: "awaited url p' = awaited url p" by (simp add: awaited_def p')
  show ?thesis
  proof (cases "pr_TypeUrl q = url")
    case True
    have "kind_synced gen view conforms (pc_world p')" if "gen ?w = gen (pc_world p)"
    proof -
      have "gen (pc_world p') = gen (pc_world p)" unfolding p' by (intro gen_cong) simp_all
      with that step_synced [OF step True] p' show ?thesis by (auto simp: kind_synced_def)
    qed
    with assms(1) True phase p' awaited show ?thesis by (auto simp: kind_inv_def)
  next
    case False
    have "kind_synced gen view conforms (pc_world p') = kind_synced gen view conforms (pc_world p)"
      using step_keeps [OF step False] p' by (intro kind_synced_cong) simp_all
    with assms(1) False phase p' awaited show ?thesis by (auto simp: kind_inv_def)
  qed
qed

lemma inv_step:
  assumes step: "proc_step env p p'" and "kind_inv url gen view conforms p"
    and caches: "\<And>l l'. pe_caches env l l' \<Longrightarrow> found_in l' = found_in l"
  shows "kind_inv url gen view conforms p'"
  using step assms(2)
proof cases
  case (client_handles remote resources store' pushes err)
  from import_asks [OF client_handles(4)] show ?thesis
  proof
    assume "store' = w_store (pc_world p) \<and> pushes = []"
    then have "p' = p" using client_handles(1,2) by (simp add: fun_upd_idem)
    with assms(2) show ?thesis by simp
  next
    assume "\<exists>q \<in> set pushes. pr_TypeUrl q = url"
    then have "awaited url p'" using client_handles(1) by (auto simp: awaited_def intro!: exI [of _ "FromClient remote"])
    then show ?thesis by (simp add: kind_inv_def)
  qed
next
  case (worker_handles services sends)
  show ?thesis by (rule inv_send [OF assms(2) worker_handles(2)]) (simp_all add: worker_handles(1))
next
  case (watcher_ticks lookupIP prevIPs ips pushes)
  show ?thesis by (rule inv_send [OF assms(2) watcher_ticks(2)]) (simp_all add: watcher_ticks(1))
next
  case (cache_changes lister')
  have g: "gen (pc_world p') = gen (pc_world p)" using caches [OF cache_changes(2)] cache_changes(1) by (intro gen_cong) simp_all
  have "kind_synced gen view conforms (pc_world p') = kind_synced gen view conforms (pc_world p)"
    using caches [OF cache_changes(2)] cache_changes(1) by (intro kind_synced_cong) simp_all
  with assms(2) cache_changes(1) g show ?thesis
    by (auto simp: kind_inv_def awaited_def split: manager_phase.splits)
next
  case (manager_begins u urls)
  then show ?thesis using assms(2) by (auto simp: kind_inv_def awaited_def)
next
  case (manager_receives g q qs)
  show ?thesis
  proof (cases "pr_TypeUrl q = url")
    case True
    with manager_receives show ?thesis by (simp add: kind_inv_def)
  next
    case False
    have "awaited url p'" if a: "awaited url p"
    proof -
      obtain g' q' where q': "q' \<in> set (pc_sending p g')" "pr_TypeUrl q' = url"
        using a manager_receives(3) by (auto simp: awaited_def)
      with False manager_receives have "q' \<in> set (pc_sending p' g')" by (cases "g' = g") auto
      with q'(2) show ?thesis unfolding awaited_def by blast
    qed
    with assms(2) manager_receives(1,2) show ?thesis by (auto simp: kind_inv_def)
  qed
next
  case (manager_reads initial q)
  then show ?thesis using assms(2) by (auto simp: kind_inv_def awaited_def)
next
  case (initial_writes q st l r w')
  show ?thesis
    by (rule inv_write [OF assms(2) initial_writes(2) initial_is_manager_step [OF initial_writes(3,4)] initial_writes(1)])
next
  case (manager_writes q st l w')
  show ?thesis by (rule inv_write [OF assms(2) manager_writes(2,3,1)])
qed

lemma quiescent_synced:
  assumes "(proc_step env)\<^sup>*\<^sup>* p p'" and "kind_inv url gen view conforms p" and "quiescent p'"
    and caches: "\<And>l l'. pe_caches env l l' \<Longrightarrow> found_in l' = found_in l"
  shows "kind_synced gen view conforms (pc_world p')"
proof -
  from assms(1) have "kind_inv url gen view conforms p'"
    by (induction rule: rtranclp_induct) (use assms(2) inv_step caches in blast)+
  with assms(3) show ?thesis by (simp add: kind_inv_def quiescent_def awaited_def)
qed

end

section \<open>Which reconciler writes what\<close>

definition others_keep :: "'s cluster_api \<Rightarrow> string \<Rightarrow> ('s \<Rightarrow> 'v) \<Rightarrow> bool" where
  "others_keep api url v \<longleftrightarrow>
     (url = GatewayTypeUrl \<or> keeps_view (api_Gateways api) v) \<and> (url = ServiceEntryTypeUrl \<or> keeps_view (api_ServiceEntries api) v)
   \<and> (url = WorkloadEntryTypeUrl \<or> keeps_view (api_WorkloadEntries api) v)
   \<and> (url = PeerAuthenticationTypeUrl \<or> keeps_view (api_PeerAuthentications api) v)
   \<and> (url = DestinationRuleTypeUrl \<or> keeps_view (api_DestinationRules api) v)
   \<and> (url = EnvoyFilterTypeUrl \<or> keeps_view (api_EnvoyFilters api) v) \<and> (url = RouteTypeUrl \<or> keeps_view (api_Routes api) v)"

lemma apply_one_keeps: "keeps_view env v \<Longrightarrow> apply_one env kind api_version msg obj s = (s', r) \<Longrightarrow> v s' = v s"
  by (auto simp: apply_one_def dest: keeps_view_steps split: prod.splits sum.splits)

lemma Reconcile_keeps_more:
  shows "keeps_view (api_Gateways api) v \<Longrightarrow> Gateway_Reconcile api cf s = (s', r) \<Longrightarrow> v s' = v s"
    and "keeps_view (api_PeerAuthentications api) v \<Longrightarrow> PeerAuth_Reconcile api ns s = (s', r) \<Longrightarrow> v s' = v s"
    and "keeps_view (api_EnvoyFilters api) v \<Longrightarrow> EnvoyFilter_Reconcile api cf s = (s', r) \<Longrightarrow> v s' = v s"
    and "keeps_view (api_Routes api) v \<Longrightarrow> Route_Reconcile api rf s = (s', r) \<Longrightarrow> v s' = v s"
proof -
  show "keeps_view (api_Gateways api) v \<Longrightarrow> Gateway_Reconcile api cf s = (s', r) \<Longrightarrow> v s' = v s"
    unfolding Gateway_Reconcile_def by (erule generated_keeps) (rule apply_one_keeps)
  show "keeps_view (api_PeerAuthentications api) v \<Longrightarrow> PeerAuth_Reconcile api ns s = (s', r) \<Longrightarrow> v s' = v s"
    unfolding PeerAuth_Reconcile_def by (rule apply_one_keeps)
  show "keeps_view (api_EnvoyFilters api) v \<Longrightarrow> EnvoyFilter_Reconcile api cf s = (s', r) \<Longrightarrow> v s' = v s"
    unfolding EnvoyFilter_Reconcile_def by (erule generated_keeps) (auto dest: sync_keeps split: if_splits)
  show "keeps_view (api_Routes api) v \<Longrightarrow> Route_Reconcile api rf s = (s', r) \<Longrightarrow> v s' = v s"
    unfolding Route_Reconcile_def by (erule generated_keeps) (rule sync_keeps)
qed

lemma reconciler_writes:
  shows "keeps_view (api_Gateways api) v \<Longrightarrow> rec_Reconcile (NewGatewayResourceReconciler api cf) s = (c, out) \<Longrightarrow> v c = v s"
    and "keeps_view (api_ServiceEntries api) v \<Longrightarrow> rec_Reconcile (NewServiceEntryReconciler api cf) s = (c, out) \<Longrightarrow> v c = v s"
    and "keeps_view (api_WorkloadEntries api) v \<Longrightarrow> rec_Reconcile (NewWorkloadEntryReconciler api cf) s = (c, out) \<Longrightarrow> v c = v s"
    and "keeps_view (api_PeerAuthentications api) v \<Longrightarrow> rec_Reconcile (NewPeerAuthResourceReconciler api ns) s = (c, out) \<Longrightarrow> v c = v s"
    and "keeps_view (api_DestinationRules api) v \<Longrightarrow> rec_Reconcile (NewDestinationRuleReconciler api cf) s = (c, out) \<Longrightarrow> v c = v s"
    and "keeps_view (api_EnvoyFilters api) v \<Longrightarrow> rec_Reconcile (NewEnvoyFilterReconciler api cf) s = (c, out) \<Longrightarrow> v c = v s"
    and "keeps_view (api_Routes api) v \<Longrightarrow> rec_Reconcile (NewRouteReconciler api rf) s = (c, out) \<Longrightarrow> v c = v s"
  unfolding NewGatewayResourceReconciler_def NewServiceEntryReconciler_def NewWorkloadEntryReconciler_def NewPeerAuthResourceReconciler_def
    NewDestinationRuleReconciler_def NewEnvoyFilterReconciler_def NewRouteReconciler_def Reconciler.simps
  by (erule (1) Reconcile_keeps Reconcile_keeps_more)+

lemma live_keeps:
  assumes "rec_Reconcile (live u f) w = (w', out)" and "u \<noteq> url" and "u = url \<or> keeps_view env v"
    and "\<And>c. keeps_view env v \<Longrightarrow> rec_Reconcile (f w) (w_cluster w) = (c, out) \<Longrightarrow> v c = v (w_cluster w)"
  shows "v (w_cluster w') = v (w_cluster w)"
  using assms by (auto simp: live_def on_world_def split: prod.splits)

lemma reconciler_keeps:
  assumes "others_keep api url v" and "r \<in> set (reconcilers_for api cfg ns)" and "rec_GetTypeUrl r \<noteq> url"
    and "rec_Reconcile r w = (w', out)"
  shows "v (w_cluster w') = v (w_cluster w)"
proof -
  note kinds = assms(1) [unfolded others_keep_def]
  have url: "rec_GetTypeUrl (live u f) = u" for u and f :: "'a world \<Rightarrow> 'a Reconciler" by (simp add: live_def)
  from assms(2) consider "r = live GatewayTypeUrl (\<lambda>w. NewGatewayResourceReconciler api (factory_of cfg ns w))"
    | "r = live ServiceEntryTypeUrl (\<lambda>w. NewServiceEntryReconciler api (factory_of cfg ns w))"
    | "r = live WorkloadEntryTypeUrl (\<lambda>w. NewWorkloadEntryReconciler api (factory_of cfg ns w))"
    | "r = live PeerAuthenticationTypeUrl (\<lambda>w. NewPeerAuthResourceReconciler api ns)"
    | "r = live DestinationRuleTypeUrl (\<lambda>w. NewDestinationRuleReconciler api (factory_of cfg ns w))"
    | "r = live EnvoyFilterTypeUrl (\<lambda>w. NewEnvoyFilterReconciler api (factory_of cfg ns w))"
    | "r = live RouteTypeUrl (\<lambda>w. NewRouteReconciler api (route_factory_of cfg w))"
    by (auto simp: reconcilers_for_def split: if_splits)
  then show ?thesis
  proof cases
    case 1
    show ?thesis
      by (rule live_keeps [OF assms(4) [unfolded 1], of url "api_Gateways api"])
        (use assms(3) 1 url kinds in \<open>auto dest: reconciler_writes(1)\<close>)
  next
    case 2
    show ?thesis
      by (rule live_keeps [OF assms(4) [unfolded 2], of url "api_ServiceEntries api"])
        (use assms(3) 2 url kinds in \<open>auto dest: reconciler_writes(2)\<close>)
  next
    case 3
    show ?thesis
      by (rule live_keeps [OF assms(4) [unfolded 3], of url "api_WorkloadEntries api"])
        (use assms(3) 3 url kinds in \<open>auto dest: reconciler_writes(3)\<close>)
  next
    case 4
    show ?thesis
      by (rule live_keeps [OF assms(4) [unfolded 4], of url "api_PeerAuthentications api"])
        (use assms(3) 4 url kinds in \<open>auto dest: reconciler_writes(4)\<close>)
  next
    case 5
    show ?thesis
      by (rule live_keeps [OF assms(4) [unfolded 5], of url "api_DestinationRules api"])
        (use assms(3) 5 url kinds in \<open>auto dest: reconciler_writes(5)\<close>)
  next
    case 6
    show ?thesis
      by (rule live_keeps [OF assms(4) [unfolded 6], of url "api_EnvoyFilters api"])
        (use assms(3) 6 url kinds in \<open>auto dest: reconciler_writes(6)\<close>)
  next
    case 7
    show ?thesis
      by (rule live_keeps [OF assms(4) [unfolded 7], of url "api_Routes api"])
        (use assms(3) 7 url kinds in \<open>auto dest: reconciler_writes(7)\<close>)
  qed
qed

lemma manager_lookup_SomeD:
  assumes "map_of (rm_reconcilers (NewReconcilerManager (reconcilers_for api cfg ns))) url = Some r"
  shows "r \<in> set (reconcilers_for api cfg ns)" "rec_GetTypeUrl r = url"
  using map_of_SomeD [OF assms [unfolded manager_lookup]] by auto

lemma manager_step_keeps:
  assumes "others_keep (pe_api env) url v" and "manager_step (pe_manager env) (PushReceived q) w = (w', out)" and "pr_TypeUrl q \<noteq> url"
  shows "v (w_cluster w') = v (w_cluster w)"
proof (cases "map_of (rm_reconcilers (pe_manager env)) (pr_TypeUrl q)")
  case None
  with assms(2) show ?thesis by (simp add: manager_step_def)
next
  case (Some r)
  obtain w1 out1 where "rec_Reconcile r w = (w1, out1)" by (cases "rec_Reconcile r w")
  note run = this
  with assms(2) Some have "w' = w1" by (auto simp: manager_step_def split: outcome.splits)
  then show ?thesis
    using reconciler_keeps [OF assms(1) manager_lookup_SomeD(1) [OF Some] _ run] manager_lookup_SomeD(2) [OF Some] assms(3) by simp
qed

section \<open>Service entries and workload entries\<close>

abbreviation se_gen :: "'s proc_env \<Rightarrow> 's world \<Rightarrow> ServiceEntry list outcome" where
  "se_gen env w \<equiv> ServiceEntries (api_entryOrder (pe_api env)) (factory_of (pe_cfg env) (pe_ns env) w)"

abbreviation we_gen :: "'s proc_env \<Rightarrow> 's world \<Rightarrow> WorkloadEntry list outcome" where
  "we_gen env w \<equiv> WorkloadEntries (api_lookupIP (pe_api env)) (factory_of (pe_cfg env) (pe_ns env) w)"

lemma factory_of_sel:
  "cf_cfg (factory_of cfg ns w) = cfg" "cf_serviceLister (factory_of cfg ns w) = w_lister w"
  "cf_importedServiceStore (factory_of cfg ns w) = w_store w" "cf_namespace (factory_of cfg ns w) = ns"
  by (simp_all add: factory_of_def)

lemma found_in_cong:
  assumes "found_in l = found_in l'"
  shows "(case lister_Get l ns n of Inr s \<Rightarrow> a | Inl err \<Rightarrow> if \<not> IsNotFound err then Fail (f err) else b) =
    (case lister_Get l' ns n of Inr s \<Rightarrow> a | Inl err \<Rightarrow> if \<not> IsNotFound err then Fail (f err) else b)"
  using fun_cong [OF fun_cong [OF assms], of ns n] by (auto simp: found_in_def split: sum.splits if_splits)

lemma factory_cong:
  assumes "w_store w = w_store w'" and "found_in (w_lister w) = found_in (w_lister w')"
  shows "ServiceEntries ord (factory_of cfg ns w) = ServiceEntries ord (factory_of cfg ns w')"
    and "WorkloadEntries dns (factory_of cfg ns w) = WorkloadEntries dns (factory_of cfg ns w')"
proof -
  let ?cf = "factory_of cfg ns w" and ?cf' = "factory_of cfg ns w'"
  have fds: "serviceEntryForRemoteFederationController ?cf = serviceEntryForRemoteFederationController ?cf'"
    by (intro ext) (simp add: factory_of_sel serviceEntryForRemoteFederationController_def)
  have entry: "new_service_entry ?cf = new_service_entry ?cf'"
    by (intro ext) (simp add: factory_of_sel new_service_entry_def)
  have "service_entry_step ?cf = service_entry_step ?cf'"
    by (intro ext) (simp only: service_entry_step_def factory_of_sel found_in_cong [OF assms(2)] entry)
  with fds have "service_entries_for_remote ?cf = service_entries_for_remote ?cf'"
    by (intro ext) (simp add: service_entries_for_remote_def factory_of_sel assms(1) split: prod.split)
  then show "ServiceEntries ord ?cf = ServiceEntries ord ?cf'" by (simp add: ServiceEntries_def factory_of_sel)
  have "workload_entries_for dns ?cf = workload_entries_for dns ?cf'"
    by (intro ext) (simp only: workload_entries_for_def factory_of_sel found_in_cong [OF assms(2)])
  then show "WorkloadEntries dns ?cf = WorkloadEntries dns ?cf'" using assms(1) by (simp add: WorkloadEntries_def factory_of_sel)
qed

lemma Handle_asks:
  assumes "Handle unmarshal store remote resources = (store', pushes, err)"
  shows "store' = store \<and> pushes = [] \<or> (push_of ServiceEntryTypeUrl \<in> set pushes \<and> push_of WorkloadEntryTypeUrl \<in> set pushes)"
  using assms by (auto simp: Handle_def split: outcome.splits)

lemma manager_step_live_iff:
  assumes "map_of (rm_reconcilers rm) (pr_TypeUrl q) = Some (live url r)" and "rec_Reconcile (r w) (w_cluster w) = (c, Val ())"
    and "manager_step rm (PushReceived q) w = (w', Val True)"
  shows "w_cluster w' = c"
  using assms by (auto simp: manager_step_def live_def on_world_def)

lemma service_entries_kind:
  assumes se: "resource_sync_up (api_ServiceEntries (pe_api env)) view conforms ''ServiceEntry'' networking_v1alpha3"
    and ord: "is_order (api_entryOrder (pe_api env))" and keeps: "others_keep (pe_api env) ServiceEntryTypeUrl view"
  shows "reconciled_kind env ServiceEntryTypeUrl (se_gen env) view conforms"
proof
  fix q w w' objs
  assume step: "manager_step (pe_manager env) (PushReceived q) w = (w', Val True)" and q: "pr_TypeUrl q = ServiceEntryTypeUrl"
    and objs: "se_gen env w = Val objs"
  obtain c where "ServiceEntry_Reconcile (pe_api env) (factory_of (pe_cfg env) (pe_ns env) w) (w_cluster w) = (c, Val ())"
    and c: "synced conforms peer_labels objs (view (w_cluster w)) (view c)"
    using ServiceEntry_run [OF se ord objs] by blast
  then have "w_cluster w' = c"
    using manager_step_live_iff [OF _ _ step] manager_entries(1) [of "pe_api env" "pe_cfg env" "pe_ns env"]
    by (simp add: q NewServiceEntryReconciler_def)
  with c show "synced conforms peer_labels objs (view (w_cluster w)) (view (w_cluster w'))" by simp
next
  fix q w w'
  assume "manager_step (pe_manager env) (PushReceived q) w = (w', Val True)" "pr_TypeUrl q \<noteq> ServiceEntryTypeUrl"
  then show "view (w_cluster w') = view (w_cluster w)" using manager_step_keeps [OF keeps] by blast
next
  fix store remote resources store' pushes err
  assume "Handle (pe_unmarshal env) store remote resources = (store', pushes, err)"
  from Handle_asks [OF this] show "store' = store \<and> pushes = [] \<or> (\<exists>q \<in> set pushes. pr_TypeUrl q = ServiceEntryTypeUrl)" by force
qed (rule factory_cong(1))

lemma workload_entries_kind:
  assumes we: "resource_sync_up (api_WorkloadEntries (pe_api env)) view conforms ''WorkloadEntry'' networking_v1alpha3"
    and keeps: "others_keep (pe_api env) WorkloadEntryTypeUrl view"
  shows "reconciled_kind env WorkloadEntryTypeUrl (we_gen env) view conforms"
proof
  fix q w w' objs
  assume step: "manager_step (pe_manager env) (PushReceived q) w = (w', Val True)" and q: "pr_TypeUrl q = WorkloadEntryTypeUrl"
    and objs: "we_gen env w = Val objs"
  obtain c where "WorkloadEntry_Reconcile (pe_api env) (factory_of (pe_cfg env) (pe_ns env) w) (w_cluster w) = (c, Val ())"
    and c: "synced conforms peer_labels objs (view (w_cluster w)) (view c)"
    using WorkloadEntry_run [OF we objs] by blast
  then have "w_cluster w' = c"
    using manager_step_live_iff [OF _ _ step] manager_entries(2) [of "pe_api env" "pe_cfg env" "pe_ns env"]
    by (simp add: q NewWorkloadEntryReconciler_def)
  with c show "synced conforms peer_labels objs (view (w_cluster w)) (view (w_cluster w'))" by simp
next
  fix q w w'
  assume "manager_step (pe_manager env) (PushReceived q) w = (w', Val True)" "pr_TypeUrl q \<noteq> WorkloadEntryTypeUrl"
  then show "view (w_cluster w') = view (w_cluster w)" using manager_step_keeps [OF keeps] by blast
next
  fix store remote resources store' pushes err
  assume "Handle (pe_unmarshal env) store remote resources = (store', pushes, err)"
  from Handle_asks [OF this] show "store' = store \<and> pushes = [] \<or> (\<exists>q \<in> set pushes. pr_TypeUrl q = WorkloadEntryTypeUrl)" by force
qed (rule factory_cong(2))

section \<open>Sent requests are handled\<close>

text \<open>What the reconcilers need of the store and the cache: dotted host names and a cache that answers.\<close>

definition good_inputs :: "'s proc_env \<Rightarrow> ImportedServiceStore \<Rightarrow> ServiceLister \<Rightarrow> bool" where
  "good_inputs env st l \<longleftrightarrow> (\<exists>matches svcs. serves_cache matches svcs l)
     \<and> (\<forall>r \<in> set (remotes_of (pe_cfg env)). \<forall>svc \<in> set (From st r). CHR ''.'' \<in> set (fs_Hostname svc))"

definition registered :: "'s proc_env \<Rightarrow> string set" where
  "registered env = rec_GetTypeUrl ` set (reconcilers_for (pe_api env) (pe_cfg env) (pe_ns env))"

text \<open>The phase is one the manager can end.\<close>

fun good_phase :: "'s proc_env \<Rightarrow> manager_phase \<Rightarrow> bool" where
  "good_phase env ManagerIdle = True"
| "good_phase env (ManagerReceived initial q) = (initial \<longrightarrow> pr_TypeUrl q \<in> registered env)"
| "good_phase env (ManagerRead initial q st l) = ((initial \<longrightarrow> pr_TypeUrl q \<in> registered env) \<and> good_inputs env st l)"

definition good_proc :: "'s proc_env \<Rightarrow> 's proc \<Rightarrow> bool" where
  "good_proc env p \<longleftrightarrow> good_inputs env (w_store (pc_world p)) (w_lister (pc_world p)) \<and> good_phase env (pc_phase p)
     \<and> set (pc_initial p) \<subseteq> registered env \<and> finite {g. pc_sending p g \<noteq> []}"

definition good_env :: "'s proc_env \<Rightarrow> bool" where
  "good_env env \<longleftrightarrow> cluster_up (pe_api env) \<and> lg_Port (local_ingress (pe_cfg env)) \<noteq> None
     \<and> (\<forall>resources svcs. pe_messages env resources \<longrightarrow> unmarshal_all (pe_unmarshal env) resources = Val svcs
          \<longrightarrow> (\<forall>svc \<in> set svcs. CHR ''.'' \<in> set (fs_Hostname svc)))
     \<and> (\<forall>l l'. pe_caches env l l' \<longrightarrow> found_in l' = found_in l \<and> (\<exists>matches svcs. serves_cache matches svcs l'))"

lemma good_env_caches: "good_env env \<Longrightarrow> pe_caches env l l' \<Longrightarrow> found_in l' = found_in l"
  by (simp add: good_env_def)

lemma good_inputs_Handle:
  assumes "good_env env" and "good_inputs env st l" and "pe_messages env resources"
    and "Handle (pe_unmarshal env) st remote resources = (st', pushes, err)"
  shows "good_inputs env st' l"
proof (cases "unmarshal_all (pe_unmarshal env) resources")
  case (Val svcs)
  then have st': "st' = Update st remote svcs" using assms(4) by (simp add: Handle_def)
  have "\<forall>svc \<in> set svcs. CHR ''.'' \<in> set (fs_Hostname svc)" using assms(1,3) Val by (simp add: good_env_def)
  moreover have "set (From st' r) \<subseteq> set (From st r) \<union> set svcs" for r
    by (auto simp: st' From_def Update_def split: option.splits if_splits)
  ultimately show ?thesis using assms(2) by (fastforce simp: good_inputs_def)
qed (use assms(2,4) in \<open>auto simp: Handle_def\<close>)

lemma finite_senders:
  assumes "finite {g. pc_sending p g \<noteq> []}" and "pc_sending p' = (pc_sending p)(g0 := qs)"
  shows "finite {g. pc_sending p' g \<noteq> []}"
  by (rule finite_subset [of _ "insert g0 {g. pc_sending p g \<noteq> []}"]) (use assms in auto)

lemma good_proc_step:
  assumes "good_env env" and "proc_step env p p'" and "good_proc env p"
  shows "good_proc env p'"
  using assms(2)
proof cases
  case (client_handles remote resources store' pushes err)
  have "good_inputs env store' (w_lister (pc_world p))"
    using good_inputs_Handle [OF assms(1) _ client_handles(3,4)] assms(3) by (simp add: good_proc_def)
  moreover have "finite {g. pc_sending p' g \<noteq> []}"
    by (rule finite_senders [of p _ "FromClient remote" pushes]) (use assms(3) client_handles(1) in \<open>simp_all add: good_proc_def\<close>)
  ultimately show ?thesis using assms(3) client_handles(1) by (simp add: good_proc_def)
next
  case (worker_handles services sends)
  have "finite {g. pc_sending p' g \<noteq> []}"
    by (rule finite_senders [of p _ FromInformer "mcp_pushes sends"]) (use assms(3) worker_handles(1) in \<open>simp_all add: good_proc_def\<close>)
  then show ?thesis using assms(3) worker_handles(1) by (simp add: good_proc_def)
next
  case (watcher_ticks lookupIP prevIPs ips pushes)
  have "finite {g. pc_sending p' g \<noteq> []}"
    by (rule finite_senders [of p _ FromWatcher pushes]) (use assms(3) watcher_ticks(1) in \<open>simp_all add: good_proc_def\<close>)
  then show ?thesis using assms(3) watcher_ticks(1) by (simp add: good_proc_def)
next
  case (cache_changes lister')
  have "good_inputs env (w_store (pc_world p)) lister'"
    using assms(1,3) cache_changes(2) by (simp add: good_env_def good_proc_def good_inputs_def)
  then show ?thesis using assms(3) cache_changes(1) by (simp add: good_proc_def)
next
  case (manager_receives g q qs)
  have "finite {g. pc_sending p' g \<noteq> []}"
    by (rule finite_senders [of p _ g qs]) (use assms(3) manager_receives(1) in \<open>simp_all add: good_proc_def\<close>)
  then show ?thesis using assms(3) manager_receives(1) by (simp add: good_proc_def)
qed (use assms(3) in \<open>simp_all add: good_proc_def\<close>)

lemma reconciler_up:
  assumes "good_env env" and "good_inputs env (w_store w) (w_lister w)"
    and "r \<in> set (reconcilers_for (pe_api env) (pe_cfg env) (pe_ns env))"
  shows "\<exists>c. rec_Reconcile r w = (w\<lparr>w_cluster := c\<rparr>, Val ())"
proof -
  have up: "cluster_up (pe_api env)" "lg_Port (local_ingress (pe_cfg env)) \<noteq> None" using assms(1) by (simp_all add: good_env_def)
  obtain matches svcs where "serves_cache matches svcs (w_lister w)" using assms(2) by (auto simp: good_inputs_def)
  moreover have "all_dotted (factory_of (pe_cfg env) (pe_ns env) w)"
    using assms(2) by (simp add: good_inputs_def all_dotted_def factory_of_sel)
  ultimately show ?thesis using reconcilers_run [OF up(1) _ _ assms(3), of matches svcs w] up(2) by auto
qed

lemma manager_step_up:
  assumes "good_env env" and "good_inputs env (w_store w) (w_lister w)"
  shows "\<exists>c. manager_step (pe_manager env) (PushReceived q) w = (w\<lparr>w_cluster := c\<rparr>, Val True)"
proof (cases "map_of (rm_reconcilers (pe_manager env)) (pr_TypeUrl q)")
  case None
  then show ?thesis by (intro exI [of _ "w_cluster w"]) (simp add: manager_step_def)
next
  case (Some r)
  obtain c where "rec_Reconcile r w = (w\<lparr>w_cluster := c\<rparr>, Val ())"
    using reconciler_up [OF assms manager_lookup_SomeD(1) [OF Some]] by blast
  with Some show ?thesis by (auto simp: manager_step_def)
qed

lemma manager_lookup_registered:
  assumes "url \<in> registered env"
  obtains r where "r \<in> set (reconcilers_for (pe_api env) (pe_cfg env) (pe_ns env))"
    "map_of (rm_reconcilers (pe_manager env)) url = Some r"
proof -
  let ?rs = "reconcilers_for (pe_api env) (pe_cfg env) (pe_ns env)"
  obtain r where r: "r \<in> set ?rs" "rec_GetTypeUrl r = url" using assms by (auto simp: registered_def)
  have "map_of (map (\<lambda>r. (rec_GetTypeUrl r, r)) ?rs) url = Some r"
    by (rule map_of_is_SomeI) (use r reconcilers_for_distinct [of "pe_api env" "pe_cfg env" "pe_ns env"] in \<open>auto simp: comp_def\<close>)
  with r(1) that show thesis by (simp add: manager_lookup)
qed

lemma steps_good: "(proc_step env)\<^sup>*\<^sup>* p p' \<Longrightarrow> good_env env \<Longrightarrow> good_proc env p \<Longrightarrow> good_proc env p'"
  by (induction rule: rtranclp_induct) (auto intro: good_proc_step)

text \<open>
  The steps of the manager are those that change its phase. Each request takes three of them.
\<close>

definition manager_move :: "'s proc_env \<Rightarrow> 's proc \<Rightarrow> 's proc \<Rightarrow> bool" where
  "manager_move env p p' \<longleftrightarrow> proc_step env p p' \<and> pc_phase p' \<noteq> pc_phase p"

definition pending_work :: "'s proc \<Rightarrow> nat" where
  "pending_work p = (case pc_phase p of ManagerIdle \<Rightarrow> 0 | ManagerReceived initial q \<Rightarrow> 2 | ManagerRead initial q st l \<Rightarrow> 1)
     + 3 * length (pc_initial p) + 3 * (\<Sum>g | pc_sending p g \<noteq> []. length (pc_sending p g))"

lemma sum_senders:
  assumes "finite G" and "{g. qs g \<noteq> []} \<subseteq> G"
  shows "(\<Sum>g | qs g \<noteq> []. length (qs g)) = (\<Sum>g \<in> G. length (qs g))"
  using assms by (intro sum.mono_neutral_left) auto

lemma sum_take:
  assumes "finite {g. qs g \<noteq> []}" and "qs g = q # rest"
  shows "(\<Sum>h | qs h \<noteq> []. length (qs h)) = Suc (\<Sum>h | (qs(g := rest)) h \<noteq> []. length ((qs(g := rest)) h))"
proof -
  let ?G = "{h. qs h \<noteq> []}"
  have "(\<Sum>h | (qs(g := rest)) h \<noteq> []. length ((qs(g := rest)) h)) = (\<Sum>h \<in> ?G. length ((qs(g := rest)) h))"
    by (rule sum_senders [OF assms(1)]) (use assms(2) in auto)
  moreover have "g \<in> ?G" using assms(2) by simp
  ultimately show ?thesis using assms by (simp add: sum.remove [of ?G g])
qed

lemma manager_move_decreases:
  assumes "manager_move env p p'" and "good_proc env p"
  shows "pending_work p = Suc (pending_work p')" "w_store (pc_world p') = w_store (pc_world p)"
    "w_lister (pc_world p') = w_lister (pc_world p)"
proof -
  have fin: "finite {g. pc_sending p g \<noteq> []}" using assms(2) by (simp add: good_proc_def)
  from assms(1) have "proc_step env p p'" and phase: "pc_phase p' \<noteq> pc_phase p" by (simp_all add: manager_move_def)
  from this(1) have "pending_work p = Suc (pending_work p') \<and> w_store (pc_world p') = w_store (pc_world p)
    \<and> w_lister (pc_world p') = w_lister (pc_world p)"
  proof cases
    case (manager_receives g q qs)
    then show ?thesis using sum_take [OF fin manager_receives(4)] by (simp add: pending_work_def)
  qed (use phase in \<open>auto simp: pending_work_def\<close>)
  then show "pending_work p = Suc (pending_work p')" "w_store (pc_world p') = w_store (pc_world p)"
    "w_lister (pc_world p') = w_lister (pc_world p)" by simp_all
qed

lemma quiescent_iff:
  assumes "good_proc env p"
  shows "quiescent p \<longleftrightarrow> pending_work p = 0"
  using assms by (auto simp: quiescent_def pending_work_def good_proc_def split: manager_phase.splits)

lemma manager_moves:
  assumes "good_env env" and "good_proc env p" and "\<not> quiescent p"
  shows "\<exists>p'. manager_move env p p'"
proof (cases "pc_phase p")
  case ManagerIdle
  show ?thesis
  proof (cases "pc_initial p")
    case Nil
    with assms(3) ManagerIdle obtain g q qs where "pc_sending p g = q # qs" by (auto simp: quiescent_def neq_Nil_conv)
    with manager_receives [OF ManagerIdle Nil this] ManagerIdle show ?thesis unfolding manager_move_def by fastforce
  next
    case (Cons u us)
    with manager_begins [OF ManagerIdle Cons] ManagerIdle show ?thesis unfolding manager_move_def by fastforce
  qed
next
  case (ManagerReceived initial q)
  with manager_reads [OF ManagerReceived] show ?thesis unfolding manager_move_def by fastforce
next
  case (ManagerRead initial q st l)
  let ?w = "(pc_world p)\<lparr>w_store := st, w_lister := l\<rparr>"
  have good: "good_inputs env (w_store ?w) (w_lister ?w)" "initial \<longrightarrow> pr_TypeUrl q \<in> registered env"
    using assms(2) ManagerRead by (simp_all add: good_proc_def)
  show ?thesis
  proof (cases initial)
    case True
    with good(2) obtain r where r: "r \<in> set (reconcilers_for (pe_api env) (pe_cfg env) (pe_ns env))"
      "map_of (rm_reconcilers (pe_manager env)) (pr_TypeUrl q) = Some r" using manager_lookup_registered by blast
    obtain c where "rec_Reconcile r ?w = (?w\<lparr>w_cluster := c\<rparr>, Val ())" using reconciler_up [OF assms(1) good(1) r(1)] by blast
    from initial_writes [OF ManagerRead [unfolded True [THEN eqTrueI]] r(2) this] ManagerRead show ?thesis
      unfolding manager_move_def by fastforce
  next
    case False
    obtain c where "manager_step (pe_manager env) (PushReceived q) ?w = (?w\<lparr>w_cluster := c\<rparr>, Val True)"
      using manager_step_up [OF assms(1) good(1)] by blast
    from manager_writes [OF _ this] ManagerRead False show ?thesis unfolding manager_move_def by fastforce
  qed
qed

text \<open>However the manager picks the requests, it comes to rest, and after as many steps as there is work.\<close>

lemma manager_settles:
  assumes "good_env env" and "good_proc env p"
  shows "\<exists>p'. (manager_move env ^^ pending_work p) p p'"
    and "(manager_move env ^^ pending_work p) p p' \<Longrightarrow> quiescent p' \<and> (proc_step env)\<^sup>*\<^sup>* p p'
      \<and> w_store (pc_world p') = w_store (pc_world p) \<and> w_lister (pc_world p') = w_lister (pc_world p)"
  using assms(2)
proof (induction "pending_work p" arbitrary: p)
  case 0
  {
    case 1
    with 0 show ?case by auto
  next
    case 2
    with 0 have "p' = p" by simp
    with 0 2 show ?case using quiescent_iff [OF 2(2)] by simp
  }
next
  case (Suc n)
  have step: "good_proc env p1 \<and> n = pending_work p1 \<and> proc_step env p p1" if "good_proc env p" "manager_move env p p1" for p1
    using that manager_move_decreases(1) [OF that(2,1)] good_proc_step [OF assms(1) _ that(1)] Suc(3)
    by (simp add: manager_move_def)
  {
    case 1
    have "\<not> quiescent p" using quiescent_iff [OF 1] Suc(3) by simp
    from manager_moves [OF assms(1) 1 this] obtain p1 where p1: "manager_move env p p1" by blast
    with step [OF 1 p1] Suc(1) obtain p' where "(manager_move env ^^ n) p1 p'" by blast
    with p1 Suc(3) show ?case by (metis relpowp_Suc_I2)
  next
    case 2
    obtain p1 where p1: "manager_move env p p1" "(manager_move env ^^ n) p1 p'"
      using 2(1) Suc(3) by (metis relpowp_Suc_D2)
    with step [OF 2(2) p1(1)] Suc(2) manager_move_decreases(2,3) [OF p1(1) 2(2)] show ?case
      by (metis converse_rtranclp_into_rtranclp)
  }
qed

section \<open>The two kinds on the in-memory cluster\<close>

lemma memory_others_keep:
  "others_keep memory_api ServiceEntryTypeUrl (\<lambda>c. memory_view (cl_ServiceEntries c))"
  "others_keep memory_api WorkloadEntryTypeUrl (\<lambda>c. memory_view (cl_WorkloadEntries c))"
  unfolding others_keep_def memory_api_def cluster_api.simps
  by (auto intro!: part_env_keeps)

definition memory_proc_env :: "Federation \<Rightarrow> string \<Rightarrow> unmarshaller \<Rightarrow> label_match \<Rightarrow> (Any list \<Rightarrow> bool) \<Rightarrow> (ServiceLister \<Rightarrow> ServiceLister \<Rightarrow> bool)
    \<Rightarrow> cluster proc_env" where
  "memory_proc_env cfg ns unmarshal matches messages caches = \<lparr>pe_api = memory_api, pe_cfg = cfg, pe_ns = ns, pe_unmarshal = unmarshal,
     pe_matches = matches, pe_messages = messages, pe_caches = caches\<rparr>"

lemma memory_proc_env_sel [simp]:
  "pe_api (memory_proc_env cfg ns um ma me ca) = memory_api" "pe_cfg (memory_proc_env cfg ns um ma me ca) = cfg"
  "pe_ns (memory_proc_env cfg ns um ma me ca) = ns" "pe_unmarshal (memory_proc_env cfg ns um ma me ca) = um"
  "pe_matches (memory_proc_env cfg ns um ma me ca) = ma" "pe_messages (memory_proc_env cfg ns um ma me ca) = me"
  "pe_caches (memory_proc_env cfg ns um ma me ca) = ca"
  by (simp_all add: memory_proc_env_def)

interpretation memory_se: reconciled_kind "memory_proc_env cfg ns um ma me ca" ServiceEntryTypeUrl
  "se_gen (memory_proc_env cfg ns um ma me ca)" "\<lambda>c. memory_view (cl_ServiceEntries c)" "(=)"
  for cfg ns um ma me ca
  by (rule service_entries_kind) (simp_all add: memory_api_up(6) memory_others_keep)

interpretation memory_we: reconciled_kind "memory_proc_env cfg ns um ma me ca" WorkloadEntryTypeUrl
  "we_gen (memory_proc_env cfg ns um ma me ca)" "\<lambda>c. memory_view (cl_WorkloadEntries c)" "(=)"
  for cfg ns um ma me ca
  by (rule workload_entries_kind) (simp_all add: memory_api_up(7) memory_others_keep)

section \<open>Properties\<close>

text \<open>
  The process when \<open>startReconciler\<close> calls \<open>ReconcileAll\<close>: the reconcilers that are left, in the order in which Go
  walks the map, are all of them.
\<close>

definition process_starts :: "'s proc_env \<Rightarrow> 's world \<Rightarrow> 's proc \<Rightarrow> bool" where
  "process_starts env w p \<longleftrightarrow> good_inputs env (w_store w) (w_lister w)
     \<and> mset (pc_initial p) = mset (map rec_GetTypeUrl (reconcilers_for (pe_api env) (pe_cfg env) (pe_ns env)))
     \<and> pc_world p = w \<and> pc_sending p = (\<lambda>_. []) \<and> pc_phase p = ManagerIdle"

text \<open>If nothing else runs meanwhile, the first steps are those of \<open>startReconciler\<close>.\<close>

lemma reconcile_each_run:
  assumes "good_env env" and "good_inputs env (w_store (pc_world p)) (w_lister (pc_world p))"
    and "set rs \<subseteq> set (reconcilers_for (pe_api env) (pe_cfg env) (pe_ns env))"
    and "pc_phase p = ManagerIdle" and "pc_initial p = map rec_GetTypeUrl rs"
  shows "\<exists>w'. reconcile_each rs (pc_world p) errs = (w', Val (errs @ replicate (length rs) None))
    \<and> (proc_step env)\<^sup>*\<^sup>* p (p\<lparr>pc_world := w', pc_initial := []\<rparr>)"
  using assms(2-5)
proof (induction rs arbitrary: p errs)
  case Nil
  then have "p\<lparr>pc_world := pc_world p, pc_initial := []\<rparr> = p" by simp
  then show ?case by simp
next
  case (Cons r rs)
  obtain c where c: "rec_Reconcile r (pc_world p) = ((pc_world p)\<lparr>w_cluster := c\<rparr>, Val ())"
    using reconciler_up [OF assms(1), of "pc_world p" r] Cons.prems by auto
  have r: "map_of (rm_reconcilers (pe_manager env)) (rec_GetTypeUrl r) = Some r"
    unfolding manager_lookup
    by (rule map_of_is_SomeI) (use Cons.prems(2) reconcilers_for_distinct [of "pe_api env" "pe_cfg env" "pe_ns env"] in \<open>auto simp: comp_def\<close>)
  let ?p1 = "p\<lparr>pc_initial := map rec_GetTypeUrl rs, pc_phase := ManagerReceived True (push_of (rec_GetTypeUrl r))\<rparr>"
  let ?p2 = "?p1\<lparr>pc_phase := ManagerRead True (push_of (rec_GetTypeUrl r)) (w_store (pc_world p)) (w_lister (pc_world p))\<rparr>"
  let ?p3 = "p\<lparr>pc_world := (pc_world p)\<lparr>w_cluster := c\<rparr>, pc_initial := map rec_GetTypeUrl rs\<rparr>"
  have "proc_step env p ?p1" using manager_begins [of p "rec_GetTypeUrl r" "map rec_GetTypeUrl rs"] Cons.prems(3,4) by simp
  moreover have "proc_step env ?p1 ?p2" using manager_reads [of ?p1 True] by simp
  moreover have "proc_step env ?p2 ?p3"
  proof -
    have "?p3 = ?p2\<lparr>pc_world := (pc_world p)\<lparr>w_cluster := c\<rparr>, pc_phase := ManagerIdle\<rparr>"
      using Cons.prems(3) by (intro proc.equality) simp_all
    moreover have "proc_step env ?p2 (?p2\<lparr>pc_world := (pc_world p)\<lparr>w_cluster := c\<rparr>, pc_phase := ManagerIdle\<rparr>)"
      using initial_writes [of ?p2 "push_of (rec_GetTypeUrl r)" _ _ env r "(pc_world p)\<lparr>w_cluster := c\<rparr>"] c r by simp
    ultimately show ?thesis by (simp only:)
  qed
  ultimately have steps: "(proc_step env)\<^sup>*\<^sup>* p ?p3" by (meson converse_rtranclp_into_rtranclp rtranclp.rtrancl_refl)
  from Cons.IH [of ?p3 "errs @ [None]"] Cons.prems obtain w' where
    "reconcile_each rs ((pc_world p)\<lparr>w_cluster := c\<rparr>) (errs @ [None]) = (w', Val (errs @ replicate (length (r # rs)) None))"
    "(proc_step env)\<^sup>*\<^sup>* ?p3 (p\<lparr>pc_world := w', pc_initial := []\<rparr>)" by auto
  with steps c show ?case by (auto intro: rtranclp_trans)
qed

lemma startReconciler_run:
  assumes "good_env env" and inputs: "good_inputs env (w_store w) (w_lister w)"
    and ns: "Namespace penv cfg = (pe_ns env, pe_cfg env)" and ord: "is_order ord"
    and run: "startReconciler no_startup_errors penv ord (pe_api env) cfg w = (w0, Started rm)"
  shows "\<exists>p0. process_starts env w p0 \<and> (proc_step env)\<^sup>*\<^sup>* p0 (p0\<lparr>pc_world := w0, pc_initial := []\<rparr>) \<and> rm = pe_manager env"
proof -
  let ?rs = "reconcilers_for (pe_api env) (pe_cfg env) (pe_ns env)"
  let ?perm = "map snd (ord (rm_reconcilers (pe_manager env)))"
  have "mset (ord (rm_reconcilers (pe_manager env))) = mset (rm_reconcilers (pe_manager env))" using ord by (simp add: is_order_def)
  then have "mset ?perm = mset (map snd (rm_reconcilers (pe_manager env)))" by (metis mset_map)
  also have "\<dots> = mset ?rs"
    by (simp add: NewReconcilerManager_def index_by_distinct [OF reconcilers_for_distinct] comp_def)
  finally have perm: "mset ?perm = mset ?rs" .
  let ?p0 = "\<lparr>pc_world = w, pc_sending = (\<lambda>_. []), pc_initial = map rec_GetTypeUrl ?perm, pc_phase = ManagerIdle\<rparr>"
  have start: "process_starts env w ?p0" using inputs perm by (simp add: process_starts_def del: map_map)
  have sub: "set ?perm \<subseteq> set ?rs" using mset_eq_setD [OF perm] by blast
  obtain w1 where w1: "reconcile_each ?perm w [] = (w1, Val (replicate (length ?perm) None))"
    "(proc_step env)\<^sup>*\<^sup>* ?p0 (?p0\<lparr>pc_world := w1, pc_initial := []\<rparr>)"
    using reconcile_each_run [OF assms(1), of ?p0 ?perm "[]"] inputs sub by auto
  then have "ReconcileAll ord (pe_manager env) w = (w1, Val None)"
    unfolding ReconcileAll_def by (simp add: errors_Join_None)
  with run have "w0 = w1 \<and> rm = pe_manager env"
    by (cases "local_IngressType (mp_Local (fed_MeshPeers (pe_cfg env))) = OpenShiftRouter")
      (simp_all add: startReconciler_def no_startup_errors_sel ns Let_def)
  with start w1(2) show ?thesis by blast
qed

text \<open>How the service entries and workload entries of the cluster are seen.\<close>

definition sees_entries :: "'s cluster_api \<Rightarrow> ('s \<Rightarrow> key \<rightharpoonup> ServiceEntry) \<Rightarrow> (ServiceEntrySpec \<Rightarrow> ServiceEntrySpec \<Rightarrow> bool)
    \<Rightarrow> ('s \<Rightarrow> key \<rightharpoonup> WorkloadEntry) \<Rightarrow> (WorkloadEntrySpec \<Rightarrow> WorkloadEntrySpec \<Rightarrow> bool) \<Rightarrow> bool" where
  "sees_entries api viewS conformsS viewW conformsW \<longleftrightarrow>
     resource_sync_up (api_ServiceEntries api) viewS conformsS ''ServiceEntry'' networking_v1alpha3
   \<and> resource_sync_up (api_WorkloadEntries api) viewW conformsW ''WorkloadEntry'' networking_v1alpha3
   \<and> others_keep api ServiceEntryTypeUrl viewS \<and> others_keep api WorkloadEntryTypeUrl viewW"

lemma sees_entries_kinds:
  assumes "good_env env" and "sees_entries (pe_api env) viewS conformsS viewW conformsW"
  shows "reconciled_kind env ServiceEntryTypeUrl (se_gen env) viewS conformsS"
    and "reconciled_kind env WorkloadEntryTypeUrl (we_gen env) viewW conformsW"
proof -
  have "is_order (api_entryOrder (pe_api env))" using assms(1) by (simp add: good_env_def cluster_up_def)
  then show "reconciled_kind env ServiceEntryTypeUrl (se_gen env) viewS conformsS"
    using assms(2) by (simp add: sees_entries_def service_entries_kind)
  show "reconciled_kind env WorkloadEntryTypeUrl (we_gen env) viewW conformsW"
    using assms(2) by (simp add: sees_entries_def workload_entries_kind)
qed

lemma starts_kind_inv:
  assumes "process_starts env w p"
  shows "url \<in> {ServiceEntryTypeUrl, WorkloadEntryTypeUrl} \<Longrightarrow> kind_inv url gen view conforms p" and "good_proc env p"
proof -
  have urls: "set (pc_initial p) = registered env"
    using assms mset_eq_setD [of "pc_initial p" "map rec_GetTypeUrl (reconcilers_for (pe_api env) (pe_cfg env) (pe_ns env))"]
    by (simp add: process_starts_def registered_def)
  with assms show "good_proc env p" by (simp add: process_starts_def good_proc_def)
  have "{ServiceEntryTypeUrl, WorkloadEntryTypeUrl} \<subseteq> registered env"
    by (simp add: registered_def reconcilers_for_def live_def)
  with urls show "url \<in> {ServiceEntryTypeUrl, WorkloadEntryTypeUrl} \<Longrightarrow> kind_inv url gen view conforms p"
    by (auto simp: kind_inv_def awaited_def)
qed

lemma good_generators:
  assumes "good_env env" and "good_inputs env (w_store w) (w_lister w)"
  shows "\<exists>ses. se_gen env w = Val ses" and "\<exists>wes. we_gen env w = Val wes"
proof -
  obtain matches svcs where "serves_cache matches svcs (cf_serviceLister (factory_of (pe_cfg env) (pe_ns env) w))"
    using assms(2) by (auto simp: good_inputs_def factory_of_sel)
  moreover have "all_dotted (factory_of (pe_cfg env) (pe_ns env) w)"
    using assms(2) by (simp add: good_inputs_def all_dotted_def factory_of_sel)
  moreover have "is_order (api_entryOrder (pe_api env))" using assms(1) by (simp add: good_env_def cluster_up_def)
  ultimately show "\<exists>ses. se_gen env w = Val ses" "\<exists>wes. we_gen env w = Val wes"
    using service_entries_total WorkloadEntries_total by blast+
qed

lemma run_synced:
  assumes "good_env env" and views: "sees_entries (pe_api env) viewS conformsS viewW conformsW"
    and start: "process_starts env w p0" and run: "(proc_step env)\<^sup>*\<^sup>* p0 p" and quiet: "quiescent p"
  shows "\<exists>ses wes beforeS beforeW. se_gen env (pc_world p) = Val ses \<and> we_gen env (pc_world p) = Val wes
    \<and> synced conformsS peer_labels ses beforeS (viewS (w_cluster (pc_world p)))
    \<and> synced conformsW peer_labels wes beforeW (viewW (w_cluster (pc_world p)))"
proof -
  note kinds = sees_entries_kinds [OF assms(1) views]
  have "good_proc env p" using steps_good [OF run assms(1)] starts_kind_inv(2) [OF start] by simp
  then have good: "good_inputs env (w_store (pc_world p)) (w_lister (pc_world p))" by (simp add: good_proc_def)
  have "kind_synced (se_gen env) viewS conformsS (pc_world p)"
    by (rule reconciled_kind.quiescent_synced [OF kinds(1) run starts_kind_inv(1) [OF start] quiet
        good_env_caches [OF assms(1)]]) simp
  moreover have "kind_synced (we_gen env) viewW conformsW (pc_world p)"
    by (rule reconciled_kind.quiescent_synced [OF kinds(2) run starts_kind_inv(1) [OF start] quiet
        good_env_caches [OF assms(1)]]) simp
  ultimately show ?thesis using good_generators [OF assms(1) good] unfolding kind_synced_def by blast
qed

text \<open>A run on the in-memory cluster: the start, and a message of \<open>west\<close> with one service.\<close>

definition sample_proc_env :: "cluster proc_env" where
  "sample_proc_env = memory_proc_env (east_cfg OpenShiftRouter [west]) ''istio-system'' one_unmarshal (\<subseteq>\<^sub>m) (\<lambda>_. True)
     (\<lambda>l l'. l' = cache_lister (\<subseteq>\<^sub>m) [svcA_ns1\<lparr>svc_Labels := Map.empty\<rparr>] \<and> found_in l' = found_in l)"

definition sample_message :: "Any list" where
  "sample_message = [\<lparr>any_TypeUrl = [], any_Value = [1]\<rparr>]"

lemma one_unmarshal_dotted:
  "unmarshal_all one_unmarshal resources = Val svcs \<Longrightarrow> \<forall>svc \<in> set svcs. CHR ''.'' \<in> set (fs_Hostname svc)"
  by (induction resources arbitrary: svcs) (auto simp: one_unmarshal_def outcome_simps split: if_splits)

lemma sample_run:
  obtains p0 p where "good_env sample_proc_env" and "process_starts sample_proc_env sample_world p0"
    and "sees_entries (pe_api sample_proc_env) (\<lambda>c. memory_view (cl_ServiceEntries c)) (=) (\<lambda>c. memory_view (cl_WorkloadEntries c)) (=)"
    and "(proc_step sample_proc_env)\<^sup>*\<^sup>* p0 p" and "length (pc_sending p (FromClient ''west'')) = 3"
    and "good_proc sample_proc_env p" and "map fs_Hostname (From (w_store (pc_world p)) west) = [''a.ns1.svc.cluster.local'']"
proof -
  let ?cfg = "east_cfg OpenShiftRouter [west]"
  have cache: "serves_cache (\<subseteq>\<^sub>m) [svcA_ns1] (w_lister sample_world)" by (simp add: sample_world_def plain_lister_serves)
  have port: "lg_Port (local_ingress ?cfg) = Some \<lparr>gp_Name = ''tls'', gp_Number = 443\<rparr>" by (simp add: east_cfg_def)
  have env: "good_env sample_proc_env"
    using one_unmarshal_dotted serves_cache_lister by (fastforce simp: good_env_def sample_proc_env_def cluster_up_memory port)
  have dotted: "\<forall>r \<in> set (remotes_of ?cfg). \<forall>svc \<in> set (From (w_store sample_world) r). CHR ''.'' \<in> set (fs_Hostname svc)"
    by (simp add: sample_world_def)
  define p0 where "p0 = \<lparr>pc_world = sample_world, pc_sending = (\<lambda>_. []),
     pc_initial = map rec_GetTypeUrl (reconcilers_for memory_api ?cfg ''istio-system''), pc_phase = ManagerIdle\<rparr>"
  have start: "process_starts sample_proc_env sample_world p0"
    unfolding process_starts_def using cache dotted by (auto simp: p0_def sample_proc_env_def good_inputs_def)
  have views: "sees_entries (pe_api sample_proc_env) (\<lambda>c. memory_view (cl_ServiceEntries c)) (=) (\<lambda>c. memory_view (cl_WorkloadEntries c)) (=)"
    by (simp add: sees_entries_def sample_proc_env_def memory_api_up memory_others_keep)
  obtain store' pushes err where handle: "Handle one_unmarshal (w_store sample_world) ''west'' sample_message = (store', pushes, err)"
    by (metis prod_cases3)
  let ?p = "p0\<lparr>pc_world := (pc_world p0)\<lparr>w_store := store'\<rparr>, pc_sending := (pc_sending p0)(FromClient ''west'' := pushes)\<rparr>"
  have step: "proc_step sample_proc_env p0 ?p"
    by (rule client_handles [where err = err]) (use handle in \<open>simp_all add: p0_def sample_proc_env_def\<close>)
  have sent: "length pushes = 3" "map fs_Hostname (From store' west) = [''a.ns1.svc.cluster.local'']"
    using handle by (auto simp: Handle_def sample_message_def one_unmarshal_def west_def)
  have "good_proc sample_proc_env ?p"
    by (rule good_proc_step [OF env step]) (rule starts_kind_inv(2) [OF start])
  moreover have "(proc_step sample_proc_env)\<^sup>*\<^sup>* p0 ?p" using step by (rule r_into_rtranclp)
  moreover have "pc_sending ?p (FromClient ''west'') = pushes" "w_store (pc_world ?p) = store'" by simp_all
  ultimately show thesis using that [OF env start views] sent by metis
qed





subsection \<open>A local Service that appears later\<close>

text \<open>The name of an import is among the service entries exactly while no local Service has its name and namespace.\<close>

lemma import_name_iff:
  assumes "serves_cache matches svcs (cf_serviceLister cf)" and "all_dotted cf" and "is_order ord" and "ServiceEntries ord cf = Val ses"
    and inj: "inj_on pair_name (imported_pairs cf)" and pair: "(r, svc) \<in> imported_pairs cf" and addr: "remote_Addresses r \<noteq> []"
  shows "import_name r svc \<in> (\<lambda>e. om_Name (ko_Meta e)) ` set ses \<longleftrightarrow> missing_locally svcs svc"
proof -
  let ?ps = "imports_of cf svcs"
  let ?group = "\<lambda>n. filter (\<lambda>p. pair_name p = n) ?ps"
  obtain fds es where fds: "controller_entries cf (remotes_of (cf_cfg cf)) = Val fds" and ses: "ses = fds @ es"
    and es: "mset es = mset (map (\<lambda>n. the (merged_entry cf (?group n))) (remdups (map pair_name ?ps)))"
    using service_entries_total [OF assms(1-3)] assms(4) by auto
  have name: "om_Name (ko_Meta (the (merged_entry cf (?group n)))) = n" if "n \<in> pair_name ` set ?ps" for n
  proof -
    from that obtain q qs where "?group n = q # qs" by (metis (mono_tags, lifting) filter_empty_conv image_iff neq_Nil_conv)
    moreover then have "pair_name q = n" by (metis (mono_tags, lifting) filter_eq_ConsD)
    ultimately show ?thesis by (simp add: pair_entry_name)
  qed
  have "(\<lambda>e. om_Name (ko_Meta e)) ` set es = pair_name ` set ?ps"
    using mset_eq_setD [OF es] name by (force simp: image_iff)
  moreover have "import_name r svc \<notin> (\<lambda>e. om_Name (ko_Meta e)) ` set fds"
    using controller_entry_name [OF fds] import_name_not_ServiceName by fastforce
  moreover have "import_name r svc \<in> pair_name ` set ?ps \<longleftrightarrow> (r, svc) \<in> set ?ps"
  proof
    assume "import_name r svc \<in> pair_name ` set ?ps"
    then obtain q where q: "q \<in> set ?ps" "pair_name q = pair_name (r, svc)" by (auto simp: pair_name_def)
    moreover have "q \<in> imported_pairs cf" using q(1) imports_of_iff [of "fst q" "snd q" cf svcs] by simp
    ultimately have "q = (r, svc)" using inj pair by (simp add: inj_on_def)
    with q(1) show "(r, svc) \<in> set ?ps" by simp
  qed (force simp: pair_name_def)
  ultimately show ?thesis using pair addr by (auto simp: ses imports_of_iff)
qed

lemma labelled_not_desired:
  assumes "synced conforms sel objs before after" and "after k = Some obj" and "sel \<subseteq>\<^sub>m om_Labels (ko_Meta obj)"
  shows "k \<in> obj_key ` set objs"
proof (rule ccontr)
  assume "k \<notin> obj_key ` set objs"
  from synced_other [OF assms(1) this] assms(2,3) show False by (auto split: option.splits if_splits)
qed

text \<open>
  C39: a local Service that appears after an import leaves a stale service entry. Let the cluster agree with the store, let an
  imported service have no local Service, and let a Service of its name and namespace appear in the
  cache that is not exported. The informer's handler sends nothing for it, so the process stays quiescent, and
  yet the cluster no longer agrees with what the factory generates: the \<open>ServiceEntry\<close> of the import is still there.
\<close>

theorem local_service_not_reconciled:
  assumes "quiescent p" and synced: "kind_synced (se_gen env) view conforms (pc_world p)" and ord: "is_order (api_entryOrder (pe_api env))"
    and cache: "serves_cache matches svcs (w_lister (pc_world p))" and cache': "serves_cache matches (s # svcs) lister'"
    and change: "pe_caches env (w_lister (pc_world p)) lister'"
    and dotted: "all_dotted (factory_of (pe_cfg env) (pe_ns env) (pc_world p))"
    and inj: "inj_on pair_name (imported_pairs (factory_of (pe_cfg env) (pe_ns env) (pc_world p)))"
    and pair: "r \<in> set (remotes_of (pe_cfg env))" "svc \<in> set (From (w_store (pc_world p)) r)" "remote_Addresses r \<noteq> []"
    and local: "getServiceNameAndNs (fs_Hostname svc) = Val (svc_Name s, svc_Namespace s)" "missing_locally svcs svc"
    and unexported: "\<not> MatchExportRules (pe_matches env) s (export_selectors (pe_cfg env))"
  shows "seh_ObjectCreated (pe_matches env) (pe_cfg env) (Some (ServiceObject s)) = ([], Val ())
    \<and> (\<exists>p'. (proc_step env)\<^sup>*\<^sup>* p p' \<and> w_lister (pc_world p') = lister' \<and> quiescent p'
        \<and> \<not> kind_synced (se_gen env) view conforms (pc_world p'))"
proof -
  let ?p = "p\<lparr>pc_world := (pc_world p)\<lparr>w_lister := lister'\<rparr>\<rparr>"
  let ?cf = "factory_of (pe_cfg env) (pe_ns env) (pc_world p)" and ?cf' = "factory_of (pe_cfg env) (pe_ns env) (pc_world ?p)"
  have handler: "seh_ObjectCreated (pe_matches env) (pe_cfg env) (Some (ServiceObject s)) = ([], Val ())"
    using unexported by (simp add: seh_ObjectCreated_def triggerXDSPushIfMatchRules_def Let_def)
  have step: "(proc_step env)\<^sup>*\<^sup>* p ?p" using cache_changes [OF change] by (rule r_into_rtranclp)
  have quiet: "quiescent ?p" using assms(1) by (simp add: quiescent_def)
  have caches: "serves_cache matches svcs (cf_serviceLister ?cf)" "serves_cache matches (s # svcs) (cf_serviceLister ?cf')"
    using cache cache' by (simp_all add: factory_of_sel)
  have dotted': "all_dotted ?cf'" using dotted by (simp add: all_dotted_def factory_of_sel)
  have pairs: "imported_pairs ?cf' = imported_pairs ?cf" by (simp add: imported_pairs_def factory_of_sel)
  have imported: "(r, svc) \<in> imported_pairs ?cf" using pair by (simp add: imported_pairs_def factory_of_sel)
  obtain ses where ses: "se_gen env (pc_world p) = Val ses" using service_entries_total [OF caches(1) dotted ord] by blast
  obtain ses' where ses': "se_gen env (pc_world ?p) = Val ses'" using service_entries_total [OF caches(2) dotted' ord] by blast
  from import_name_iff [OF caches(1) dotted ord ses inj imported pair(3)] local(2) obtain e
    where e: "e \<in> set ses" "om_Name (ko_Meta e) = import_name r svc" by auto
  have gone: "import_name r svc \<notin> (\<lambda>e. om_Name (ko_Meta e)) ` set ses'"
    using import_name_iff [OF caches(2) dotted' ord ses' inj [folded pairs] imported [folded pairs] pair(3)] local(1)
    by (simp add: missing_locally_def)
  obtain before where "synced conforms peer_labels ses before (view (w_cluster (pc_world p)))"
    using synced ses by (auto simp: kind_synced_def)
  from synced_desired [OF this] map_of_index_by_in [of "obj_key e" obj_key ses] e(1) obtain new
    where new: "view (w_cluster (pc_world p)) (obj_key e) = Some new" "peer_labels \<subseteq>\<^sub>m om_Labels (ko_Meta new)" by blast
  have "\<not> kind_synced (se_gen env) view conforms (pc_world ?p)"
  proof
    assume "kind_synced (se_gen env) view conforms (pc_world ?p)"
    then obtain before' where "synced conforms peer_labels ses' before' (view (w_cluster (pc_world p)))"
      using ses' by (auto simp: kind_synced_def)
    from labelled_not_desired [OF this new] gone e(2) show False by (auto simp: obj_key_def)
  qed
  with handler step quiet show ?thesis by (intro conjI exI [of _ ?p]) simp_all
qed

definition late_env :: "cluster proc_env" where
  "late_env = memory_proc_env (east_cfg Istio [west]) ''istio-system'' one_unmarshal (\<subseteq>\<^sub>m) (\<lambda>_. True)
     (\<lambda>_ l'. l' = plain_lister)"

theorem local_service_not_reconciled_witness:
  "\<exists>p p'. quiescent p \<and> kind_synced (se_gen late_env) (\<lambda>c. memory_view (cl_ServiceEntries c)) (=) (pc_world p)
    \<and> (proc_step late_env)\<^sup>*\<^sup>* p p' \<and> quiescent p'
    \<and> \<not> kind_synced (se_gen late_env) (\<lambda>c. memory_view (cl_ServiceEntries c)) (=) (pc_world p')"
proof -
  let ?l = "cache_lister (\<subseteq>\<^sub>m) []" and ?view = "\<lambda>c :: cluster. memory_view (cl_ServiceEntries c)"
  let ?w = "\<lparr>w_lister = ?l, w_store = west_store, w_cluster = stale_cluster\<rparr>"
  let ?cf = "factory_of (east_cfg Istio [west]) ''istio-system'' ?w"
  have cache: "serves_cache (\<subseteq>\<^sub>m) [] ?l" by (rule serves_cache_lister)
  have dotted: "all_dotted ?cf" by (simp add: all_dotted_def factory_of_sel sample_defs [unfolded west_def])
  have gen: "se_gen late_env w = ServiceEntries rev (factory_of (east_cfg Istio [west]) ''istio-system'' w)" for w
    by (simp add: late_env_def)
  have lister: "serves_cache (\<subseteq>\<^sub>m) [] (cf_serviceLister ?cf)" using cache by (simp add: factory_of_sel)
  obtain ses where ses: "ServiceEntries rev ?cf = Val ses" using service_entries_total [OF lister dotted is_order_rev] by blast
  obtain c where c: "synced (=) peer_labels ses (?view stale_cluster) (?view c)"
    using ServiceEntry_run [OF memory_api_up(6), of ?cf ses stale_cluster, unfolded memory_api_args, OF is_order_rev ses] by blast
  define p where "p = \<lparr>pc_world = ?w\<lparr>w_cluster := c\<rparr>, pc_sending = (\<lambda>_. []), pc_initial = [], pc_phase = ManagerIdle\<rparr>"
  have cf: "factory_of (east_cfg Istio [west]) ''istio-system'' (pc_world p) = ?cf" by (simp add: p_def factory_of_def)
  have quiet: "quiescent p" by (simp add: quiescent_def p_def)
  have sync: "kind_synced (se_gen late_env) ?view (=) (pc_world p)"
    unfolding kind_synced_def gen cf ses using c by (auto simp: p_def)
  have pairs: "imported_pairs ?cf = {(west, importedA_ns1), (west, importedB_ns1), (west, importedA_ns2)}"
    by (auto simp: imported_pairs_def factory_of_sel)
  have inj: "inj_on pair_name (imported_pairs ?cf)"
    unfolding pairs by (simp add: pair_name_def import_name_def separateWithDash_eq sample_defs)
  have name: "getServiceNameAndNs (fs_Hostname importedA_ns1) = Val (svc_Name svcA_ns1, svc_Namespace svcA_ns1)"
    "missing_locally [] importedA_ns1" "remote_Addresses west \<noteq> []"
    by (simp_all add: sample_defs getServiceNameAndNs_def missing_locally_def Let_def)
  have "\<exists>p'. (proc_step late_env)\<^sup>*\<^sup>* p p' \<and> w_lister (pc_world p') = plain_lister \<and> quiescent p'
      \<and> \<not> kind_synced (se_gen late_env) ?view (=) (pc_world p')"
    by (rule conjunct2 [OF local_service_not_reconciled [OF quiet sync, of "(\<subseteq>\<^sub>m)" "[]" svcA_ns1 plain_lister west importedA_ns1]])
      (use cache plain_lister_serves cf dotted inj name in \<open>simp_all add: late_env_def p_def MatchExportRules_iff\<close>)
  with quiet sync show ?thesis by blast
qed

end
