(* ===== verification/Wire.thy ===== *)
theory Wire
  imports Fds Json
begin

text \<open>
  The wire format of protocol buffers, version 3: variable-length integers, tags, fields. A message is the
  sequence of its fields; what a field means is decided by the message that is read. The theory gives
  the readers and writers and shows that what was written is read back. Groups, which version 3 does not have,
  are refused.
\<close>

section \<open>Variable-length integers\<close>

fun varint :: "nat \<Rightarrow> bytes" where
  "varint n = (if n < 128 then [of_nat n] else of_nat (n mod 128 + 128) # varint (n div 128))"

declare varint.simps [simp del]

text \<open>At most ten bytes, of which the tenth adds one bit to the 63 read before.\<close>

fun read_varint :: "nat \<Rightarrow> bytes \<Rightarrow> (nat \<times> bytes) option" where
  "read_varint k [] = None"
| "read_varint 0 (b # bs) = None"
| "read_varint (Suc k) (b # bs) =
     (let n = unat b in
      if n < 128 then (if k = 0 \<and> 1 < n then None else Some (n, bs))
      else (case read_varint k bs of None \<Rightarrow> None | Some (m, rest) \<Rightarrow> Some (n - 128 + 128 * m, rest)))"

lemma unat_byte: "n < 256 \<Longrightarrow> unat (of_nat n :: 8 word) = n"
  by (simp add: unat_of_nat)

lemma varint_not_Nil [simp]: "varint n \<noteq> []"
  by (subst varint.simps) simp

lemma read_varint_varint_aux: "n < 2 * 128 ^ k \<Longrightarrow> read_varint (Suc k) (varint n @ rest) = Some (n, rest)"
proof (induction k arbitrary: n)
  case 0
  then show ?case by (subst varint.simps) (simp add: unat_byte Let_def)
next
  case (Suc k)
  show ?case
  proof (cases "n < 128")
    case True
    then show ?thesis by (subst varint.simps) (simp add: unat_byte Let_def)
  next
    case False
    have "n div 128 < 2 * 128 ^ k" using Suc.prems by (simp add: less_mult_imp_div_less mult.commute mult.left_commute)
    note IH = Suc.IH [OF this]
    have byte: "unat (of_nat (n mod 128 + 128) :: 8 word) = n mod 128 + 128"
      by (rule unat_byte) (use mod_less_divisor [of 128 n] in linarith)
    have "varint n = of_nat (n mod 128 + 128) # varint (n div 128)" using False by (simp add: varint.simps [of n])
    then show ?thesis using IH byte mod_mult_div_eq [of n 128] by (simp add: Let_def del: of_nat_add)
  qed
qed

definition consume_varint :: "bytes \<Rightarrow> (nat \<times> bytes) option" where
  "consume_varint bs = read_varint 10 bs"

lemma consume_varint_varint [simp]: "n < 2 ^ 64 \<Longrightarrow> consume_varint (varint n @ rest) = Some (n, rest)"
proof -
  assume "n < 2 ^ 64"
  then have "n < 2 * 128 ^ 9" by simp
  moreover have "(10 :: nat) = Suc 9" by simp
  ultimately show ?thesis unfolding consume_varint_def by (simp only: read_varint_varint_aux)
qed

lemma read_varint_shorter: "read_varint k bs = Some (n, rest) \<Longrightarrow> length rest < length bs"
proof (induction k bs arbitrary: n rest rule: read_varint.induct)
  case (3 k b bs)
  then show ?case by (cases "unat b < 128") (auto simp: Let_def less_SucI split: if_splits option.splits)
qed simp_all

lemma consume_varint_shorter: "consume_varint bs = Some (n, rest) \<Longrightarrow> length rest < length bs"
  unfolding consume_varint_def by (rule read_varint_shorter)

section \<open>Fields\<close>

datatype wire_value = WVarint nat | WFixed64 bytes | WBytes bytes | WFixed32 bytes

type_synonym field = "nat \<times> wire_value"

definition field_tag :: "nat \<Rightarrow> nat \<Rightarrow> bytes" where
  "field_tag num wtype = varint (num * 8 + wtype)"

fun field_bytes :: "field \<Rightarrow> bytes" where
  "field_bytes (num, WVarint n) = field_tag num 0 @ varint n"
| "field_bytes (num, WFixed64 bs) = field_tag num 1 @ bs"
| "field_bytes (num, WBytes bs) = field_tag num 2 @ varint (length bs) @ bs"
| "field_bytes (num, WFixed32 bs) = field_tag num 5 @ bs"

definition take_exactly :: "nat \<Rightarrow> bytes \<Rightarrow> (bytes \<times> bytes) option" where
  "take_exactly n bs = (if n \<le> length bs then Some (take n bs, drop n bs) else None)"

definition read_value :: "nat \<Rightarrow> bytes \<Rightarrow> (wire_value \<times> bytes) option" where
  "read_value wtype bs =
     (if wtype = 0 then map_option (apfst WVarint) (consume_varint bs)
      else if wtype = 1 then map_option (apfst WFixed64) (take_exactly 8 bs)
      else if wtype = 2 then Option.bind (consume_varint bs) (\<lambda>(n, rest). map_option (apfst WBytes) (take_exactly n rest))
      else if wtype = 5 then map_option (apfst WFixed32) (take_exactly 4 bs)
      else None)"

definition valid_number :: "nat \<Rightarrow> bool" where
  "valid_number num \<longleftrightarrow> 0 < num \<and> num < 2 ^ 29"

definition read_field :: "bytes \<Rightarrow> (field \<times> bytes) option" where
  "read_field bs = Option.bind (consume_varint bs) (\<lambda>(tag, rest).
     if valid_number (tag div 8) then map_option (apfst (Pair (tag div 8))) (read_value (tag mod 8) rest) else None)"

lemma take_exactly_length: "take_exactly n bs = Some (xs, rest) \<Longrightarrow> length rest \<le> length bs"
  by (auto simp: take_exactly_def split: if_splits)

lemma read_value_length: "read_value wtype bs = Some (v, rest) \<Longrightarrow> length rest \<le> length bs"
  by (fastforce simp: read_value_def bind_eq_Some_conv dest: consume_varint_shorter take_exactly_length split: if_splits)

lemma read_field_shorter: "read_field bs = Some (f, rest) \<Longrightarrow> length rest < length bs"
  by (fastforce simp: read_field_def bind_eq_Some_conv dest: consume_varint_shorter read_value_length split: if_splits)

function parse_fields :: "bytes \<Rightarrow> field list option" where
  "parse_fields bs = (if bs = [] then Some [] else
     (case read_field bs of None \<Rightarrow> None | Some (f, rest) \<Rightarrow> map_option ((#) f) (parse_fields rest)))"
  by pat_completeness auto
termination
  by (relation "measure length") (auto dest: read_field_shorter)

declare parse_fields.simps [simp del]

fun valid_field :: "field \<Rightarrow> bool" where
  "valid_field (num, WVarint n) \<longleftrightarrow> valid_number num \<and> n < 2 ^ 64"
| "valid_field (num, WFixed64 bs) \<longleftrightarrow> valid_number num \<and> length bs = 8"
| "valid_field (num, WBytes bs) \<longleftrightarrow> valid_number num \<and> length bs < 2 ^ 64"
| "valid_field (num, WFixed32 bs) \<longleftrightarrow> valid_number num \<and> length bs = 4"

lemma read_field_tag:
  assumes "valid_number num" and "wtype < 8"
  shows "read_field (field_tag num wtype @ bs) = map_option (apfst (Pair num)) (read_value wtype bs)"
proof -
  have "num * 8 + wtype < 2 ^ 64" using assms by (simp add: valid_number_def)
  with assms show ?thesis by (simp add: read_field_def field_tag_def)
qed

lemma read_field_bytes: "valid_field f \<Longrightarrow> read_field (field_bytes f @ rest) = Some (f, rest)"
  by (cases f rule: field_bytes.cases) (simp_all add: read_field_tag read_value_def take_exactly_def)

lemma field_bytes_not_Nil [simp]: "field_bytes f \<noteq> []"
  by (cases f rule: field_bytes.cases) (simp_all add: field_tag_def)

definition fields_bytes :: "field list \<Rightarrow> bytes" where
  "fields_bytes fs = concat (map field_bytes fs)"

lemma fields_bytes_simps [simp]:
  "fields_bytes [] = []" "fields_bytes (f # fs) = field_bytes f @ fields_bytes fs" "fields_bytes (fs @ gs) = fields_bytes fs @ fields_bytes gs"
  by (simp_all add: fields_bytes_def)

text \<open>What was written as a sequence of fields is read as the same sequence.\<close>

lemma parse_fields_bytes: "list_all valid_field fs \<Longrightarrow> parse_fields (fields_bytes fs) = Some fs"
  by (induction fs) (simp_all add: parse_fields.simps read_field_bytes)

end
