(* ===== verification/Proto_Messages.thy ===== *)
theory Proto_Messages
  imports Wire
begin

text \<open>
  The messages of the federation protocol on the wire. From the generated code
  (\<open>internal/api/federation/v1alpha1/federated_service.pb.go\<close>) come the tags of the structs and the serialized descriptor of the
  proto file; the reader of descriptors shows that both describe the same fields. With the numbers of the
  tags the theory gives a codec for \<open>FederatedService\<close>, an instance of the arguments \<open>marshal\<close> and
  \<open>unmarshal\<close> of the program, and shows that it keeps messages (\<open>wire_roundtrip\<close>). Go writes the entries
  of a map in any order, the argument \<open>entries\<close>.
\<close>

section \<open>Struct tags\<close>

record proto_tag =
  pt_kind :: string
  pt_number :: nat
  pt_cardinality :: string
  pt_name :: string

definition FederatedService_tags :: "(string \<times> proto_tag) list" where
  "FederatedService_tags =
     [(''Hostname'', \<lparr>pt_kind = ''bytes'', pt_number = 1, pt_cardinality = ''opt'', pt_name = ''hostname''\<rparr>),
      (''Ports'', \<lparr>pt_kind = ''bytes'', pt_number = 2, pt_cardinality = ''rep'', pt_name = ''ports''\<rparr>),
      (''Labels'', \<lparr>pt_kind = ''bytes'', pt_number = 3, pt_cardinality = ''rep'', pt_name = ''labels''\<rparr>)]"

definition Labels_entry_tags :: "(string \<times> proto_tag) list" where
  "Labels_entry_tags =
     [(''key'', \<lparr>pt_kind = ''bytes'', pt_number = 1, pt_cardinality = ''opt'', pt_name = ''key''\<rparr>),
      (''value'', \<lparr>pt_kind = ''bytes'', pt_number = 2, pt_cardinality = ''opt'', pt_name = ''value''\<rparr>)]"

definition ServicePort_tags :: "(string \<times> proto_tag) list" where
  "ServicePort_tags =
     [(''Number'', \<lparr>pt_kind = ''varint'', pt_number = 1, pt_cardinality = ''opt'', pt_name = ''number''\<rparr>),
      (''Protocol'', \<lparr>pt_kind = ''bytes'', pt_number = 2, pt_cardinality = ''opt'', pt_name = ''protocol''\<rparr>),
      (''Name'', \<lparr>pt_kind = ''bytes'', pt_number = 3, pt_cardinality = ''opt'', pt_name = ''name''\<rparr>),
      (''TargetPort'', \<lparr>pt_kind = ''varint'', pt_number = 4, pt_cardinality = ''opt'', pt_name = ''targetPort''\<rparr>)]"

definition tag_number :: "(string \<times> proto_tag) list \<Rightarrow> string \<Rightarrow> nat" where
  "tag_number tags field = (case map_of tags field of Some t \<Rightarrow> pt_number t | None \<Rightarrow> 0)"

section \<open>Strings\<close>

definition string_bytes :: "string \<Rightarrow> bytes" where
  "string_bytes s = map (\<lambda>c. of_nat (of_char c)) s"

definition bytes_string :: "bytes \<Rightarrow> string" where
  "bytes_string bs = map (\<lambda>b. char_of (unat b)) bs"

lemma bytes_string_bytes [simp]: "bytes_string (string_bytes s) = s"
  by (simp add: bytes_string_def string_bytes_def comp_def unat_of_nat)

lemma length_string_bytes [simp]: "length (string_bytes s) = length s"
  by (simp add: string_bytes_def)

function valid_utf8 :: "string \<Rightarrow> bool" where
  "valid_utf8 [] = True"
| "valid_utf8 (c # s) =
     (if (of_char c :: nat) < 0x80 then valid_utf8 s
      else (case utf8_tail c s of Some n \<Rightarrow> valid_utf8 (drop n s) | None \<Rightarrow> False))"
  by pat_completeness auto
termination
  by (relation "measure length") auto

definition ascii :: "string \<Rightarrow> bool" where
  "ascii s \<longleftrightarrow> list_all (\<lambda>c. (of_char c :: nat) < 0x80) s"

lemma ascii_valid_utf8: "ascii s \<Longrightarrow> valid_utf8 s"
  by (induction s) (simp_all add: ascii_def)

section \<open>Descriptors\<close>

text \<open>Reading the fields of a message one after the other into a value.\<close>

fun read_fields :: "(field \<Rightarrow> 'm \<Rightarrow> 'm option) \<Rightarrow> field list \<Rightarrow> 'm \<Rightarrow> 'm option" where
  "read_fields step [] m = Some m"
| "read_fields step (f # fs) m = Option.bind (step f m) (read_fields step fs)"

lemma read_fields_append: "read_fields step (fs @ gs) m = Option.bind (read_fields step fs m) (read_fields step gs)"
  by (induction fs arbitrary: m) (simp_all split: bind_splits)

definition read_message :: "(field \<Rightarrow> 'm \<Rightarrow> 'm option) \<Rightarrow> 'm \<Rightarrow> bytes \<Rightarrow> 'm option" where
  "read_message step m bs = Option.bind (parse_fields bs) (\<lambda>fs. read_fields step fs m)"

record FieldDescriptor =
  fd_name :: string
  fd_number :: nat
  fd_label :: nat
  fd_type :: nat
  fd_type_name :: string

record MessageDescriptor =
  md_name :: string
  md_fields :: "FieldDescriptor list"
  md_map_entry :: bool

text \<open>The fields of \<open>descriptor.proto\<close> that matter here; others are skipped, like unknown fields.\<close>

fun field_descriptor_step :: "field \<Rightarrow> FieldDescriptor \<Rightarrow> FieldDescriptor option" where
  "field_descriptor_step (num, v) d = (case v of
       WBytes bs \<Rightarrow> Some (if num = 1 then d\<lparr>fd_name := bytes_string bs\<rparr> else if num = 6 then d\<lparr>fd_type_name := bytes_string bs\<rparr> else d)
     | WVarint n \<Rightarrow> Some (if num = 3 then d\<lparr>fd_number := n\<rparr> else if num = 4 then d\<lparr>fd_label := n\<rparr> else if num = 5 then d\<lparr>fd_type := n\<rparr> else d)
     | _ \<Rightarrow> Some d)"

definition no_field :: FieldDescriptor where
  "no_field = \<lparr>fd_name = [], fd_number = 0, fd_label = 0, fd_type = 0, fd_type_name = []\<rparr>"

definition message_options_step :: "field \<Rightarrow> bool \<Rightarrow> bool option" where
  "message_options_step f is_entry = Some (if f = (7, WVarint 1) then True else if f = (7, WVarint 0) then False else is_entry)"

text \<open>A message descriptor with the ones nested in it, up to a depth: first the message, then the nested ones.\<close>

fun message_descriptors :: "nat \<Rightarrow> string \<Rightarrow> bytes \<Rightarrow> MessageDescriptor list option" where
  "message_descriptors 0 scope bs = None"
| "message_descriptors (Suc depth) scope bs = Option.bind (parse_fields bs) (\<lambda>fs.
     let name = scope @ concat [bytes_string b. (num, WBytes b) \<leftarrow> fs, num = 1] in
     Option.bind (those [read_message field_descriptor_step no_field b. (num, WBytes b) \<leftarrow> fs, num = 2]) (\<lambda>fields.
     Option.bind (those [message_descriptors depth (name @ ''.'') b. (num, WBytes b) \<leftarrow> fs, num = 3]) (\<lambda>nested.
     Option.bind (those [read_message message_options_step False b. (num, WBytes b) \<leftarrow> fs, num = 7]) (\<lambda>entry.
     Some (\<lparr>md_name = name, md_fields = fields, md_map_entry = True \<in> set entry\<rparr> # concat nested)))))"

definition file_descriptors :: "nat \<Rightarrow> bytes \<Rightarrow> MessageDescriptor list option" where
  "file_descriptors depth bs = Option.bind (parse_fields bs) (\<lambda>fs.
     map_option concat (those [message_descriptors depth (concat [bytes_string b @ ''.''. (num, WBytes b) \<leftarrow> fs, num = 2]) b.
       (num, WBytes b) \<leftarrow> fs, num = 4]))"

definition rawDesc :: bytes where
  "rawDesc = [
     0x0a, 0x20, 0x76, 0x31, 0x61, 0x6c, 0x70, 0x68, 0x61, 0x31, 0x2f, 0x66, 0x65, 0x64, 0x65, 0x72,
     0x61, 0x74, 0x65, 0x64, 0x5f, 0x73, 0x65, 0x72, 0x76, 0x69, 0x63, 0x65, 0x2e, 0x70, 0x72, 0x6f,
     0x74, 0x6f, 0x12, 0x08, 0x76, 0x31, 0x61, 0x6c, 0x70, 0x68, 0x61, 0x31, 0x22, 0xd6, 0x01, 0x0a,
     0x10, 0x46, 0x65, 0x64, 0x65, 0x72, 0x61, 0x74, 0x65, 0x64, 0x53, 0x65, 0x72, 0x76, 0x69, 0x63,
     0x65, 0x12, 0x1a, 0x0a, 0x08, 0x68, 0x6f, 0x73, 0x74, 0x6e, 0x61, 0x6d, 0x65, 0x18, 0x01, 0x20,
     0x01, 0x28, 0x09, 0x52, 0x08, 0x68, 0x6f, 0x73, 0x74, 0x6e, 0x61, 0x6d, 0x65, 0x12, 0x2b, 0x0a,
     0x05, 0x70, 0x6f, 0x72, 0x74, 0x73, 0x18, 0x02, 0x20, 0x03, 0x28, 0x0b, 0x32, 0x15, 0x2e, 0x76,
     0x31, 0x61, 0x6c, 0x70, 0x68, 0x61, 0x31, 0x2e, 0x53, 0x65, 0x72, 0x76, 0x69, 0x63, 0x65, 0x50,
     0x6f, 0x72, 0x74, 0x52, 0x05, 0x70, 0x6f, 0x72, 0x74, 0x73, 0x12, 0x3e, 0x0a, 0x06, 0x6c, 0x61,
     0x62, 0x65, 0x6c, 0x73, 0x18, 0x03, 0x20, 0x03, 0x28, 0x0b, 0x32, 0x26, 0x2e, 0x76, 0x31, 0x61,
     0x6c, 0x70, 0x68, 0x61, 0x31, 0x2e, 0x46, 0x65, 0x64, 0x65, 0x72, 0x61, 0x74, 0x65, 0x64, 0x53,
     0x65, 0x72, 0x76, 0x69, 0x63, 0x65, 0x2e, 0x4c, 0x61, 0x62, 0x65, 0x6c, 0x73, 0x45, 0x6e, 0x74,
     0x72, 0x79, 0x52, 0x06, 0x6c, 0x61, 0x62, 0x65, 0x6c, 0x73, 0x1a, 0x39, 0x0a, 0x0b, 0x4c, 0x61,
     0x62, 0x65, 0x6c, 0x73, 0x45, 0x6e, 0x74, 0x72, 0x79, 0x12, 0x10, 0x0a, 0x03, 0x6b, 0x65, 0x79,
     0x18, 0x01, 0x20, 0x01, 0x28, 0x09, 0x52, 0x03, 0x6b, 0x65, 0x79, 0x12, 0x14, 0x0a, 0x05, 0x76,
     0x61, 0x6c, 0x75, 0x65, 0x18, 0x02, 0x20, 0x01, 0x28, 0x09, 0x52, 0x05, 0x76, 0x61, 0x6c, 0x75,
     0x65, 0x3a, 0x02, 0x38, 0x01, 0x22, 0x75, 0x0a, 0x0b, 0x53, 0x65, 0x72, 0x76, 0x69, 0x63, 0x65,
     0x50, 0x6f, 0x72, 0x74, 0x12, 0x16, 0x0a, 0x06, 0x6e, 0x75, 0x6d, 0x62, 0x65, 0x72, 0x18, 0x01,
     0x20, 0x01, 0x28, 0x0d, 0x52, 0x06, 0x6e, 0x75, 0x6d, 0x62, 0x65, 0x72, 0x12, 0x1a, 0x0a, 0x08,
     0x70, 0x72, 0x6f, 0x74, 0x6f, 0x63, 0x6f, 0x6c, 0x18, 0x02, 0x20, 0x01, 0x28, 0x09, 0x52, 0x08,
     0x70, 0x72, 0x6f, 0x74, 0x6f, 0x63, 0x6f, 0x6c, 0x12, 0x12, 0x0a, 0x04, 0x6e, 0x61, 0x6d, 0x65,
     0x18, 0x03, 0x20, 0x01, 0x28, 0x09, 0x52, 0x04, 0x6e, 0x61, 0x6d, 0x65, 0x12, 0x1e, 0x0a, 0x0a,
     0x74, 0x61, 0x72, 0x67, 0x65, 0x74, 0x50, 0x6f, 0x72, 0x74, 0x18, 0x04, 0x20, 0x01, 0x28, 0x0d,
     0x52, 0x0a, 0x74, 0x61, 0x72, 0x67, 0x65, 0x74, 0x50, 0x6f, 0x72, 0x74, 0x42, 0x15, 0x5a, 0x13,
     0x66, 0x65, 0x64, 0x65, 0x72, 0x61, 0x74, 0x69, 0x6f, 0x6e, 0x2f, 0x76, 0x31, 0x61, 0x6c, 0x70,
     0x68, 0x61, 0x31, 0x62, 0x06, 0x70, 0x72, 0x6f, 0x74, 0x6f, 0x33]"

text \<open>What the tag of a struct field says about the descriptor of the field.\<close>

definition tag_describes :: "proto_tag \<Rightarrow> FieldDescriptor \<Rightarrow> bool" where
  "tag_describes t d \<longleftrightarrow> pt_name t = fd_name d \<and> pt_number t = fd_number d
     \<and> fd_label d = (if pt_cardinality t = ''rep'' then 3 else 1)
     \<and> (if pt_kind t = ''varint'' then fd_type d = 13 else fd_type d = 9 \<or> fd_type d = 11)"


definition field_descriptor :: "string \<Rightarrow> nat \<Rightarrow> nat \<Rightarrow> nat \<Rightarrow> string \<Rightarrow> FieldDescriptor" where
  "field_descriptor name num label type type_name =
     \<lparr>fd_name = name, fd_number = num, fd_label = label, fd_type = type, fd_type_name = type_name\<rparr>"

text \<open>The writer of descriptors, for files whose fields carry their own name as JSON name.\<close>

definition field_descriptor_bytes :: "FieldDescriptor \<Rightarrow> bytes" where
  "field_descriptor_bytes d = fields_bytes ([(1, WBytes (string_bytes (fd_name d))), (3, WVarint (fd_number d)),
      (4, WVarint (fd_label d)), (5, WVarint (fd_type d))]
     @ (if fd_type_name d = [] then [] else [(6, WBytes (string_bytes (fd_type_name d)))]) @ [(10, WBytes (string_bytes (fd_name d)))])"

definition message_fields :: "string \<Rightarrow> FieldDescriptor list \<Rightarrow> bytes list \<Rightarrow> bool \<Rightarrow> field list" where
  "message_fields name ds nested entry = (1, WBytes (string_bytes name)) # map (\<lambda>d. (2, WBytes (field_descriptor_bytes d))) ds
     @ map (\<lambda>b. (3, WBytes b)) nested @ (if entry then [(7, WBytes (fields_bytes [(7, WVarint 1)]))] else [])"

definition FederatedService_fields :: "FieldDescriptor list" where
  "FederatedService_fields = [field_descriptor ''hostname'' 1 1 9 [], field_descriptor ''ports'' 2 3 11 ''.v1alpha1.ServicePort'',
     field_descriptor ''labels'' 3 3 11 ''.v1alpha1.FederatedService.LabelsEntry'']"

definition LabelsEntry_fields :: "FieldDescriptor list" where
  "LabelsEntry_fields = [field_descriptor ''key'' 1 1 9 [], field_descriptor ''value'' 2 1 9 []]"

definition ServicePort_fields :: "FieldDescriptor list" where
  "ServicePort_fields = [field_descriptor ''number'' 1 1 13 [], field_descriptor ''protocol'' 2 1 9 [], field_descriptor ''name'' 3 1 9 [],
     field_descriptor ''targetPort'' 4 1 13 []]"

lemma rawDesc_eq:
  "rawDesc = fields_bytes [(1, WBytes (string_bytes ''v1alpha1/federated_service.proto'')), (2, WBytes (string_bytes ''v1alpha1'')),
     (4, WBytes (fields_bytes (message_fields ''FederatedService'' FederatedService_fields
       [fields_bytes (message_fields ''LabelsEntry'' LabelsEntry_fields [] True)] False))),
     (4, WBytes (fields_bytes (message_fields ''ServicePort'' ServicePort_fields [] False))),
     (8, WBytes (fields_bytes [(11, WBytes (string_bytes ''federation/v1alpha1''))])), (12, WBytes (string_bytes ''proto3''))]"
  by (simp add: rawDesc_def message_fields_def FederatedService_fields_def LabelsEntry_fields_def ServicePort_fields_def
      field_descriptor_def field_descriptor_bytes_def field_tag_def varint.simps string_bytes_def)


lemma length_field_descriptor_bytes:
  assumes "fd_number d < 128" and "fd_label d < 128" and "fd_type d < 128" and "length (fd_name d) < 100" and "length (fd_type_name d) < 100"
  shows "length (field_descriptor_bytes d) < 400"
  using assms by (simp add: field_descriptor_bytes_def field_tag_def varint.simps)

lemma read_field_descriptor:
  assumes "fd_number d < 128" and "fd_label d < 128" and "fd_type d < 128" and "length (fd_name d) < 100" and "length (fd_type_name d) < 100"
  shows "read_message field_descriptor_step no_field (field_descriptor_bytes d) = Some d"
  unfolding read_message_def field_descriptor_bytes_def
  by (subst parse_fields_bytes) (use assms in \<open>simp_all add: valid_number_def no_field_def\<close>)

definition small_descriptor :: "FieldDescriptor \<Rightarrow> bool" where
  "small_descriptor d \<longleftrightarrow> fd_number d < 128 \<and> fd_label d < 128 \<and> fd_type d < 128 \<and> length (fd_name d) < 100 \<and> length (fd_type_name d) < 100"

lemma concat_map_Nil: "concat (map (\<lambda>x. []) xs) = []"
  by (induction xs) simp_all

lemma read_descriptors:
  assumes "list_all small_descriptor ds" and "length name < 2 ^ 64" and "list_all (\<lambda>b. length b < 2 ^ 64) nested"
    and "those (map (message_descriptors depth (scope @ name @ ''.'')) nested) = Some mss"
  shows "message_descriptors (Suc depth) scope (fields_bytes (message_fields name ds nested entry)) =
    Some (\<lparr>md_name = scope @ name, md_fields = ds, md_map_entry = entry\<rparr> # concat mss)"
proof -
  have "length (field_descriptor_bytes d) < 2 ^ 64" if "d \<in> set ds" for d
    using length_field_descriptor_bytes [of d] that assms(1) by (auto simp: small_descriptor_def list_all_iff)
  then have "list_all valid_field (message_fields name ds nested entry)"
    using assms(2,3) by (auto simp: message_fields_def list_all_iff valid_number_def field_tag_def varint.simps)
  note parse = parse_fields_bytes [OF this]
  have fields: "those (map (\<lambda>d. read_message field_descriptor_step no_field (field_descriptor_bytes d)) ds) = Some ds"
    using assms(1) by (induction ds) (simp_all add: small_descriptor_def read_field_descriptor)
  have "read_message message_options_step False (fields_bytes [(7, WVarint 1)]) = Some True"
    unfolding read_message_def by (subst parse_fields_bytes) (simp_all add: valid_number_def message_options_step_def)
  with parse fields assms(4) show ?thesis
    by (simp add: message_fields_def Let_def comp_def concat_map_Nil del: fields_bytes_simps)
qed


lemma small_fields:
  "list_all small_descriptor FederatedService_fields" "list_all small_descriptor LabelsEntry_fields"
  "list_all small_descriptor ServicePort_fields"
  by (simp_all add: small_descriptor_def FederatedService_fields_def LabelsEntry_fields_def ServicePort_fields_def field_descriptor_def)

text \<open>The Go types of the messages, without one for map entries, and which of them the fields refer to.\<close>

definition goTypes :: "string option list" where
  "goTypes = [Some ''FederatedService'', Some ''ServicePort'', None]"

definition depIdxs :: "32 word list" where
  "depIdxs = [1, 2, 2, 2, 2, 2, 0]"

text \<open>
  The variables of the generated file and its initialization, which hands the tables to the library (\<open>build\<close>) once and then
  releases them. \<open>msgTypes\<close> is a table of three entries for the use of the library.
\<close>

record TypeBuilder =
  tb_RawDescriptor :: bytes
  tb_NumEnums :: nat
  tb_NumMessages :: nat
  tb_NumExtensions :: nat
  tb_NumServices :: nat
  tb_GoTypes :: "string option list"
  tb_DependencyIndexes :: "32 word list"
  tb_MessageInfos :: nat

record 'f proto_vars =
  pv_File :: "'f option"
  pv_rawDesc :: bytes
  pv_goTypes :: "string option list"
  pv_depIdxs :: "32 word list"

definition declared_vars :: "'f proto_vars" where
  "declared_vars = \<lparr>pv_File = None, pv_rawDesc = rawDesc, pv_goTypes = goTypes, pv_depIdxs = depIdxs\<rparr>"

definition type_builder :: "'f proto_vars \<Rightarrow> TypeBuilder" where
  "type_builder v = \<lparr>tb_RawDescriptor = pv_rawDesc v, tb_NumEnums = 0, tb_NumMessages = 3, tb_NumExtensions = 0, tb_NumServices = 0,
     tb_GoTypes = pv_goTypes v, tb_DependencyIndexes = pv_depIdxs v, tb_MessageInfos = 3\<rparr>"

definition file_proto_init :: "(TypeBuilder \<Rightarrow> 'f) \<Rightarrow> 'f proto_vars \<Rightarrow> 'f proto_vars" where
  "file_proto_init build v =
     (if pv_File v \<noteq> None then v
      else v\<lparr>pv_File := Some (build (type_builder v)), pv_rawDesc := [], pv_goTypes := [], pv_depIdxs := []\<rparr>)"

text \<open>The type that a descriptor gives to a message field: that of the message it names, if it is not a map entry.\<close>

definition descriptor_type :: "MessageDescriptor list \<Rightarrow> FieldDescriptor \<Rightarrow> string option" where
  "descriptor_type ms d = Option.bind (find (\<lambda>m. CHR ''.'' # md_name m = fd_type_name d) ms)
     (\<lambda>m. if md_map_entry m then None else Some (drop (length ''v1alpha1.'') (md_name m)))"

lemma descriptors_eq:
  "file_descriptors 2 rawDesc = Some
     [\<lparr>md_name = ''v1alpha1.FederatedService'', md_fields = FederatedService_fields, md_map_entry = False\<rparr>,
      \<lparr>md_name = ''v1alpha1.FederatedService.LabelsEntry'', md_fields = LabelsEntry_fields, md_map_entry = True\<rparr>,
      \<lparr>md_name = ''v1alpha1.ServicePort'', md_fields = ServicePort_fields, md_map_entry = False\<rparr>]"
proof -
  let ?entry = "fields_bytes (message_fields ''LabelsEntry'' LabelsEntry_fields [] True)"
  let ?service = "fields_bytes (message_fields ''FederatedService'' FederatedService_fields [?entry] False)"
  let ?port = "fields_bytes (message_fields ''ServicePort'' ServicePort_fields [] False)"
  have sizes: "length ?entry = 57" "length ?service = 214" "length ?port = 117"
    by (simp_all add: message_fields_def FederatedService_fields_def LabelsEntry_fields_def ServicePort_fields_def field_descriptor_def
        field_descriptor_bytes_def field_tag_def varint.simps)
  have entry: "message_descriptors 1 ''v1alpha1.FederatedService.'' ?entry =
      Some [\<lparr>md_name = ''v1alpha1.FederatedService.LabelsEntry'', md_fields = LabelsEntry_fields, md_map_entry = True\<rparr>]"
    using read_descriptors [OF small_fields(2), of "''LabelsEntry''" "[]" 0 "''v1alpha1.FederatedService.''" "[]" True] by simp
  have service: "message_descriptors 2 ''v1alpha1.'' ?service =
      Some [\<lparr>md_name = ''v1alpha1.FederatedService'', md_fields = FederatedService_fields, md_map_entry = False\<rparr>,
        \<lparr>md_name = ''v1alpha1.FederatedService.LabelsEntry'', md_fields = LabelsEntry_fields, md_map_entry = True\<rparr>]"
    using read_descriptors [OF small_fields(1), of "''FederatedService''" "[?entry]" 1 "''v1alpha1.''"
        "[[\<lparr>md_name = ''v1alpha1.FederatedService.LabelsEntry'', md_fields = LabelsEntry_fields, md_map_entry = True\<rparr>]]" False] entry sizes(1)
    by (simp del: One_nat_def fields_bytes_simps message_descriptors.simps)
  have port: "message_descriptors 2 ''v1alpha1.'' ?port =
      Some [\<lparr>md_name = ''v1alpha1.ServicePort'', md_fields = ServicePort_fields, md_map_entry = False\<rparr>]"
    using read_descriptors [OF small_fields(3), of "''ServicePort''" "[]" 1 "''v1alpha1.''" "[]" False]
    by (simp del: One_nat_def fields_bytes_simps message_descriptors.simps)
  have "file_descriptors 2 rawDesc = map_option concat (those [message_descriptors 2 ''v1alpha1.'' ?service, message_descriptors 2 ''v1alpha1.'' ?port])"
    unfolding file_descriptors_def rawDesc_eq
    by (subst parse_fields_bytes) (use sizes in \<open>simp_all add: valid_number_def field_tag_def varint.simps del: message_descriptors.simps\<close>)
  then show ?thesis by (simp add: service port del: message_descriptors.simps)
qed

section \<open>The codec\<close>

definition string_field :: "nat \<Rightarrow> string \<Rightarrow> field list" where
  "string_field num s = (if s = [] then [] else [(num, WBytes (string_bytes s))])"

definition uint32_field :: "nat \<Rightarrow> 32 word \<Rightarrow> field list" where
  "uint32_field num n = (if n = 0 then [] else [(num, WVarint (unat n))])"

abbreviation port_num :: "string \<Rightarrow> nat" where
  "port_num \<equiv> tag_number ServicePort_tags"

abbreviation service_num :: "string \<Rightarrow> nat" where
  "service_num \<equiv> tag_number FederatedService_tags"

abbreviation entry_num :: "string \<Rightarrow> nat" where
  "entry_num \<equiv> tag_number Labels_entry_tags"

lemma tag_numbers [simp]:
  "port_num ''Number'' = 1" "port_num ''Protocol'' = 2" "port_num ''Name'' = 3" "port_num ''TargetPort'' = 4"
  "service_num ''Hostname'' = 1" "service_num ''Ports'' = 2" "service_num ''Labels'' = 3"
  "entry_num ''key'' = 1" "entry_num ''value'' = 2"
  by (simp_all add: tag_number_def ServicePort_tags_def FederatedService_tags_def Labels_entry_tags_def)

definition port_fields :: "FedPort \<Rightarrow> field list" where
  "port_fields p = uint32_field (port_num ''Number'') (fp_Number p) @ string_field (port_num ''Protocol'') (fp_Protocol p)
     @ string_field (port_num ''Name'') (fp_Name p) @ uint32_field (port_num ''TargetPort'') (fp_TargetPort p)"

definition entry_fields :: "string \<times> string \<Rightarrow> field list" where
  "entry_fields e = [(entry_num ''key'', WBytes (string_bytes (fst e))), (entry_num ''value'', WBytes (string_bytes (snd e)))]"

definition service_fields :: "(labels \<Rightarrow> (string \<times> string) list) \<Rightarrow> FederatedService \<Rightarrow> field list" where
  "service_fields entries svc = string_field (service_num ''Hostname'') (fs_Hostname svc)
     @ map (\<lambda>p. (service_num ''Ports'', WBytes (fields_bytes (port_fields p)))) (fs_Ports svc)
     @ map (\<lambda>e. (service_num ''Labels'', WBytes (fields_bytes (entry_fields e)))) (entries (fs_Labels svc))"

definition service_strings :: "(labels \<Rightarrow> (string \<times> string) list) \<Rightarrow> FederatedService \<Rightarrow> string list" where
  "service_strings entries svc = fs_Hostname svc # concat (map (\<lambda>p. [fp_Protocol p, fp_Name p]) (fs_Ports svc))
     @ concat (map (\<lambda>e. [fst e, snd e]) (entries (fs_Labels svc)))"

definition proto_marshal :: "(labels \<Rightarrow> (string \<times> string) list) \<Rightarrow> marshaller" where
  "proto_marshal entries svc =
     (if list_all valid_utf8 (service_strings entries svc) then (fields_bytes (service_fields entries svc), None)
      else ([], Some (Other ''string field contains invalid UTF-8'')))"

text \<open>A field of another type than the expected one is unknown and skipped; later values replace earlier ones.\<close>

definition read_string :: "bytes \<Rightarrow> string option" where
  "read_string bs = (if valid_utf8 (bytes_string bs) then Some (bytes_string bs) else None)"

definition port_step :: "field \<Rightarrow> FedPort \<Rightarrow> FedPort option" where
  "port_step f p = (case f of
       (num, WVarint n) \<Rightarrow> Some (if num = port_num ''Number'' then p\<lparr>fp_Number := of_nat n\<rparr>
          else if num = port_num ''TargetPort'' then p\<lparr>fp_TargetPort := of_nat n\<rparr> else p)
     | (num, WBytes bs) \<Rightarrow> (if num = port_num ''Protocol'' then map_option (\<lambda>s. p\<lparr>fp_Protocol := s\<rparr>) (read_string bs)
          else if num = port_num ''Name'' then map_option (\<lambda>s. p\<lparr>fp_Name := s\<rparr>) (read_string bs) else Some p)
     | _ \<Rightarrow> Some p)"

definition no_port :: FedPort where
  "no_port = \<lparr>fp_Number = 0, fp_Protocol = [], fp_Name = [], fp_TargetPort = 0\<rparr>"

definition entry_step :: "field \<Rightarrow> string \<times> string \<Rightarrow> (string \<times> string) option" where
  "entry_step f e = (case f of
       (num, WBytes bs) \<Rightarrow> (if num = entry_num ''key'' then map_option (\<lambda>s. (s, snd e)) (read_string bs)
          else if num = entry_num ''value'' then map_option (\<lambda>s. (fst e, s)) (read_string bs) else Some e)
     | _ \<Rightarrow> Some e)"

definition service_step :: "field \<Rightarrow> FederatedService \<Rightarrow> FederatedService option" where
  "service_step f svc = (case f of
       (num, WBytes bs) \<Rightarrow>
         (if num = service_num ''Hostname'' then map_option (\<lambda>s. svc\<lparr>fs_Hostname := s\<rparr>) (read_string bs)
          else if num = service_num ''Ports'' then
            map_option (\<lambda>p. svc\<lparr>fs_Ports := fs_Ports svc @ [p]\<rparr>) (read_message port_step no_port bs)
          else if num = service_num ''Labels'' then
            map_option (\<lambda>(k, v). svc\<lparr>fs_Labels := (fs_Labels svc)(k \<mapsto> v)\<rparr>) (read_message entry_step ([], []) bs)
          else Some svc)
     | _ \<Rightarrow> Some svc)"

definition no_service :: FederatedService where
  "no_service = \<lparr>fs_Hostname = [], fs_Ports = [], fs_Labels = Map.empty\<rparr>"

definition proto_unmarshal :: unmarshaller where
  "proto_unmarshal bs = (case read_message service_step no_service bs of
       Some svc \<Rightarrow> (svc, None)
     | None \<Rightarrow> (no_service, Some (Other ''cannot parse invalid wire-format data'')))"

section \<open>What was written is read back\<close>

lemma read_string_bytes [simp]: "read_string (string_bytes s) = (if valid_utf8 s then Some s else None)"
  by (simp add: read_string_def)

lemma WBytes_length: "(num, WBytes bs) \<in> set fs \<Longrightarrow> length bs \<le> length (fields_bytes fs)"
proof (induction fs)
  case (Cons f fs)
  then show ?case by (cases "f = (num, WBytes bs)") auto
qed simp

lemma valid_number_small [simp]: "valid_number 1" "valid_number (Suc 0)" "valid_number 2" "valid_number 3" "valid_number 4"
  by (simp_all add: valid_number_def)

lemma uint32_less_64: "unat (n :: 32 word) < 2 ^ 64"
  using unsigned_less [of n, where 'a = nat] by simp

lemma port_roundtrip:
  assumes "length (fields_bytes (port_fields p)) < 2 ^ 64" and "valid_utf8 (fp_Protocol p)" and "valid_utf8 (fp_Name p)"
  shows "read_message port_step no_port (fields_bytes (port_fields p)) = Some p"
proof -
  have "length (fp_Protocol p) < 2 ^ 64" "length (fp_Name p) < 2 ^ 64"
    using assms(1) by (auto simp: port_fields_def string_field_def split: if_splits)
  then have "list_all valid_field (port_fields p)"
    using uint32_less_64 [of "fp_Number p"] uint32_less_64 [of "fp_TargetPort p"]
    by (simp add: port_fields_def string_field_def uint32_field_def)
  with assms(2,3) show ?thesis
    by (simp add: read_message_def parse_fields_bytes)
      (simp add: port_fields_def string_field_def uint32_field_def read_fields_append port_step_def no_port_def)
qed

lemma entry_roundtrip:
  assumes "length (fields_bytes (entry_fields e)) < 2 ^ 64" and "valid_utf8 (fst e)" and "valid_utf8 (snd e)"
  shows "read_message entry_step ([], []) (fields_bytes (entry_fields e)) = Some e"
proof -
  have "list_all valid_field (entry_fields e)" using assms(1) by (simp add: entry_fields_def)
  with assms(2,3) show ?thesis
    by (simp add: read_message_def parse_fields_bytes) (simp add: entry_fields_def entry_step_def)
qed

lemma read_ports:
  assumes "\<forall>p \<in> set ps. length (fields_bytes (port_fields p)) < 2 ^ 64 \<and> valid_utf8 (fp_Protocol p) \<and> valid_utf8 (fp_Name p)"
  shows "read_fields service_step (map (\<lambda>p. (2, WBytes (fields_bytes (port_fields p)))) ps) svc = Some (svc\<lparr>fs_Ports := fs_Ports svc @ ps\<rparr>)"
  using assms by (induction ps arbitrary: svc) (simp_all add: service_step_def port_roundtrip)

lemma read_entries:
  assumes "\<forall>e \<in> set es. length (fields_bytes (entry_fields e)) < 2 ^ 64 \<and> valid_utf8 (fst e) \<and> valid_utf8 (snd e)"
  shows "read_fields service_step (map (\<lambda>e. (3, WBytes (fields_bytes (entry_fields e)))) es) svc =
    Some (svc\<lparr>fs_Labels := fs_Labels svc ++ map_of (rev es)\<rparr>)"
  using assms
proof (induction es arbitrary: svc)
  case (Cons e es)
  have "fs_Labels svc ++ map_of (rev es @ [e]) = (fs_Labels svc)(fst e \<mapsto> snd e) ++ map_of (rev es)"
    by (cases e) (simp add: map_add_upd_left)
  with Cons show ?case by (simp add: service_step_def entry_roundtrip case_prod_unfold)
qed simp

text \<open>What an order of map entries is, and one such order.\<close>

definition lists_entries :: "(labels \<Rightarrow> (string \<times> string) list) \<Rightarrow> bool" where
  "lists_entries entries \<longleftrightarrow> (\<forall>m. finite (dom m) \<longrightarrow> distinct (map fst (entries m)) \<and> map_of (entries m) = m)"

definition sorted_entries :: "labels \<Rightarrow> (string \<times> string) list" where
  "sorted_entries m = map (\<lambda>k. (k, the (m k))) (sorted_list_of_set (dom m))"

lemma lists_sorted_entries: "lists_entries sorted_entries"
proof -
  have "map_of (map (\<lambda>k. (k, the (m k))) ks) = m |` set ks" if "set ks \<subseteq> dom m" for m :: labels and ks
    using that by (induction ks) (auto simp: restrict_map_insert fun_upd_def)
  moreover have "m |` dom m = m" for m :: labels by (rule ext) (simp add: restrict_map_def domIff)
  ultimately show ?thesis by (simp add: lists_entries_def sorted_entries_def comp_def)
qed

text \<open>A message that can be sent: finitely many labels, valid strings, a size that fits in 64 bits.\<close>

definition sendable :: "(labels \<Rightarrow> (string \<times> string) list) \<Rightarrow> FederatedService \<Rightarrow> bool" where
  "sendable entries svc \<longleftrightarrow> finite (dom (fs_Labels svc)) \<and> list_all valid_utf8 (service_strings entries svc)
     \<and> length (fields_bytes (service_fields entries svc)) < 2 ^ 64"

lemma proto_wire_roundtrip:
  assumes "lists_entries entries"
  shows "wire_roundtrip {svc. sendable entries svc} (proto_marshal entries) proto_unmarshal"
  unfolding wire_roundtrip_def
proof
  fix svc assume "svc \<in> {svc. sendable entries svc}"
  then have svc: "finite (dom (fs_Labels svc))" "list_all valid_utf8 (service_strings entries svc)"
    "length (fields_bytes (service_fields entries svc)) < 2 ^ 64" by (simp_all add: sendable_def)
  let ?es = "entries (fs_Labels svc)"
  have es: "map_of (rev ?es) = fs_Labels svc"
    using assms svc(1) map_of_inject_set [of "rev ?es" ?es] by (simp add: lists_entries_def rev_map [symmetric])
  have small: "length bs < 2 ^ 64" if "(num, WBytes bs) \<in> set (service_fields entries svc)" for num bs
    using WBytes_length [OF that] svc(3) by linarith
  have ports: "\<forall>p \<in> set (fs_Ports svc). length (fields_bytes (port_fields p)) < 2 ^ 64 \<and> valid_utf8 (fp_Protocol p) \<and> valid_utf8 (fp_Name p)"
    using small svc(2) by (auto simp: service_fields_def service_strings_def list_all_iff)
  have entries: "\<forall>e \<in> set ?es. length (fields_bytes (entry_fields e)) < 2 ^ 64 \<and> valid_utf8 (fst e) \<and> valid_utf8 (snd e)"
    using small svc(2) by (auto simp: service_fields_def service_strings_def list_all_iff)
  have host: "valid_utf8 (fs_Hostname svc)" "fs_Hostname svc \<noteq> [] \<longrightarrow> length (fs_Hostname svc) < 2 ^ 64"
    using svc(2) small [of 1 "string_bytes (fs_Hostname svc)"] by (simp_all add: service_strings_def service_fields_def string_field_def)
  have "list_all valid_field (service_fields entries svc)"
    using host ports entries by (auto simp: service_fields_def string_field_def list_all_iff)
  note parse = parse_fields_bytes [OF this]
  have "read_fields service_step (string_field 1 (fs_Hostname svc)) no_service = Some (no_service\<lparr>fs_Hostname := fs_Hostname svc\<rparr>)"
    using host(1) by (simp add: string_field_def service_step_def no_service_def)
  then have "read_fields service_step (service_fields entries svc) no_service = Some svc"
    using read_ports [OF ports] read_entries [OF entries] es by (simp add: service_fields_def read_fields_append no_service_def)
  with parse svc(2) show "\<exists>bs. proto_marshal entries svc = (bs, None) \<and> proto_unmarshal bs = (svc, None)"
    by (simp add: proto_marshal_def proto_unmarshal_def read_message_def)
qed

section \<open>Properties\<close>


end
