(* ===== verification/Two_Meshes.thy ===== *)
theory Two_Meshes
  imports Process Proto_Messages
begin

text \<open>
  Two meshes that run: the exporting side of one (its Service cache, the worker of its informer, the discovery server with
  its two senders) and the whole process of the other, joined by the stream of the discovery client. The
  push loop of the server and the goroutine that answers the first request of a client read the cache and send in
  separate steps, so they may overtake each other; the stream keeps the order of the sends. A stream may
  break at any time; what was on it is lost and the client connects again. The push loop skips a request only
  if nobody is subscribed; other subscribers, or those that disconnected and were never removed, make it generate
  a response while this client is away.
\<close>

section \<open>State and steps\<close>

datatype push_phase = PushWaiting | PushTaken PushRequest | PushGenerated "Any list"

text \<open>The first request of the client: not connected, received, answer generated, answered.\<close>

datatype reply_phase = NotConnected | Requested | ReplyGenerated "Any list" | Answered

record exporter =
  ex_cache :: "Service list"
  ex_events :: "service_change list"
  ex_sending :: sends
  ex_push :: push_phase
  ex_reply :: reply_phase
  ex_stream :: "Any list list"

record 's meshes =
  ms_exporter :: exporter
  ms_importer :: "'s proc"

text \<open>
  The constants of a run. \<open>lk_lister\<close> is the lister over a cache; \<open>lk_name\<close> the name under which the importing mesh knows the
  exporting one; \<open>lk_services\<close> are the Services that may exist; \<open>lk_calm\<close> says that no Service changes while a first request is being answered.
\<close>

record 's link_env =
  lk_matches :: label_match
  lk_cfg :: Federation
  lk_marshal :: marshaller
  lk_lister :: "Service list \<Rightarrow> ServiceLister"
  lk_name :: string
  lk_services :: "Service set"
  lk_calm :: bool
  lk_importer :: "'s proc_env"

definition svc_key :: "Service \<Rightarrow> string \<times> string" where
  "svc_key s = (svc_Namespace s, svc_Name s)"

fun changes_cache :: "service_change \<Rightarrow> Service list \<Rightarrow> Service list \<Rightarrow> bool" where
  "changes_cache (Created s) cache cache' \<longleftrightarrow> svc_key s \<notin> svc_key ` set cache \<and> set cache' = insert s (set cache)"
| "changes_cache (Deleted s) cache cache' \<longleftrightarrow> s \<in> set cache \<and> set cache' = set cache - {s}"
| "changes_cache (Updated s t) cache cache' \<longleftrightarrow> s \<in> set cache \<and> svc_key t = svc_key s \<and> set cache' = insert t (set cache - {s})"

text \<open>An update that does not change whether the Service is exported must not change what is exported of it.\<close>

fun tells_peers :: "label_match \<Rightarrow> Federation \<Rightarrow> service_change \<Rightarrow> bool" where
  "tells_peers matches cfg (Updated s t) \<longleftrightarrow> (MatchExportRules matches s (export_selectors cfg) \<and> MatchExportRules matches t (export_selectors cfg)
     \<longrightarrow> exported_service s = exported_service t)"
| "tells_peers matches cfg ch \<longleftrightarrow> True"

definition lk_server :: "'s link_env \<Rightarrow> ServiceLister adsServer" where
  "lk_server env = startFederationServer (lk_marshal env) (lk_cfg env)"

definition lk_controller :: "'s link_env \<Rightarrow> fifo Controller" where
  "lk_controller env = \<lparr>c_queue = fifo_ops, c_resourceType = ''Service'',
     c_eventHandlers = [NewServiceExportEventHandler (lk_matches env) (lk_cfg env)]\<rparr>"

inductive exporter_step :: "'s link_env \<Rightarrow> exporter \<Rightarrow> exporter \<Rightarrow> bool" for env where
  service_changes: "changes_cache ch (ex_cache e) cache' \<Longrightarrow> tells_peers (lk_matches env) (lk_cfg env) ch \<Longrightarrow>
    set cache' \<subseteq> lk_services env \<Longrightarrow> lk_calm env \<longrightarrow> ex_reply e = NotConnected \<or> ex_reply e = Answered \<Longrightarrow>
    exporter_step env e (e\<lparr>ex_cache := cache', ex_events := ex_events e @ [ch]\<rparr>)"
| worker_takes: "ex_sending e = [] \<Longrightarrow> ex_events e = ch # rest \<Longrightarrow>
    processItem (lk_controller env) (event_of ''Service'' key ch) = (sent, Val ()) \<Longrightarrow>
    exporter_step env e (e\<lparr>ex_events := rest, ex_sending := sent\<rparr>)"
| manager_takes: "ex_sending e = (McpPushRequests, q) # rest \<Longrightarrow> exporter_step env e (e\<lparr>ex_sending := rest\<rparr>)"
| server_takes: "ex_sending e = (FdsPushRequests, q) # rest \<Longrightarrow> ex_push e = PushWaiting \<Longrightarrow>
    exporter_step env e (e\<lparr>ex_sending := rest, ex_push := PushTaken q\<rparr>)"
| push_skips: "ex_push e = PushTaken q \<Longrightarrow> ex_reply e = NotConnected \<Longrightarrow> exporter_step env e (e\<lparr>ex_push := PushWaiting\<rparr>)"
| push_generates: "ex_push e = PushTaken q \<Longrightarrow>
    generateResources (lk_lister env (ex_cache e)) (lk_server env) (pr_TypeUrl q) = Val (rs, None) \<Longrightarrow>
    exporter_step env e (e\<lparr>ex_push := PushGenerated rs\<rparr>)"
| push_fails: "ex_push e = PushTaken q \<Longrightarrow>
    generateResources (lk_lister env (ex_cache e)) (lk_server env) (pr_TypeUrl q) = Val (rs, Some err) \<Longrightarrow>
    exporter_step env e (e\<lparr>ex_push := PushWaiting\<rparr>)"
| push_sends: "ex_push e = PushGenerated rs \<Longrightarrow>
    exporter_step env e (e\<lparr>ex_push := PushWaiting, ex_stream := (if ex_reply e = NotConnected then ex_stream e else ex_stream e @ [rs])\<rparr>)"
| connects: "ex_reply e = NotConnected \<Longrightarrow> exporter_step env e (e\<lparr>ex_reply := Requested\<rparr>)"
| reply_generates: "ex_reply e = Requested \<Longrightarrow>
    generateResources (lk_lister env (ex_cache e)) (lk_server env) ExportedServiceTypeUrl = Val (rs, err) \<Longrightarrow>
    exporter_step env e (e\<lparr>ex_reply := ReplyGenerated rs\<rparr>)"
| reply_sends: "ex_reply e = ReplyGenerated rs \<Longrightarrow>
    exporter_step env e (e\<lparr>ex_reply := Answered, ex_stream := ex_stream e @ [rs]\<rparr>)"
| stream_breaks: "exporter_step env e (e\<lparr>ex_reply := NotConnected, ex_stream := []\<rparr>)"

inductive mesh_step :: "'s link_env \<Rightarrow> 's meshes \<Rightarrow> 's meshes \<Rightarrow> bool" for env where
  exporter_runs: "exporter_step env (ms_exporter m) e' \<Longrightarrow> mesh_step env m (m\<lparr>ms_exporter := e'\<rparr>)"
| delivers: "ex_stream (ms_exporter m) = rs # rest \<Longrightarrow> pe_messages (lk_importer env) rs \<Longrightarrow>
    pc_sending (ms_importer m) (FromClient (lk_name env)) = [] \<Longrightarrow>
    Handle (pe_unmarshal (lk_importer env)) (w_store (pc_world (ms_importer m))) (lk_name env) rs = (store', pushes, err) \<Longrightarrow>
    mesh_step env m (m\<lparr>ms_exporter := (ms_exporter m)\<lparr>ex_stream := rest\<rparr>,
      ms_importer := (ms_importer m)\<lparr>pc_world := (pc_world (ms_importer m))\<lparr>w_store := store'\<rparr>,
        pc_sending := (pc_sending (ms_importer m))(FromClient (lk_name env) := pushes)\<rparr>\<rparr>)"
| importer_runs: "proc_step (lk_importer env) (ms_importer m) p' \<Longrightarrow>
    importedServices (w_store (pc_world p')) (lk_name env) = importedServices (w_store (pc_world (ms_importer m))) (lk_name env) \<Longrightarrow>
    mesh_step env m (m\<lparr>ms_importer := p'\<rparr>)"

text \<open>Nothing is under way in either mesh or between them.\<close>

definition exporter_quiet :: "exporter \<Rightarrow> bool" where
  "exporter_quiet e \<longleftrightarrow> ex_events e = [] \<and> ex_sending e = [] \<and> ex_push e = PushWaiting \<and> ex_reply e = Answered \<and> ex_stream e = []"

definition meshes_quiet :: "'s meshes \<Rightarrow> bool" where
  "meshes_quiet m \<longleftrightarrow> exporter_quiet (ms_exporter m) \<and> quiescent (ms_importer m)"

section \<open>What the exporting mesh exports\<close>

abbreviation exports_of :: "'s link_env \<Rightarrow> Service list \<Rightarrow> FederatedService set" where
  "exports_of env cache \<equiv> exported_service ` {s \<in> set cache. MatchExportRules (lk_matches env) s (export_selectors (lk_cfg env))}"

text \<open>What a response stands for.\<close>

definition denotes :: "'s link_env \<Rightarrow> Any list \<Rightarrow> FederatedService set \<Rightarrow> bool" where
  "denotes env rs X \<longleftrightarrow> (\<exists>svcs. unmarshal_all (pe_unmarshal (lk_importer env)) rs = Val svcs \<and> set svcs = X)"

text \<open>The cache answers and the messages survive the wire.\<close>

definition good_link :: "'s link_env \<Rightarrow> bool" where
  "good_link env \<longleftrightarrow> (\<forall>cache. serves_cache (lk_matches env) cache (lk_lister env cache))
     \<and> wire_roundtrip (exported_service ` lk_services env) (lk_marshal env) (pe_unmarshal (lk_importer env))"

lemma generated_denotes:
  assumes "good_link env" and "set cache \<subseteq> lk_services env"
  shows "\<exists>rs. generateResources (lk_lister env cache) (lk_server env) ExportedServiceTypeUrl = Val (rs, None)
    \<and> denotes env rs (exports_of env cache)"
proof -
  let ?l = "lk_lister env cache"
  let ?exported = "map exported_service (exported_services ?l (export_selectors (lk_cfg env)))"
  have cache: "serves_cache (lk_matches env) cache ?l" and wire: "wire_roundtrip (exported_service ` lk_services env) (lk_marshal env) (pe_unmarshal (lk_importer env))"
    using assms(1) by (simp_all add: good_link_def)
  have "set ?exported \<subseteq> exported_service ` lk_services env"
    using assms(2) set_exported_services [OF cache, of "export_selectors (lk_cfg env)"] by auto
  then obtain rs where rs: "serialize (lk_marshal env) ?exported = Val rs" "unmarshal_all (pe_unmarshal (lk_importer env)) rs = Val ?exported"
    using serialize_wire [OF wire, of ?exported] by blast
  have "generateResources ?l (lk_server env) ExportedServiceTypeUrl = Val (rs, None)"
    using GenerateResponse_eq [OF cache] rs(1)
    by (simp add: generateResources_def lk_server_def startFederationServer_def NewServer_export_handler)
  moreover have "denotes env rs (exports_of env cache)"
    using rs(2) set_exported_services [OF cache, of "export_selectors (lk_cfg env)"] by (auto simp: denotes_def)
  ultimately show ?thesis by blast
qed

lemma denotes_unique: "denotes env rs X \<Longrightarrow> denotes env rs Y \<Longrightarrow> X = Y"
  by (auto simp: denotes_def)

lemma processItem_lk:
  "processItem (lk_controller env) (event_of ''Service'' key ch) =
    (if export_changed (lk_matches env) (export_selectors (lk_cfg env)) ch then export_pushes else [], Val ())"
  by (rule processItem_change) (simp add: lk_controller_def)

text \<open>A change that the handler passes over leaves the exports as they are.\<close>

lemma unchanged_exports:
  assumes "changes_cache ch cache cache'" and "tells_peers (lk_matches env) (lk_cfg env) ch"
    and "\<not> export_changed (lk_matches env) (export_selectors (lk_cfg env)) ch"
  shows "exports_of env cache' = exports_of env cache"
proof (cases ch)
  case (Updated s t)
  have "exported_service x \<in> exports_of env cache'" if "x \<in> set cache" "MatchExportRules (lk_matches env) x (export_selectors (lk_cfg env))" for x
    using assms Updated that by (cases "x = s") auto
  moreover have "exported_service x \<in> exports_of env cache" if "x \<in> set cache'" "MatchExportRules (lk_matches env) x (export_selectors (lk_cfg env))" for x
    using assms Updated that by (cases "x = t") (auto simp: image_iff intro: bexI [of _ s])
  ultimately show ?thesis by blast
qed (use assms in auto)

section \<open>The invariant\<close>

definition export_asked :: "'s link_env \<Rightarrow> exporter \<Rightarrow> bool" where
  "export_asked env e \<longleftrightarrow> (\<exists>ch \<in> set (ex_events e). export_changed (lk_matches env) (export_selectors (lk_cfg env)) ch)
     \<or> (FdsPushRequests, push_of ExportedServiceTypeUrl) \<in> set (ex_sending e)"

text \<open>
  What is generated is fresh or will be generated again; the last message on the way, or else the store, is fresh, or
  something newer is on its way to the stream.
\<close>

definition export_inv :: "'s link_env \<Rightarrow> exporter \<Rightarrow> FederatedService set \<Rightarrow> bool" where
  "export_inv env e stored \<longleftrightarrow>
     set (ex_cache e) \<subseteq> lk_services env \<and> set (ex_sending e) \<subseteq> set export_pushes
   \<and> (case ex_push e of PushWaiting \<Rightarrow> True | PushTaken q \<Rightarrow> q = push_of ExportedServiceTypeUrl
      | PushGenerated rs \<Rightarrow> export_asked env e \<or> denotes env rs (exports_of env (ex_cache e)))
   \<and> (case ex_reply e of
        NotConnected \<Rightarrow> True
      | Requested \<Rightarrow> True
      | ReplyGenerated rs \<Rightarrow> denotes env rs (exports_of env (ex_cache e))
      | Answered \<Rightarrow> export_asked env e \<or> ex_push e \<noteq> PushWaiting
          \<or> (if ex_stream e = [] then stored = exports_of env (ex_cache e)
             else denotes env (last (ex_stream e)) (exports_of env (ex_cache e))))"

lemma export_pushes_fds: "(FdsPushRequests, q) \<in> set export_pushes \<Longrightarrow> q = push_of ExportedServiceTypeUrl"
  by (auto simp: export_pushes_def)

lemma export_inv_step:
  assumes step: "exporter_step env e e'" and inv: "export_inv env e stored" and good: "good_link env" and calm: "lk_calm env"
  shows "export_inv env e' stored"
  using step
proof cases
  case (service_changes ch cache')
  show ?thesis
  proof (cases "export_changed (lk_matches env) (export_selectors (lk_cfg env)) ch")
    case True
    with inv service_changes calm show ?thesis
      by (auto simp: export_inv_def export_asked_def split: push_phase.splits)
  next
    case False
    from unchanged_exports [OF service_changes(2,3) this] False inv service_changes(1,4) show ?thesis
      by (auto simp: export_inv_def export_asked_def split: push_phase.splits reply_phase.splits if_splits)
  qed
next
  case (worker_takes ch rest key sent)
  have "export_asked env e' = export_asked env e"
    using worker_takes by (auto simp: export_asked_def processItem_lk export_pushes_def)
  moreover have "set sent \<subseteq> set export_pushes" using worker_takes(4) by (auto simp: processItem_lk split: if_splits)
  ultimately show ?thesis using inv worker_takes(1)
    by (auto simp: export_inv_def split: push_phase.splits reply_phase.splits if_splits)
next
  case (manager_takes q rest)
  have "export_asked env e' = export_asked env e" using manager_takes by (simp add: export_asked_def)
  with inv manager_takes show ?thesis by (auto simp: export_inv_def split: push_phase.splits reply_phase.splits if_splits)
next
  case (server_takes q rest)
  with inv have "q = push_of ExportedServiceTypeUrl" by (auto simp: export_inv_def dest: export_pushes_fds)
  with inv server_takes show ?thesis by (auto simp: export_inv_def split: push_phase.splits reply_phase.splits if_splits)
next
  case (push_generates q rs)
  with inv have q: "q = push_of ExportedServiceTypeUrl" and cache: "set (ex_cache e) \<subseteq> lk_services env"
    by (simp_all add: export_inv_def)
  from generated_denotes [OF good cache] push_generates(3) q have "denotes env rs (exports_of env (ex_cache e))" by auto
  with inv push_generates(1) show ?thesis by (simp add: export_inv_def split: reply_phase.splits)
next
  case (push_fails q rs err)
  with inv have "q = push_of ExportedServiceTypeUrl" and "set (ex_cache e) \<subseteq> lk_services env" by (simp_all add: export_inv_def)
  with generated_denotes [OF good, of "ex_cache e"] push_fails(3) have False by auto
  then show ?thesis ..
next
  case (push_sends rs)
  with inv show ?thesis by (auto simp: export_inv_def export_asked_def split: reply_phase.splits)
next
  case (reply_generates rs err)
  have "set (ex_cache e) \<subseteq> lk_services env" using inv by (simp add: export_inv_def)
  from generated_denotes [OF good this] reply_generates(3) have "denotes env rs (exports_of env (ex_cache e))" by auto
  with inv reply_generates(1) show ?thesis by (simp add: export_inv_def export_asked_def split: push_phase.splits)
qed (use inv in \<open>auto simp: export_inv_def export_asked_def split: push_phase.splits\<close>)

section \<open>Both meshes\<close>

definition stored :: "'s link_env \<Rightarrow> 's proc \<Rightarrow> FederatedService set" where
  "stored env p = (case importedServices (w_store (pc_world p)) (lk_name env) of None \<Rightarrow> {} | Some svcs \<Rightarrow> set svcs)"

lemma stored_From: "remote_Name r = lk_name env \<Longrightarrow> set (From (w_store (pc_world p)) r) = stored env p"
  by (simp add: From_def stored_def split: option.split)

lemma delivered_stored:
  assumes "Handle (pe_unmarshal (lk_importer env)) store (lk_name env) rs = (store', pushes, err)" and "denotes env rs X"
    and "w_store (pc_world p) = store'"
  shows "stored env p = X"
proof -
  obtain svcs where svcs: "unmarshal_all (pe_unmarshal (lk_importer env)) rs = Val svcs" "set svcs = X"
    using assms(2) by (auto simp: denotes_def)
  then have "w_store (pc_world p) = Update store (lk_name env) svcs" using assms(1,3) by (simp add: Handle_def)
  with svcs(2) show ?thesis by (simp add: stored_def Update_def)
qed

definition mesh_inv :: "'s link_env \<Rightarrow> 's meshes \<Rightarrow> bool" where
  "mesh_inv env m \<longleftrightarrow> export_inv env (ms_exporter m) (stored env (ms_importer m))"

lemma mesh_inv_step:
  assumes "mesh_step env m m'" and "mesh_inv env m" and "good_link env" and "lk_calm env"
  shows "mesh_inv env m'"
  using assms(1)
proof cases
  case (exporter_runs e')
  with export_inv_step [OF exporter_runs(2) _ assms(3,4)] assms(2) show ?thesis by (simp add: mesh_inv_def)
next
  case (delivers rs rest store' pushes err)
  let ?e = "ms_exporter m"
  have asked: "export_asked env (?e\<lparr>ex_stream := rest\<rparr>) = export_asked env ?e" by (simp add: export_asked_def)
  have "stored env (ms_importer m') = X" if "denotes env rs X" for X
    using delivered_stored [OF delivers(5) that] delivers(1) by simp
  with assms(2) delivers(1,2) asked show ?thesis
    by (auto simp: mesh_inv_def export_inv_def split: push_phase.splits reply_phase.splits if_splits)
next
  case (importer_runs p')
  then have "stored env p' = stored env (ms_importer m)" by (simp add: stored_def)
  with assms(2) importer_runs(1) show ?thesis by (simp add: mesh_inv_def)
qed

lemma mesh_step_importer:
  assumes "mesh_step env m m'"
  shows "(proc_step (lk_importer env))\<^sup>*\<^sup>* (ms_importer m) (ms_importer m')"
  using assms
proof cases
  case (delivers rs rest store' pushes err)
  then have "proc_step (lk_importer env) (ms_importer m) (ms_importer m')"
    using client_handles [OF delivers(4,3,5)] by simp
  then show ?thesis by (rule r_into_rtranclp)
qed (auto intro: r_into_rtranclp)

lemma mesh_run:
  assumes "(mesh_step env)\<^sup>*\<^sup>* m m'"
  shows "mesh_inv env m \<Longrightarrow> good_link env \<Longrightarrow> lk_calm env \<Longrightarrow> mesh_inv env m'"
    and "(proc_step (lk_importer env))\<^sup>*\<^sup>* (ms_importer m) (ms_importer m')"
  using assms
proof (induction rule: rtranclp_induct)
  case (step m1 m2)
  {
    case 1
    with step show ?case by (blast intro: mesh_inv_step)
  next
    case 2
    with step mesh_step_importer [of env m1 m2] show ?case by (auto intro: rtranclp_trans)
  }
qed simp_all

text \<open>Both sides at their start: the exporting mesh has its Services, and nobody is connected.\<close>

definition meshes_start :: "'s link_env \<Rightarrow> 's world \<Rightarrow> 's meshes \<Rightarrow> bool" where
  "meshes_start env w m \<longleftrightarrow> process_starts (lk_importer env) w (ms_importer m)
     \<and> set (ex_cache (ms_exporter m)) \<subseteq> lk_services env \<and> ex_events (ms_exporter m) = [] \<and> ex_sending (ms_exporter m) = []
     \<and> ex_push (ms_exporter m) = PushWaiting \<and> ex_reply (ms_exporter m) = NotConnected \<and> ex_stream (ms_exporter m) = []"

lemma meshes_start_inv: "meshes_start env w m \<Longrightarrow> mesh_inv env m"
  by (simp add: meshes_start_def mesh_inv_def export_inv_def)

lemma quiet_agree:
  assumes "good_link env" and "lk_calm env" and "good_env (lk_importer env)"
    and "sees_entries (pe_api (lk_importer env)) viewS conformsS viewW conformsW"
    and start: "meshes_start env w m0" and run: "(mesh_step env)\<^sup>*\<^sup>* m0 m" and quiet: "meshes_quiet m" and r: "remote_Name r = lk_name env"
  shows "set (From (w_store (pc_world (ms_importer m))) r) = exports_of env (ex_cache (ms_exporter m))
    \<and> (\<exists>ses wes beforeS beforeW. se_gen (lk_importer env) (pc_world (ms_importer m)) = Val ses
        \<and> we_gen (lk_importer env) (pc_world (ms_importer m)) = Val wes
        \<and> synced conformsS peer_labels ses beforeS (viewS (w_cluster (pc_world (ms_importer m))))
        \<and> synced conformsW peer_labels wes beforeW (viewW (w_cluster (pc_world (ms_importer m)))))"
proof
  have "mesh_inv env m" by (rule mesh_run(1) [OF run meshes_start_inv [OF start] assms(1,2)])
  with quiet show "set (From (w_store (pc_world (ms_importer m))) r) = exports_of env (ex_cache (ms_exporter m))"
    by (simp add: stored_From [OF r] mesh_inv_def export_inv_def export_asked_def meshes_quiet_def exporter_quiet_def)
  have "process_starts (lk_importer env) w (ms_importer m0)" using start by (simp add: meshes_start_def)
  from run_synced [OF assms(3,4) this mesh_run(2) [OF run]] quiet
  show "\<exists>ses wes beforeS beforeW. se_gen (lk_importer env) (pc_world (ms_importer m)) = Val ses
        \<and> we_gen (lk_importer env) (pc_world (ms_importer m)) = Val wes
        \<and> synced conformsS peer_labels ses beforeS (viewS (w_cluster (pc_world (ms_importer m))))
        \<and> synced conformsW peer_labels wes beforeW (viewW (w_cluster (pc_world (ms_importer m))))"
    by (simp add: meshes_quiet_def)
qed

section \<open>Both meshes come to rest\<close>

text \<open>Every message that is generated or on the way holds exported services.\<close>

definition sound :: "'s link_env \<Rightarrow> Any list \<Rightarrow> bool" where
  "sound env rs \<longleftrightarrow> (\<exists>X. denotes env rs X \<and> X \<subseteq> range exported_service)"

definition sound_exporter :: "'s link_env \<Rightarrow> exporter \<Rightarrow> bool" where
  "sound_exporter env e \<longleftrightarrow> set (ex_cache e) \<subseteq> lk_services env \<and> set (ex_sending e) \<subseteq> set export_pushes \<and> list_all (sound env) (ex_stream e)
     \<and> (case ex_push e of PushWaiting \<Rightarrow> True | PushTaken q \<Rightarrow> q = push_of ExportedServiceTypeUrl | PushGenerated rs \<Rightarrow> sound env rs)
     \<and> (case ex_reply e of ReplyGenerated rs \<Rightarrow> sound env rs | _ \<Rightarrow> True)"

lemma generated_sound:
  assumes "good_link env" and "set cache \<subseteq> lk_services env"
    and "generateResources (lk_lister env cache) (lk_server env) ExportedServiceTypeUrl = Val (rs, err)"
  shows "sound env rs"
  using generated_denotes [OF assms(1,2)] assms(3) by (auto simp: sound_def)

lemma sound_exporter_step:
  assumes "exporter_step env e e'" and "sound_exporter env e" and "good_link env"
  shows "sound_exporter env e'"
  using assms(1)
proof cases
  case (worker_takes ch rest key sent)
  have "set sent \<subseteq> set export_pushes" using worker_takes(4) by (auto simp: processItem_lk split: if_splits)
  with assms(2) worker_takes(1) show ?thesis by (simp add: sound_exporter_def)
next
  case (server_takes q rest)
  with assms(2) show ?thesis by (auto simp: sound_exporter_def dest: export_pushes_fds)
next
  case (push_generates q rs)
  then have "sound env rs" using assms(2) generated_sound [OF assms(3), of "ex_cache e" rs None] by (auto simp: sound_exporter_def)
  with assms(2) push_generates(1) show ?thesis by (simp add: sound_exporter_def)
next
  case (reply_generates rs err)
  then have "sound env rs" using assms(2) generated_sound [OF assms(3), of "ex_cache e" rs err] by (auto simp: sound_exporter_def)
  with assms(2) reply_generates(1) show ?thesis by (simp add: sound_exporter_def)
qed (use assms(2) in \<open>auto simp: sound_exporter_def\<close>)

lemma sound_run:
  assumes "(mesh_step env)\<^sup>*\<^sup>* m m'" and "sound_exporter env (ms_exporter m)" and "good_link env"
  shows "sound_exporter env (ms_exporter m')"
  using assms(1)
proof (induction rule: rtranclp_induct)
  case (step m1 m2)
  from step(2) show ?case
  proof cases
    case (exporter_runs e')
    with sound_exporter_step [OF exporter_runs(2) step(3) assms(3)] show ?thesis by simp
  next
    case (delivers rs rest store' pushes err)
    with step(3) show ?thesis by (simp add: sound_exporter_def)
  next
    case (importer_runs p')
    with step(3) show ?thesis by simp
  qed
qed (rule assms(2))

text \<open>What is left to do outside the importing process.\<close>

definition export_work :: "exporter \<Rightarrow> nat" where
  "export_work e = 30 * length (ex_events e) + 5 * length (ex_sending e) + length (ex_stream e)
     + (case ex_push e of PushWaiting \<Rightarrow> 0 | PushTaken q \<Rightarrow> 3 | PushGenerated rs \<Rightarrow> 2)
     + (case ex_reply e of NotConnected \<Rightarrow> 4 | Requested \<Rightarrow> 3 | ReplyGenerated rs \<Rightarrow> 2 | Answered \<Rightarrow> 0)"

lemma exporter_progress:
  assumes "good_link env" and sound: "sound_exporter env e" and "\<not> exporter_quiet e" and "ex_stream e = []"
  shows "\<exists>e'. exporter_step env e e' \<and> export_work e' < export_work e \<and> ex_cache e' = ex_cache e"
proof -
  have cache: "set (ex_cache e) \<subseteq> lk_services env" using sound by (simp add: sound_exporter_def)
  obtain rs where rs: "generateResources (lk_lister env (ex_cache e)) (lk_server env) ExportedServiceTypeUrl = Val (rs, None)"
    using generated_denotes [OF assms(1) cache] by blast
  show ?thesis
  proof (cases "ex_reply e")
    case NotConnected
    with connects [OF NotConnected] show ?thesis by (fastforce simp: export_work_def)
  next
    case Requested
    with reply_generates [OF Requested rs] show ?thesis by (fastforce simp: export_work_def)
  next
    case (ReplyGenerated rs')
    with reply_sends [OF ReplyGenerated] show ?thesis by (fastforce simp: export_work_def)
  next
    case reply: Answered
    show ?thesis
    proof (cases "ex_push e")
      case (PushTaken q)
      then have q: "pr_TypeUrl q = ExportedServiceTypeUrl" using sound by (simp add: sound_exporter_def)
      from push_generates [OF PushTaken, of env rs] rs reply q PushTaken show ?thesis by (fastforce simp: export_work_def)
    next
      case (PushGenerated rs')
      with push_sends [OF PushGenerated, of env] reply show ?thesis by (fastforce simp: export_work_def)
    next
      case push: PushWaiting
      show ?thesis
      proof (cases "ex_sending e")
        case Nil
        with assms(3,4) reply push obtain ch rest where events: "ex_events e = ch # rest"
          by (auto simp: exporter_quiet_def neq_Nil_conv)
        let ?sent = "if export_changed (lk_matches env) (export_selectors (lk_cfg env)) ch then export_pushes else []"
        have "length ?sent \<le> 4" by (simp add: export_pushes_def)
        with worker_takes [OF Nil events processItem_lk [of env "[]" ch]] events Nil show ?thesis
          by (intro exI [of _ "e\<lparr>ex_events := rest, ex_sending := ?sent\<rparr>"]) (simp add: export_work_def)
      next
        case (Cons c rest)
        show ?thesis
        proof (cases c)
          case (Pair chan q)
          with Cons manager_takes [of e q rest env] server_takes [of e q rest env] push show ?thesis
            by (cases chan) (fastforce simp: export_work_def)+
        qed
      qed
    qed
  qed
qed

lemma importer_settles:
  assumes "good_env (lk_importer env)" and "good_proc (lk_importer env) (ms_importer m)"
  shows "\<exists>m'. (mesh_step env)\<^sup>*\<^sup>* m m' \<and> ms_exporter m' = ms_exporter m \<and> quiescent (ms_importer m')
    \<and> good_proc (lk_importer env) (ms_importer m') \<and> stored env (ms_importer m') = stored env (ms_importer m)"
proof -
  have move: "(mesh_step env)\<^sup>*\<^sup>* m (m\<lparr>ms_importer := p'\<rparr>) \<and> w_store (pc_world p') = w_store (pc_world (ms_importer m))"
    if "(manager_move (lk_importer env) ^^ n) (ms_importer m) p'" "good_proc (lk_importer env) (ms_importer m)" for n p' m
    using that
  proof (induction n arbitrary: m)
    case 0
    then have "p' = ms_importer m" by simp
    then show ?case by simp
  next
    case (Suc n)
    obtain p1 where p1: "manager_move (lk_importer env) (ms_importer m) p1" "(manager_move (lk_importer env) ^^ n) p1 p'"
      using Suc.prems(1) by (metis relpowp_Suc_D2)
    have step: "proc_step (lk_importer env) (ms_importer m) p1" using p1(1) by (simp add: manager_move_def)
    have store: "w_store (pc_world p1) = w_store (pc_world (ms_importer m))" by (rule manager_move_decreases(2) [OF p1(1) Suc.prems(2)])
    have "mesh_step env m (m\<lparr>ms_importer := p1\<rparr>)" using importer_runs [OF step] store by simp
    moreover have "(mesh_step env)\<^sup>*\<^sup>* (m\<lparr>ms_importer := p1\<rparr>) (m\<lparr>ms_importer := p'\<rparr>) \<and> w_store (pc_world p') = w_store (pc_world p1)"
      using Suc.IH [of "m\<lparr>ms_importer := p1\<rparr>"] p1(2) good_proc_step [OF assms(1) step Suc.prems(2)] by simp
    ultimately show ?case using store by (auto intro: converse_rtranclp_into_rtranclp)
  qed
  obtain p' where p': "(manager_move (lk_importer env) ^^ pending_work (ms_importer m)) (ms_importer m) p'"
    using manager_settles(1) [OF assms] by blast
  have "quiescent p'" "(proc_step (lk_importer env))\<^sup>*\<^sup>* (ms_importer m) p'" using manager_settles(2) [OF assms p'] by simp_all
  with move [OF p' assms(2)] steps_good [OF _ assms] show ?thesis by (intro exI [of _ "m\<lparr>ms_importer := p'\<rparr>"]) (simp add: stored_def)
qed

text \<open>The clients take every list of exported services.\<close>

definition takes_exports :: "'s link_env \<Rightarrow> bool" where
  "takes_exports env \<longleftrightarrow> (\<forall>rs. sound env rs \<longrightarrow> pe_messages (lk_importer env) rs)"

lemma mesh_progress:
  assumes "good_link env" and "takes_exports env" and "sound_exporter env (ms_exporter m)" and "\<not> exporter_quiet (ms_exporter m)"
    and "quiescent (ms_importer m)"
  shows "\<exists>m'. mesh_step env m m' \<and> export_work (ms_exporter m') < export_work (ms_exporter m)
    \<and> ex_cache (ms_exporter m') = ex_cache (ms_exporter m)"
proof (cases "ex_stream (ms_exporter m)")
  case Nil
  obtain e' where "exporter_step env (ms_exporter m) e'" "export_work e' < export_work (ms_exporter m)"
    "ex_cache e' = ex_cache (ms_exporter m)" using exporter_progress [OF assms(1,3,4) Nil] by blast
  with exporter_runs [of env m e'] show ?thesis by (intro exI [of _ "m\<lparr>ms_exporter := e'\<rparr>"]) simp
next
  case (Cons rs rest)
  then have rs: "pe_messages (lk_importer env) rs" using assms(2,3) by (simp add: sound_exporter_def takes_exports_def)
  obtain store' pushes err where
    "Handle (pe_unmarshal (lk_importer env)) (w_store (pc_world (ms_importer m))) (lk_name env) rs = (store', pushes, err)"
    by (metis prod_cases3)
  from delivers [OF Cons rs _ this] assms(5) Cons show ?thesis
    by (fastforce simp: quiescent_def export_work_def)
qed

lemma meshes_rest:
  assumes "good_link env" and "takes_exports env" and "good_env (lk_importer env)"
    and "sound_exporter env (ms_exporter m)" and "good_proc (lk_importer env) (ms_importer m)"
  shows "\<exists>m'. (mesh_step env)\<^sup>*\<^sup>* m m' \<and> meshes_quiet m' \<and> ex_cache (ms_exporter m') = ex_cache (ms_exporter m)"
  using assms(4,5)
proof (induction "export_work (ms_exporter m)" arbitrary: m rule: less_induct)
  case less
  obtain m1 where m1: "(mesh_step env)\<^sup>*\<^sup>* m m1" "ms_exporter m1 = ms_exporter m" "quiescent (ms_importer m1)"
    "good_proc (lk_importer env) (ms_importer m1)"
    using importer_settles [OF assms(3) less.prems(2)] by blast
  show ?case
  proof (cases "exporter_quiet (ms_exporter m)")
    case True
    with m1 show ?thesis by (auto simp: meshes_quiet_def)
  next
    case False
    from mesh_progress [OF assms(1,2), of m1] m1 less.prems(1) False obtain m2 where m2: "mesh_step env m1 m2"
      "export_work (ms_exporter m2) < export_work (ms_exporter m)" "ex_cache (ms_exporter m2) = ex_cache (ms_exporter m)" by auto
    have run: "(mesh_step env)\<^sup>*\<^sup>* m m2" using m1(1) m2(1) by (rule rtranclp.rtrancl_into_rtrancl)
    have "sound_exporter env (ms_exporter m2)" by (rule sound_run [OF run less.prems(1) assms(1)])
    moreover have "good_proc (lk_importer env) (ms_importer m2)"
      by (rule steps_good [OF mesh_run(2) [OF run] assms(3) less.prems(2)])
    ultimately obtain m' where "(mesh_step env)\<^sup>*\<^sup>* m2 m'" "meshes_quiet m'" "ex_cache (ms_exporter m') = ex_cache (ms_exporter m2)"
      using less.hyps [OF m2(2)] by blast
    with run m2(3) show ?thesis by (auto intro: rtranclp_trans)
  qed
qed

section \<open>A pair of meshes\<close>

lemma exported_service_dotted: "CHR ''.'' \<in> set (fs_Hostname (exported_service svc))"
  by (simp add: exported_service_def exported_hostname_def)

definition shop :: Service where
  "shop = \<lparr>svc_Name = ''shop'', svc_Namespace = ''ns1'', svc_Labels = [''export'' \<mapsto> ''true''], svc_Ports = [http_port]\<rparr>"

lemma shop_sendable: "sendable sorted_entries (exported_service shop)"
  by (simp add: sendable_def shop_def exported_service_def exported_hostname_def exported_port_def http_port_def detectProtocol_def
      service_strings_def sorted_entries_def service_fields_def string_field_def port_fields_def uint32_field_def entry_fields_def
      field_tag_def varint.simps)

lemma shop_selected [simp]: "ls_MatchLabels export_true \<subseteq>\<^sub>m svc_Labels shop"
  by (simp add: shop_def export_true_def)

lemma shop_exported: "MatchExportRules (\<subseteq>\<^sub>m) shop (export_selectors (east_cfg ingress remotes))"
  by (simp add: MatchExportRules_iff)

text \<open>Messages of the real wire format; what arrives has dotted host names.\<close>

definition sample_link :: "bool \<Rightarrow> cluster link_env" where
  "sample_link calm = \<lparr>lk_matches = (\<subseteq>\<^sub>m), lk_cfg = east_cfg Istio [], lk_marshal = proto_marshal sorted_entries,
     lk_lister = cache_lister (\<subseteq>\<^sub>m), lk_name = ''west'', lk_services = {shop}, lk_calm = calm,
     lk_importer = memory_proc_env (east_cfg OpenShiftRouter [west]) ''istio-system'' proto_unmarshal (\<subseteq>\<^sub>m)
       (\<lambda>rs. \<forall>svcs. unmarshal_all proto_unmarshal rs = Val svcs \<longrightarrow> (\<forall>svc \<in> set svcs. CHR ''.'' \<in> set (fs_Hostname svc))) (\<lambda>_ _. False)\<rparr>"

lemma sample_link_sel [simp]:
  "lk_matches (sample_link calm) = (\<subseteq>\<^sub>m)" "lk_cfg (sample_link calm) = east_cfg Istio []" "lk_name (sample_link calm) = ''west''"
  "lk_services (sample_link calm) = {shop}" "lk_calm (sample_link calm) = calm" "pe_api (lk_importer (sample_link calm)) = memory_api"
  "pe_unmarshal (lk_importer (sample_link calm)) = proto_unmarshal"
  by (simp_all add: sample_link_def)

lemma sample_link_good:
  shows "good_link (sample_link calm)" and "good_env (lk_importer (sample_link calm))" and "takes_exports (sample_link calm)"
    and "sees_entries (pe_api (lk_importer (sample_link calm))) (\<lambda>c. memory_view (cl_ServiceEntries c)) (=)
      (\<lambda>c. memory_view (cl_WorkloadEntries c)) (=)"
proof -
  have "wire_roundtrip {svc. sendable sorted_entries svc} (proto_marshal sorted_entries) proto_unmarshal"
    by (rule proto_wire_roundtrip [OF lists_sorted_entries])
  then show "good_link (sample_link calm)"
    using shop_sendable serves_cache_lister by (simp add: good_link_def sample_link_def wire_roundtrip_def)
  have "lg_Port (local_ingress (east_cfg OpenShiftRouter [west])) \<noteq> None" by (simp add: east_cfg_def)
  then show "good_env (lk_importer (sample_link calm))"
    by (simp add: good_env_def sample_link_def cluster_up_memory)
  show "takes_exports (sample_link calm)"
    using exported_service_dotted by (fastforce simp: takes_exports_def sound_def denotes_def sample_link_def)
  show "sees_entries (pe_api (lk_importer (sample_link calm))) (\<lambda>c. memory_view (cl_ServiceEntries c)) (=)
      (\<lambda>c. memory_view (cl_WorkloadEntries c)) (=)"
    by (simp add: sees_entries_def memory_api_up memory_others_keep)
qed

definition sample_importer :: "cluster proc" where
  "sample_importer = \<lparr>pc_world = sample_world, pc_sending = (\<lambda>_. []),
     pc_initial = map rec_GetTypeUrl (reconcilers_for memory_api (east_cfg OpenShiftRouter [west]) ''istio-system''), pc_phase = ManagerIdle\<rparr>"

definition idle_exporter :: "Service list \<Rightarrow> reply_phase \<Rightarrow> exporter" where
  "idle_exporter cache reply = \<lparr>ex_cache = cache, ex_events = [], ex_sending = [], ex_push = PushWaiting, ex_reply = reply, ex_stream = []\<rparr>"

definition sample_meshes :: "Service list \<Rightarrow> cluster meshes" where
  "sample_meshes cache = \<lparr>ms_exporter = idle_exporter cache NotConnected, ms_importer = sample_importer\<rparr>"

lemma sample_importer_starts: "process_starts (lk_importer (sample_link calm)) sample_world sample_importer"
  using plain_lister_serves
  by (auto simp: process_starts_def good_inputs_def sample_link_def sample_importer_def sample_world_def)

lemma sample_meshes_start: "set cache \<subseteq> {shop} \<Longrightarrow> meshes_start (sample_link calm) sample_world (sample_meshes cache)"
  using sample_importer_starts by (simp add: meshes_start_def sample_meshes_def idle_exporter_def)

lemma start_sound: "meshes_start env w m \<Longrightarrow> sound_exporter env (ms_exporter m)"
  by (simp add: meshes_start_def sound_exporter_def)

section \<open>Properties\<close>





subsection \<open>A first answer that is overtaken\<close>

lemma exporter_run:
  assumes "(exporter_step env)\<^sup>*\<^sup>* e e'" and "ms_exporter m = e"
  shows "(mesh_step env)\<^sup>*\<^sup>* m (m\<lparr>ms_exporter := e'\<rparr>)"
  using assms(1)
proof (induction rule: rtranclp_induct)
  case base
  then show ?case using assms(2) by (metis meshes.surjective meshes.update_convs(1) rtranclp.rtrancl_refl)
next
  case (step e1 e2)
  have "mesh_step env (m\<lparr>ms_exporter := e1\<rparr>) (m\<lparr>ms_exporter := e2\<rparr>)"
    using exporter_runs [of env "m\<lparr>ms_exporter := e1\<rparr>" e2] step(2) by simp
  with step(3) show ?case by (rule rtranclp.rtrancl_into_rtrancl)
qed

lemma delivers_next:
  assumes "good_env (lk_importer env)" and "good_proc (lk_importer env) (ms_importer m)" and "takes_exports env"
    and "ex_stream (ms_exporter m) = rs # rest" and "denotes env rs X" and "X \<subseteq> range exported_service"
  shows "\<exists>m'. (mesh_step env)\<^sup>*\<^sup>* m m' \<and> ms_exporter m' = (ms_exporter m)\<lparr>ex_stream := rest\<rparr> \<and> good_proc (lk_importer env) (ms_importer m')
    \<and> stored env (ms_importer m') = X"
proof -
  obtain m1 where m1: "(mesh_step env)\<^sup>*\<^sup>* m m1" "ms_exporter m1 = ms_exporter m" "quiescent (ms_importer m1)"
    "good_proc (lk_importer env) (ms_importer m1)" using importer_settles [OF assms(1,2)] by blast
  have rs: "pe_messages (lk_importer env) rs" using assms(3,5,6) by (auto simp: takes_exports_def sound_def)
  obtain store' pushes err where
    handle: "Handle (pe_unmarshal (lk_importer env)) (w_store (pc_world (ms_importer m1))) (lk_name env) rs = (store', pushes, err)"
    by (metis prod_cases3)
  define m2 where "m2 = m1\<lparr>ms_exporter := (ms_exporter m1)\<lparr>ex_stream := rest\<rparr>,
      ms_importer := (ms_importer m1)\<lparr>pc_world := (pc_world (ms_importer m1))\<lparr>w_store := store'\<rparr>,
        pc_sending := (pc_sending (ms_importer m1))(FromClient (lk_name env) := pushes)\<rparr>\<rparr>"
  have step: "mesh_step env m1 m2"
    unfolding m2_def by (rule delivers [OF _ rs _ handle]) (use assms(4) m1(2,3) in \<open>simp_all add: quiescent_def\<close>)
  have run: "(mesh_step env)\<^sup>*\<^sup>* m m2" using m1(1) step by (rule rtranclp.rtrancl_into_rtrancl)
  have "stored env (ms_importer m2) = X" by (rule delivered_stored [OF handle assms(5)]) (simp add: m2_def)
  moreover have "good_proc (lk_importer env) (ms_importer m2)" by (rule steps_good [OF mesh_run(2) [OF run] assms(1,2)])
  ultimately show ?thesis using run m1(2) by (intro exI [of _ m2]) (simp add: m2_def)
qed

text \<open>A client connects; while the answer to its request is generated but not sent, a Service is created and pushed.\<close>

lemma overtaking_run:
  assumes "good_link env" and "\<not> lk_calm env" and "set cache' \<subseteq> lk_services env" and "changes_cache (Created s) cache cache'"
    and "MatchExportRules (lk_matches env) s (export_selectors (lk_cfg env))"
    and e: "e = \<lparr>ex_cache = cache, ex_events = [], ex_sending = [], ex_push = PushWaiting, ex_reply = NotConnected, ex_stream = []\<rparr>"
    and "set cache \<subseteq> lk_services env"
  shows "\<exists>rs rs'. denotes env rs (exports_of env cache) \<and> denotes env rs' (exports_of env cache') \<and> (exporter_step env)\<^sup>*\<^sup>* e
    \<lparr>ex_cache = cache', ex_events = [], ex_sending = [], ex_push = PushWaiting, ex_reply = Answered, ex_stream = [rs', rs]\<rparr>"
proof -
  obtain rs' where rs': "generateResources (lk_lister env cache') (lk_server env) ExportedServiceTypeUrl = Val (rs', None)"
    "denotes env rs' (exports_of env cache')" using generated_denotes [OF assms(1,3)] by blast
  obtain rs where rs: "generateResources (lk_lister env cache) (lk_server env) ExportedServiceTypeUrl = Val (rs, None)"
    "denotes env rs (exports_of env cache)" using generated_denotes [OF assms(1,7)] by blast
  define st where "st events sending push reply stream = \<lparr>ex_cache = cache', ex_events = events, ex_sending = sending, ex_push = push,
      ex_reply = reply, ex_stream = stream\<rparr>" for events sending push reply stream
  let ?fds = "(FdsPushRequests, push_of ExportedServiceTypeUrl)" and ?R = "ReplyGenerated rs"
  let ?e1 = "e\<lparr>ex_reply := Requested\<rparr>" and ?e2 = "e\<lparr>ex_reply := ?R\<rparr>"
  have "exporter_step env e ?e1" by (rule connects) (simp add: e)
  moreover have "exporter_step env ?e1 ?e2" using reply_generates [of ?e1 env rs None] rs(1) by (simp add: e)
  moreover have "exporter_step env ?e2 (st [Created s] [] PushWaiting ?R [])"
    using service_changes [of "Created s" ?e2 cache' env] assms(2-4) by (simp add: e st_def del: changes_cache.simps)
  moreover have "exporter_step env (st [Created s] [] PushWaiting ?R []) (st [] export_pushes PushWaiting ?R [])"
    using worker_takes [of "st [Created s] [] PushWaiting ?R []" "Created s" "[]" env "[]"] assms(5)
    by (simp add: st_def processItem_lk del: event_of.simps)
  moreover have "(exporter_step env)\<^sup>*\<^sup>* (st [] export_pushes PushWaiting ?R []) (st [] [?fds] PushWaiting ?R [])"
  proof -
    have take: "exporter_step env (st [] ((McpPushRequests, q) # rest) PushWaiting ?R []) (st [] rest PushWaiting ?R [])" for q rest
      using manager_takes [of "st [] ((McpPushRequests, q) # rest) PushWaiting ?R []" q rest env] by (simp add: st_def)
    show ?thesis unfolding export_pushes_def by (meson take converse_rtranclp_into_rtranclp rtranclp.rtrancl_refl)
  qed
  moreover have "exporter_step env (st [] [?fds] PushWaiting ?R []) (st [] [] (PushTaken (snd ?fds)) ?R [])"
    using server_takes [of "st [] [?fds] PushWaiting ?R []" "snd ?fds" "[]" env] by (simp add: st_def)
  moreover have "exporter_step env (st [] [] (PushTaken (snd ?fds)) ?R []) (st [] [] (PushGenerated rs') ?R [])"
    using push_generates [of "st [] [] (PushTaken (snd ?fds)) ?R []" "snd ?fds" env rs'] rs'(1) by (simp add: st_def)
  moreover have "exporter_step env (st [] [] (PushGenerated rs') ?R []) (st [] [] PushWaiting ?R [rs'])"
    using push_sends [of "st [] [] (PushGenerated rs') ?R []" rs' env] by (simp add: st_def)
  moreover have "exporter_step env (st [] [] PushWaiting ?R [rs']) (st [] [] PushWaiting Answered [rs', rs])"
    using reply_sends [of "st [] [] PushWaiting ?R [rs']" rs env] by (simp add: st_def)
  ultimately have "(exporter_step env)\<^sup>*\<^sup>* e (st [] [] PushWaiting Answered [rs', rs])"
    by (meson rtranclp_trans r_into_rtranclp)
  with rs(2) rs'(2) show ?thesis by (auto simp: st_def)
qed

text \<open>
  C40: a first answer that was generated before a change and sent after the push of the change leaves the importing mesh
  with the old exports, and nothing is left to do: two meshes at their start can reach such a state. \<open>recvFromStream\<close> and the push loop of the server send on the same
  stream from two goroutines and nothing orders what they send: the client takes the last message for the truth.
\<close>

theorem stale_answer_wins:
  assumes "good_link env" and "\<not> lk_calm env" and "takes_exports env" and "good_env (lk_importer env)"
    and start: "meshes_start env w m" "ex_cache (ms_exporter m) = cache" and "remote_Name r = lk_name env"
    and "set cache' \<subseteq> lk_services env" and "changes_cache (Created s) cache cache'"
    and "MatchExportRules (lk_matches env) s (export_selectors (lk_cfg env))" and "exported_service s \<notin> exports_of env cache"
  shows "\<exists>m'. (mesh_step env)\<^sup>*\<^sup>* m m' \<and> meshes_quiet m' \<and> ex_cache (ms_exporter m') = cache'
    \<and> set (From (w_store (pc_world (ms_importer m'))) r) = exports_of env cache \<and> exports_of env cache \<noteq> exports_of env cache'"
proof -
  let ?e = "\<lambda>stream. \<lparr>ex_cache = cache', ex_events = [], ex_sending = [], ex_push = PushWaiting, ex_reply = Answered, ex_stream = stream\<rparr>"
  have e: "ms_exporter m = \<lparr>ex_cache = cache, ex_events = [], ex_sending = [], ex_push = PushWaiting, ex_reply = NotConnected, ex_stream = []\<rparr>"
    and services: "set cache \<subseteq> lk_services env" and good: "good_proc (lk_importer env) (ms_importer m)"
    using start starts_kind_inv(2) by (auto simp: meshes_start_def intro: exporter.equality)
  obtain rs rs' where rs: "denotes env rs (exports_of env cache)" and rs': "denotes env rs' (exports_of env cache')"
    "(exporter_step env)\<^sup>*\<^sup>* (ms_exporter m) (?e [rs', rs])"
    using overtaking_run [OF assms(1,2,8-10) e services] by blast
  define m1 where "m1 = m\<lparr>ms_exporter := ?e [rs', rs]\<rparr>"
  have m1: "(mesh_step env)\<^sup>*\<^sup>* m m1" unfolding m1_def by (rule exporter_run [OF rs'(2)]) simp
  have sub: "exports_of env c \<subseteq> range exported_service" for c by blast
  obtain m2 where m2: "(mesh_step env)\<^sup>*\<^sup>* m1 m2" "ms_exporter m2 = ?e [rs]" "good_proc (lk_importer env) (ms_importer m2)"
    using delivers_next [OF assms(4) _ assms(3) _ rs'(1) sub, of m1 "[rs]"] good by (auto simp: m1_def)
  obtain m3 where m3: "(mesh_step env)\<^sup>*\<^sup>* m2 m3" "ms_exporter m3 = ?e []" "good_proc (lk_importer env) (ms_importer m3)"
    "stored env (ms_importer m3) = exports_of env cache"
    using delivers_next [OF assms(4) m2(3) assms(3) _ rs sub, of "[]"] m2(2) by auto
  obtain m4 where m4: "(mesh_step env)\<^sup>*\<^sup>* m3 m4" "ms_exporter m4 = ms_exporter m3" "quiescent (ms_importer m4)"
    "stored env (ms_importer m4) = stored env (ms_importer m3)" using importer_settles [OF assms(4) m3(3)] by blast
  have "exports_of env cache \<noteq> exports_of env cache'" using assms(9-11) by auto
  moreover have "(mesh_step env)\<^sup>*\<^sup>* m m4" using m1 m2(1) m3(1) m4(1) by (meson rtranclp_trans)
  moreover have "meshes_quiet m4" using m4(2,3) m3(2) by (simp add: meshes_quiet_def exporter_quiet_def)
  ultimately show ?thesis using m4(2,4) m3(2,4) stored_From [OF assms(7), of "ms_importer m4"]
    by (intro exI [of _ m4]) simp
qed

theorem stale_answer_wins_witness:
  "\<exists>m'. (mesh_step (sample_link False))\<^sup>*\<^sup>* (sample_meshes []) m' \<and> meshes_quiet m' \<and> ex_cache (ms_exporter m') = [shop]
    \<and> From (w_store (pc_world (ms_importer m'))) west = [] \<and> exports_of (sample_link False) [shop] \<noteq> {}"
proof -
  let ?env = "sample_link False"
  have start: "meshes_start ?env sample_world (sample_meshes [])" "ex_cache (ms_exporter (sample_meshes [])) = []"
    by (simp_all add: sample_meshes_start) (simp add: sample_meshes_def idle_exporter_def)
  have "\<exists>m'. (mesh_step ?env)\<^sup>*\<^sup>* (sample_meshes []) m' \<and> meshes_quiet m' \<and> ex_cache (ms_exporter m') = [shop]
    \<and> set (From (w_store (pc_world (ms_importer m'))) west) = exports_of ?env [] \<and> exports_of ?env [] \<noteq> exports_of ?env [shop]"
    by (rule stale_answer_wins [OF sample_link_good(1) _ sample_link_good(3,2) start, where s = shop])
      (simp_all add: west_def shop_exported)
  then obtain m' where "(mesh_step ?env)\<^sup>*\<^sup>* (sample_meshes []) m'" "meshes_quiet m'" "ex_cache (ms_exporter m') = [shop]"
    "set (From (w_store (pc_world (ms_importer m'))) west) = exports_of ?env []" "exports_of ?env [] \<noteq> exports_of ?env [shop]" by blast
  then show ?thesis by (intro exI [of _ m']) simp
qed

end
