(* ===== verification/Spec2Isabelle.thy ===== *)
theory Spec2Isabelle
  imports Prelude Config Networking Kube_Types Fds Samples Istio_Factory Istio_Imports Istio_Exports OpenShift_Factory Kube_Sync
    Kube_Reconcilers Informer Adss Adsc Main_Wiring Controllers Startup Store Api_Deepcopy Scheme
    Json Json_Codec Parse_Args Flags Process Wire Proto_Messages Two_Meshes
begin

text \<open>
  A verification of the federation controller of OpenShift Service Mesh: the Go program under \<open>src/\<close> that
  connects service meshes. Each mesh runs one controller. It watches the local Services, serves those
  that match its export rules to its peers over a discovery protocol, stores what the peers export, and
  keeps Istio and OpenShift resources in the local cluster in step with both.

  \<^bold>\<open>How the parts interact.\<close> The informer queues changes of local Services; its worker sends push
  requests for the gateway, the envoy filters and the routes to the reconciler manager, and one for the
  exported services to the discovery server, which broadcasts a fresh list to its subscribers. The
  discovery client of each remote receives such lists, stores them under the name of the remote and
  sends push requests for service entries, workload entries and destination rules. The manager runs the
  reconciler of the requested kind; it builds the desired objects with a factory that reads the
  configuration, the Service cache and the store, and makes the cluster agree with them.

  \<^bold>\<open>Theories and sources.\<close>
  \<^item> \<open>Prelude\<close>: errors, outcomes (value, error, panic), Go formatting, association lists, sorting.
  \<^item> \<open>Config\<close> (\<open>internal/pkg/config/federation_config.go\<close>, \<open>cluster.go\<close>): the structs of the configuration as records and
    their methods.
  \<^item> \<open>Json\<close>, \<open>Json_Codec\<close>: Go's \<open>encoding/json\<close> as the program uses it, a scanner with a stack and a decoder into typed
    variables; a printer and the contract of a type with an encoding (locale \<open>json_codec\<close>, interpreted for every
    struct of the configuration).
  \<^item> \<open>Parse_Args\<close> (\<open>internal/pkg/config/parse.go\<close>, the tags of \<open>federation_config.go\<close>): \<open>ParseArgs\<close> on the texts of the arguments.
  \<^item> \<open>Flags\<close> (\<open>cmd/federation-controller/main.go\<close>): \<open>parseFlags\<close> with \<open>Parse\<close> of Go's \<open>flag\<close> package.
  \<^item> \<open>Networking\<close> (\<open>internal/pkg/networking/resolve.go\<close>, \<open>internal/pkg/common/match_exported.go\<close>): \<open>Resolve\<close>, \<open>IsIP\<close> with the syntax of addresses,
    \<open>MatchExportRules\<close>.
  \<^item> \<open>Kube_Types\<close>: the Kubernetes objects the program handles and the contract of a typed client (locales
    \<open>kube_api\<close>, \<open>kube_api_up\<close>) with an executable server.
  \<^item> \<open>Fds\<close> (\<open>internal/pkg/legacy/fds\<close>, \<open>xds/types.go\<close>, \<open>xds/push_request.go\<close>): the generator of exported services, the handler of imported ones and the
    store (locale \<open>service_store\<close>).
  \<^item> \<open>Istio_Factory\<close>, \<open>Istio_Imports\<close>, \<open>Istio_Exports\<close> (\<open>internal/pkg/istio/config_factory.go\<close>): one definition per method of the
    factory and per loop; the lemmas are split by direction.
  \<^item> \<open>OpenShift_Factory\<close> (\<open>internal/pkg/openshift/config_factory.go\<close>): \<open>Routes\<close>.
  \<^item> \<open>Kube_Sync\<close>, \<open>Kube_Reconcilers\<close> (\<open>internal/pkg/legacy/kube\<close>): the apply and delete loops that the five listing reconcilers share, each
    reconciler, and the manager with its event loop.
  \<^item> \<open>Informer\<close> (\<open>internal/pkg/legacy/informer\<close>): the event handler and the queue controller.
  \<^item> \<open>Adss\<close> (\<open>internal/pkg/legacy/xds/adss\<close>): the discovery server as operations and as a step relation over all interleavings.
  \<^item> \<open>Adsc\<close> (\<open>internal/pkg/legacy/xds/adsc\<close>): the discovery client, likewise.
  \<^item> \<open>Controllers\<close> (\<open>internal/controller\<close>, \<open>api/v1alpha1/meshfederation_types.go\<close>): the controller-runtime side with retries and finalizers.
  \<^item> \<open>Store\<close>, \<open>Api_Deepcopy\<close> (\<open>api/v1alpha1/zz_generated.deepcopy.go\<close>, \<open>federatedservice_types.go\<close>): the deep copies of the API types over an explicit
    store with addresses (locales \<open>deep_copy\<close>, \<open>meta_copies\<close>).
  \<^item> \<open>Scheme\<close> (\<open>api/v1alpha1/groupversion_info.go\<close>, \<open>internal/controller/scheme.go\<close>): the registration of the API types.
  \<^item> \<open>Main_Wiring\<close>, \<open>Startup\<close> (\<open>cmd/federation-controller/main.go\<close>): which parts run, and how the process starts or ends, from the
    arguments of the process on.
  \<^item> \<open>Process\<close> (\<open>cmd/federation-controller/main.go\<close>, \<open>runLegacyMode\<close>): the goroutines of the running process as one step relation (\<open>proc_step\<close>) over
    store, cache, cluster, unsent push requests and the phase of the manager; the contract of a kind of objects that follows
    the store (locale \<open>reconciled_kind\<close>), interpreted for service entries and workload entries.
  \<^item> \<open>Wire\<close>, \<open>Proto_Messages\<close> (\<open>internal/api/federation/v1alpha1/federated_service.pb.go\<close>): the wire format of protocol buffers, the
    struct tags, the serialized descriptor and the type tables of the generated code; a codec that uses the numbers of the
    tags, a concrete instance of the codec that the program takes as an argument.
  \<^item> \<open>Two_Meshes\<close> (\<open>xds/adss/adss_handler.go\<close>, \<open>grpc_server.go\<close>, \<open>informer\<close>): two running meshes as one step relation (\<open>mesh_step\<close>). The exporting side
    (\<open>exporter_step\<close>) has its Service cache, the queue and the worker of its informer, the push loop and the goroutine that answers a
    first request, and the stream to the other mesh, which may break at any time; the importing side is a \<open>Process\<close>.
  \<^item> \<open>Samples\<close>: concrete meshes and Services for the witnesses. This theory: properties that compose the operations of
    two meshes.

  \<^bold>\<open>State and operations.\<close> A struct is a record, a pointer field an \<open>option\<close>, a fixed-width integer a word
  of that width, a map either a partial function or, where the code ranges over it, an association list
  visited in an arbitrary order that is an argument. Stateful code passes its state; the cluster is a type
  variable reached only through the operations of a client. An error return and a panic are values of
  the type \<open>outcome\<close> or of a sum. Sends on channels are lists of push requests in the results.

  \<^bold>\<open>What is shown.\<close> The factories: what they return on every input, in any map order, and when they panic.
  The reconcilers: against a server that is up they succeed and leave exactly the desired labelled
  objects (\<open>synced\<close>), a second run changes nothing, and the exceptions (empty lists, listing errors, the
  label of Routes). The manager: all kinds run, in order, and failures do not stop it. The informer:
  which changes cause which pushes. Server and client: invariants over all interleavings, delivery,
  termination after the context ends, and where subscribers leak or the shutdown hangs. The
  controllers: no update is lost to a racing writer. The deep copies: a copy reads the same and shares
  nothing with its source. The command line: exactly which texts are accepted, what they decode to, that a
  printed configuration is read back and that ports do not wrap around. The wiring: the process starts
  from the arguments the chart writes, imports reach the
  cluster, and which configurations crash it. The running process: in every interleaving of clients, informer, watcher and
  manager the cluster agrees with the store whenever nothing is left to do, the manager gets there by itself, and which
  change of local Services it misses. Two meshes: what one exports is what the other imports, and
  a change of the exports of one mesh travels through informer, server, client, store and manager to
  the cluster of the other. In every interleaving of two running meshes the importing one holds exactly the exports of the other
  whenever nothing is under way, and both can come to rest from every state they reach; this needs that no Service changes
  while a first request is being answered, since an answer that is overtaken by a push leaves the old exports in place, which is shown too.
  The generated code: the descriptor and the struct tags describe the same messages, and messages survive the wire.

  \<^bold>\<open>Bounds and fuel.\<close> All operations are total functions. The scanner of JSON texts ends since every step
  consumes a character; like Go's it refuses more than 10000 nested containers, and configurations nest 8. Only \<open>runWorker\<close> takes fuel, the number of items it
  may process; one more than the length of the queue is enough, since the worker then waits
  (\<open>runWorker_drains\<close>). \<open>attempts\<close> counts the attempts that \<open>RetryOnConflict\<close> grants; the theorems require more attempts
  than lost races. Subscriber numbers are 64-bit words; the invariant of the server holds below $2^{64}$
  connections, and the wrap-around is stated.

  The reader of descriptors follows two levels of nested messages, which is what the file has.

  \<^bold>\<open>Outside the program\<close>, arguments with stated laws: the API server and its clients, the Service cache, DNS, the
  protobuf codec (with its JSON form of a struct), gRPC streams and connections, the work queue, \<open>RetryOnConflict\<close> and \<open>controllerutil\<close>,
  label matching of Kubernetes, clocks, environment variables and files, the flags and the scheme
  of the libraries.

  \<^bold>\<open>Not modelled\<close>: logging and signals; the methods of the generated messages that only call the protobuf
  runtime (reflection, reset, printing, compression of the descriptor); TLS and dial options of connections; tests and build tooling. \<open>Condition\<close> has no
  transition time. Every other function of the program has a definition, apart from two constructors (\<open>NewReconciler\<close>) that only keep a client.

  \<^bold>\<open>Limits of the runs.\<close> In \<open>Two_Meshes\<close> the manager of the exporting mesh takes its requests and does nothing that the other mesh
  sees; updates of a Service that stays exported keep what is exported of it, since the informer does not report them
  (\<open>port_update_not_pushed\<close>); one client is followed, any number of others may be subscribed. Fairness is not assumed: \<open>meshes_settle\<close> gives a
  continuation that comes to rest, not that every continuation does.
\<close>

section \<open>Between two meshes\<close>

text \<open>A response on its way from the generator to the store.\<close>

lemma response_stored:
  assumes "wire_roundtrip (exported_service ` set svcs) marshal unmarshal" and "serves_cache matches svcs lister"
  shows "\<exists>rs store'. GenerateResponse marshal (NewExportedServicesGenerator cfg lister) = Val rs
    \<and> Handle unmarshal store source rs = (store',
        [push_of ServiceEntryTypeUrl, push_of WorkloadEntryTypeUrl, push_of DestinationRuleTypeUrl], None)
    \<and> (\<forall>r. if remote_Name r = source
           then set (From store' r) = exported_service ` {s \<in> set svcs. MatchExportRules matches s (export_selectors cfg)}
           else From store' r = From store r)"
proof -
  let ?exported = "exported_services lister (export_selectors cfg)"
  obtain rs where rs: "serialize marshal (map exported_service ?exported) = Val rs"
    and un: "unmarshal_all unmarshal rs = Val (map exported_service ?exported)"
    using serialize_wire [OF assms(1), of "map exported_service ?exported"] set_exported_services [OF assms(2)] by auto
  have "GenerateResponse marshal (NewExportedServicesGenerator cfg lister) = Val rs"
    using GenerateResponse_eq [OF assms(2)] rs by simp
  moreover have "set (map exported_service ?exported) =
      exported_service ` {s \<in> set svcs. MatchExportRules matches s (export_selectors cfg)}"
    using set_exported_services [OF assms(2)] by simp
  ultimately show ?thesis
    using un by (simp add: Handle_def)
qed

text \<open>
  C7: what one mesh exports is what the other imports. The response of \<open>GenerateResponse\<close>, received by
  \<open>Handle\<close> under the name of the remote, leaves in the store exactly the Services that match an export
  rule, with their host names, ports and labels; other remotes keep their services; and the service
  entries, workload entries and destination rules are asked to be reconciled.
\<close>

theorem export_import_roundtrip:
  assumes "wire_roundtrip (exported_service ` set svcs) marshal unmarshal" and "serves_cache matches svcs lister"
  shows "\<exists>rs store'. GenerateResponse marshal (NewExportedServicesGenerator cfg lister) = Val rs
    \<and> Handle unmarshal store source rs = (store',
        [push_of ServiceEntryTypeUrl, push_of WorkloadEntryTypeUrl, push_of DestinationRuleTypeUrl], None)
    \<and> (\<forall>r. if remote_Name r = source
           then set (From store' r) = exported_service ` {s \<in> set svcs. MatchExportRules matches s (export_selectors cfg)}
           else From store' r = From store r)"
  by (rule response_stored [OF assms])

definition tag_marshal :: marshaller where
  "tag_marshal svc = ([if fs_Hostname svc = ''a.ns1.svc.cluster.local'' then 0 else if fs_Hostname svc = ''b.ns1.svc.cluster.local'' then 1 else 2], None)"

definition tag_unmarshal :: unmarshaller where
  "tag_unmarshal bs = (exported_service (if bs = [0] then svcA_ns1 else if bs = [1] then svcB_ns1 else svcA_ns2), None)"

lemma tag_roundtrip: "wire_roundtrip (exported_service ` set [svcA_ns1, svcB_ns1, svcA_ns2]) tag_marshal tag_unmarshal"
  by (simp add: wire_roundtrip_def tag_marshal_def tag_unmarshal_def)
    (simp add: exported_service_def exported_hostname_def sample_defs)

theorem export_import_roundtrip_witness:
  "\<exists>rs store'. GenerateResponse tag_marshal (NewExportedServicesGenerator (east_cfg Istio []) east_lister) = Val rs
    \<and> Handle tag_unmarshal west_store ''east'' rs = (store',
        [push_of ServiceEntryTypeUrl, push_of WorkloadEntryTypeUrl, push_of DestinationRuleTypeUrl], None)
    \<and> set (From store' (west\<lparr>remote_Name := ''east''\<rparr>)) = {exported_service svcB_ns1, exported_service svcA_ns2}
    \<and> From store' west = [importedA_ns1, importedB_ns1, importedA_ns2]"
proof -
  have "{s \<in> set [svcA_ns1, svcB_ns1, svcA_ns2]. MatchExportRules (\<subseteq>\<^sub>m) s (export_selectors (east_cfg Istio []))} = {svcB_ns1, svcA_ns2}"
    by auto
  then have "exported_service ` {s \<in> set [svcA_ns1, svcB_ns1, svcA_ns2].
      MatchExportRules (\<subseteq>\<^sub>m) s (export_selectors (east_cfg Istio []))} = {exported_service svcB_ns1, exported_service svcA_ns2}"
    by simp
  note at = this [THEN eq_reflection]
  have "remote_Name west \<noteq> ''east''" by (simp add: west_def)
  then show ?thesis
    using export_import_roundtrip [OF tag_roundtrip east_lister_serves, of "east_cfg Istio []" west_store "''east''", unfolded at]
    by fastforce
qed

text \<open>
  C21: the three places that name a service for an OpenShift router agree. For a port of an exported
  Service whose name and namespace have no dot, the SNI that the importing mesh sets in its
  destination rule is the host of the Route and the server name in the envoy filter patch of the
  exporting mesh. The port numbers must be non-negative as \<open>int32\<close>: the Route prints them signed.
\<close>

theorem router_names_agree:
  assumes "CHR ''.'' \<notin> set (svc_Name svc)" and "CHR ''.'' \<notin> set (svc_Namespace svc)"
    and "p \<in> set (svc_Ports svc)" and "0 \<le> sint (core_Port p)"
    and "createRoute rf (svc_Name svc) (svc_Namespace svc) (core_Port p) = Val rt"
    and "createEnvoyFilter u cf (svc_Name svc) (svc_Namespace svc) (core_Port p) = Val ef"
  shows "\<exists>dr. dr_for_service cf' (exported_service svc) = Val dr
    \<and> \<lparr>ptp_Port = core_Port p, ptp_Tls = \<lparr>ctls_Mode = ISTIO_MUTUAL, ctls_Sni = rt_Host (ko_Spec rt)\<rparr>\<rparr>
        \<in> set (tp_PortLevelSettings (dr_TrafficPolicy (ko_Spec dr)))
    \<and> map ep_Value (ef_ConfigPatches (ko_Spec ef)) = [buildPatchStruct u (patch_text (rt_Host (ko_Spec rt)))]"
proof -
  have host: "rt_Host (ko_Spec rt) = routerCompatibleSNI (svc_Name svc) (svc_Namespace svc) (core_Port p)"
    using assms(5) by (auto simp: createRoute_def outcome_simps routerCompatibleSNI_def fmt_int32_nonneg [OF assms(4)])
  have "getServiceNameAndNs (fs_Hostname (exported_service svc)) = Val (svc_Name svc, svc_Namespace svc)"
    using getServiceNameAndNs_exported [OF assms(1,2)] by (simp add: exported_service_def)
  from dr_for_service_Val [OF this, of cf'] assms(3,6) show ?thesis
    by (auto simp: host createEnvoyFilter_def outcome_simps exported_service_def exported_port_def)
qed

theorem router_names_agree_witness:
  "\<exists>dr rt. createRoute (NewRouteFactory (east_cfg OpenShiftRouter []) east_lister) ''b'' ''ns1'' 443 = Val rt
    \<and> dr_for_service (sample_factory [west]) (exported_service svcB_ns1) = Val dr
    \<and> \<lparr>ptp_Port = 443, ptp_Tls = \<lparr>ctls_Mode = ISTIO_MUTUAL, ctls_Sni = rt_Host (ko_Spec rt)\<rparr>\<rparr>
        \<in> set (tp_PortLevelSettings (dr_TrafficPolicy (ko_Spec dr)))"
proof -
  let ?rf = "NewRouteFactory (east_cfg OpenShiftRouter []) east_lister" and ?u = "\<lambda>s. (JString s, None)"
  obtain rt where rt: "createRoute ?rf (svc_Name svcB_ns1) (svc_Namespace svcB_ns1) (core_Port https_port) = Val rt"
    by (simp add: createRoute_def NewRouteFactory_def east_cfg_def)
  obtain ef where "createEnvoyFilter ?u (sample_factory []) (svc_Name svcB_ns1) (svc_Namespace svcB_ns1) (core_Port https_port) = Val ef"
    by (simp add: createEnvoyFilter_def) (simp add: east_cfg_def)
  moreover have "https_port \<in> set (svc_Ports svcB_ns1)" "CHR ''.'' \<notin> set (svc_Name svcB_ns1)"
    "CHR ''.'' \<notin> set (svc_Namespace svcB_ns1)" "0 \<le> sint (core_Port https_port)"
    by (simp_all add: svcB_ns1_def https_port_def)
  ultimately show ?thesis
    using router_names_agree [OF _ _ _ _ rt, of ?u "sample_factory []" _ "sample_factory [west]"] rt
    by (auto simp: svcB_ns1_def https_port_def)
qed

lemma client_message:
  assumes "acfg_Handlers (adsc_cfg a) = [(ExportedServiceTypeUrl, imported_service_handler unmarshal)]"
    and "unmarshal_all unmarshal rs = Val svcs"
  shows "\<exists>sent'. handle_message a ExportedServiceTypeUrl rs (store, sent) = (Update store (acfg_RemoteName (adsc_cfg a)) svcs, sent')"
  using assms by (simp add: handle_message_def imported_service_handler_def Handle_def)

text \<open>
  C8: the first exchange of two meshes. A client whose stream opens sends one request for exported
  services; the server answers it with a snapshot; and the client leaves in its store, under the name of
  the remote, exactly the Services of the other mesh that match an export rule.
\<close>

theorem initial_sync:
  assumes wire: "wire_roundtrip (exported_service ` set svcs) marshal unmarshal" and cache: "serves_cache matches svcs lister"
    and handlers: "acfg_Handlers (adsc_cfg a) = [(ExportedServiceTypeUrl, imported_service_handler unmarshal)]"
    and opened: "ce_openStream cenv (adsc_conn a) = Inr st" and sends: "\<And>s req. ce_sendErr cenv s req = None"
    and order: "is_order (ce_order cenv)" and answers: "se_sendErr senv down = None"
    and name: "remote_Name r = acfg_RemoteName (adsc_cfg a)"
  shows "\<exists>a' req resp store' sent'. client_Run cenv a = Val (a', [req], None)
    \<and> handle_request senv lister (NewServer [export_handler marshal cfg]) down req = Val [(down, resp)]
    \<and> handle_message a' (resp_TypeUrl resp) (resp_Resources resp) (store, sent) = (store', sent')
    \<and> set (From store' r) = exported_service ` {s \<in> set svcs. MatchExportRules matches s (export_selectors cfg)}"
proof -
  let ?exported = "map exported_service (exported_services lister (export_selectors cfg))"
  let ?req = "\<lparr>req_TypeUrl = ExportedServiceTypeUrl, req_VersionInfo = [], req_ResponseNonce = ce_now cenv ExportedServiceTypeUrl\<rparr>"
  have one: "ce_order cenv [x] = [x]" for x
    using order unfolding is_order_def by (metis mset_single_iff mset.simps(1,2))
  have run: "client_Run cenv a = Val (a\<lparr>adsc_stream := Some st\<rparr>, [?req], None)"
    using opened sends handlers by (simp add: client_Run_def one Send_def Let_def)
  obtain rs where rs: "serialize marshal ?exported = Val rs" and un: "unmarshal_all unmarshal rs = Val ?exported"
    using serialize_wire [OF wire, of ?exported] set_exported_services [OF cache] by auto
  have gen: "generateResources lister (NewServer [export_handler marshal cfg]) ExportedServiceTypeUrl = Val (rs, None)"
    using GenerateResponse_eq [OF cache] rs by (simp add: generateResources_def NewServer_export_handler)
  then obtain resp where resp: "handle_request senv lister (NewServer [export_handler marshal cfg]) down ?req = Val [(down, resp)]"
    and res: "resp_TypeUrl resp = ExportedServiceTypeUrl" "resp_Resources resp = rs"
    using answers by (simp add: handle_request_def sendToStream_def)
  obtain sent' where "handle_message (a\<lparr>adsc_stream := Some st\<rparr>) (resp_TypeUrl resp) (resp_Resources resp) (store, sent) =
      (Update store (acfg_RemoteName (adsc_cfg a)) ?exported, sent')"
    unfolding res using client_message [OF _ un, of "a\<lparr>adsc_stream := Some st\<rparr>"] handlers by auto
  moreover have "set (From (Update store (acfg_RemoteName (adsc_cfg a)) ?exported) r) =
      exported_service ` {s \<in> set svcs. MatchExportRules matches s (export_selectors cfg)}"
    using name set_exported_services [OF cache] by simp
  ultimately show ?thesis
    using run resp by blast
qed

definition accepting_env :: client_env where
  "accepting_env = refusing_env\<lparr>ce_openStream := (\<lambda>_. Inr 0)\<rparr>"

theorem initial_sync_witness:
  "\<exists>a' req resp store' sent'. client_Run accepting_env (import_client tag_unmarshal) = Val (a', [req], None)
    \<and> handle_request sample_env east_lister (NewServer [export_handler tag_marshal (east_cfg Istio [])]) 0 req = Val [(0, resp)]
    \<and> handle_message a' (resp_TypeUrl resp) (resp_Resources resp) (west_store, []) = (store', sent')
    \<and> set (From store' west) = exported_service ` {s \<in> set [svcA_ns1, svcB_ns1, svcA_ns2].
        MatchExportRules (\<subseteq>\<^sub>m) s (export_selectors (east_cfg Istio []))}"
  by (rule initial_sync [OF tag_roundtrip east_lister_serves, where st = 0])
    (simp_all add: import_client_def accepting_env_def refusing_env_def sample_env_def west_def)

text \<open>
  C30: the same exchange when the exporting mesh cannot read its Service cache. The server answers with an
  empty list, which the client takes for the truth: all services imported from that mesh are dropped
  from the store.
\<close>

theorem exporter_failure_drops_imports:
  assumes handlers: "acfg_Handlers (adsc_cfg a) = [(ExportedServiceTypeUrl, imported_service_handler unmarshal)]"
    and broken: "export_selectors cfg = sel # sels" "lister_List lister (ls_MatchLabels sel) = (found, Some err)"
    and answers: "se_sendErr senv down = None" and name: "remote_Name r = acfg_RemoteName (adsc_cfg a)"
  shows "\<exists>resp store' sent'. handle_request senv lister (NewServer [export_handler marshal cfg]) down
        \<lparr>req_TypeUrl = ExportedServiceTypeUrl, req_VersionInfo = [], req_ResponseNonce = nonce\<rparr> = Val [(down, resp)]
    \<and> handle_message a (resp_TypeUrl resp) (resp_Resources resp) (store, sent) = (store', sent') \<and> From store' r = []"
proof -
  have "GenerateResponse marshal (NewExportedServicesGenerator cfg lister) = Fail (Wrap ''failed to list services'' err)"
    by (simp add: GenerateResponse_def NewExportedServicesGenerator_def broken)
  then have "\<exists>e. generateResources lister (NewServer [export_handler marshal cfg]) ExportedServiceTypeUrl = Val ([], Some e)"
    by (simp add: generateResources_def NewServer_export_handler)
  then obtain resp where resp: "handle_request senv lister (NewServer [export_handler marshal cfg]) down
        \<lparr>req_TypeUrl = ExportedServiceTypeUrl, req_VersionInfo = [], req_ResponseNonce = nonce\<rparr> = Val [(down, resp)]"
    and res: "resp_TypeUrl resp = ExportedServiceTypeUrl" "resp_Resources resp = []"
    using answers by (auto simp: handle_request_def sendToStream_def)
  obtain sent' where "handle_message a ExportedServiceTypeUrl [] (store, sent) = (Update store (acfg_RemoteName (adsc_cfg a)) [], sent')"
    using client_message [OF handlers, of "[]" "[]"] by auto
  with resp res name show ?thesis by auto
qed

theorem exporter_failure_drops_imports_witness:
  "\<exists>resp store' sent'. handle_request sample_env (east_lister\<lparr>lister_List := (\<lambda>_. ([], Some (Other ''cache'')))\<rparr>)
        (NewServer [export_handler tag_marshal (east_cfg Istio [])]) 0
        \<lparr>req_TypeUrl = ExportedServiceTypeUrl, req_VersionInfo = [], req_ResponseNonce = []\<rparr> = Val [(0, resp)]
    \<and> handle_message (import_client tag_unmarshal) (resp_TypeUrl resp) (resp_Resources resp) (west_store, []) = (store', sent')
    \<and> From west_store west \<noteq> [] \<and> From store' west = []"
proof -
  have "\<exists>resp store' sent'. handle_request sample_env (east_lister\<lparr>lister_List := (\<lambda>_. ([], Some (Other ''cache'')))\<rparr>)
        (NewServer [export_handler tag_marshal (east_cfg Istio [])]) 0
        \<lparr>req_TypeUrl = ExportedServiceTypeUrl, req_VersionInfo = [], req_ResponseNonce = []\<rparr> = Val [(0, resp)]
    \<and> handle_message (import_client tag_unmarshal) (resp_TypeUrl resp) (resp_Resources resp) (west_store, []) = (store', sent')
    \<and> From store' west = []"
    by (rule exporter_failure_drops_imports [where sel = export_true and sels = "[]" and found = "[]" and err = "Other ''cache''"])
      (simp_all add: import_client_def sample_env_def west_def)
  then show ?thesis by simp
qed

section \<open>From a Service of one mesh to the cluster of the other\<close>

lemma all_dotted_import:
  assumes "all_dotted (factory_of cfg ns w)" and "\<forall>svc \<in> set svcs. CHR ''.'' \<in> set (fs_Hostname svc)"
  shows "all_dotted (factory_of cfg ns (w\<lparr>w_store := Update (w_store w) source svcs\<rparr>))"
proof -
  have "set (From (Update (w_store w) source svcs) r) \<subseteq> set (From (w_store w) r) \<union> set svcs" for r
    by (auto simp: From_def Update_def split: option.splits if_splits)
  with assms show ?thesis by (fastforce simp: all_dotted_def factory_of_def)
qed

text \<open>
  C3: the path through the whole system. A change of a Service that adds it to the exported ones or takes
  it away is queued in mesh \<open>E\<close>. The worker asks for a push; the discovery server of \<open>E\<close>, in any state it
  can reach, delivers the exported services to every connected client whose stream works; the client in
  mesh \<open>W\<close> stores exactly the Services that match an export rule of \<open>E\<close>; and the manager of \<open>W\<close> then leaves
  in its cluster exactly the service entries and workload entries generated from this store.
\<close>

theorem export_change_reaches_peer:
  assumes queue: "work_queue ops pending shutting" "c_queue c = ops" "c_eventHandlers c = [NewServiceExportEventHandler matchesE cfgE]"
      "pending q = [event_of resourceType k ch]" "export_changed matchesE (export_selectors cfgE) ch"
    and wire: "wire_roundtrip (exported_service ` set svcs) marshal unmarshal" and cache: "serves_cache matchesE svcs lister"
    and server: "server_reachable [export_handler marshal cfgE] s" "ss_connects s < 2 ^ 64" "ss_phase s = Serving"
      "is_order (se_order senv)" "st \<in> ss_open s" "se_sendErr senv st = None"
    and client: "acfg_Handlers (adsc_cfg a) = [(ExportedServiceTypeUrl, imported_service_handler unmarshal)]"
      "remote_Name r = acfg_RemoteName (adsc_cfg a)"
    and se: "resource_sync_up (api_ServiceEntries api) viewS conformsS ''ServiceEntry'' networking_v1alpha3"
    and we: "resource_sync_up (api_WorkloadEntries api) viewW conformsW ''WorkloadEntry'' networking_v1alpha3"
    and dr: "resource_sync_up (api_DestinationRules api) viewD conformsD ''DestinationRule'' networking_v1alpha3"
    and keepS: "keeps_view (api_WorkloadEntries api) viewS" "keeps_view (api_DestinationRules api) viewS"
    and keepW: "keeps_view (api_ServiceEntries api) viewW" "keeps_view (api_DestinationRules api) viewW"
    and ord: "is_order (api_entryOrder api)" and cacheW: "serves_cache matchesW svcsW (w_lister w)"
    and dotted: "all_dotted (factory_of cfgW ns w)"
  shows "\<exists>q' sent res resp store' pushes w' ses wes.
      runWorker 2 c q [] = (q', sent, Val (\<not> shutting q)) \<and> (FdsPushRequests, push_of ExportedServiceTypeUrl) \<in> set sent
    \<and> push senv lister (ss_ads s) (push_of ExportedServiceTypeUrl) = Val (res, None) \<and> (st, resp) \<in> set (pres_sent res)
    \<and> handle_message a (resp_TypeUrl resp) (resp_Resources resp) (w_store w, []) = (store', pushes)
    \<and> set (From store' r) = exported_service ` {svc \<in> set svcs. MatchExportRules matchesE svc (export_selectors cfgE)}
    \<and> Start (NewReconcilerManager (reconcilers_for api cfgW ns)) (map PushReceived pushes) (w\<lparr>w_store := store'\<rparr>) = (w', Val True)
    \<and> ServiceEntries (api_entryOrder api) (factory_of cfgW ns w') = Val ses
    \<and> WorkloadEntries (api_lookupIP api) (factory_of cfgW ns w') = Val wes
    \<and> synced conformsS peer_labels ses (viewS (w_cluster w)) (viewS (w_cluster w'))
    \<and> synced conformsW peer_labels wes (viewW (w_cluster w)) (viewW (w_cluster w'))"
proof -
  let ?url = ExportedServiceTypeUrl and ?name = "acfg_RemoteName (adsc_cfg a)"
  let ?exported = "map exported_service (exported_services lister (export_selectors cfgE))"
  obtain q' where run: "runWorker 2 c q [] = (q', export_pushes, Val (\<not> shutting q))"
    using runWorker_changes [OF queue(1-3), of q resourceType "[(k, ch)]"] queue(4,5) by (auto simp: numeral_2_eq_2 simp del: runWorker.simps)
  obtain rs where rs: "serialize marshal ?exported = Val rs" and un: "unmarshal_all unmarshal rs = Val ?exported"
    using serialize_wire [OF wire, of ?exported] set_exported_services [OF cache] by auto
  have gen: "generateResources lister (ss_ads s) ?url = Val (rs, None)"
    using GenerateResponse_eq [OF cache] rs
    by (simp add: generateResources_def server_reachable_handlers [OF server(1)] NewServer_export_handler)
  from push_delivers [OF server(1-4) gen server(5,6)] obtain res where res: "push senv lister (ss_ads s) (push_of ?url) = Val (res, None)"
    "(st, push_response senv st ?url rs) \<in> set (pres_sent res)" by blast
  have handle: "Handle unmarshal (w_store w) ?name rs = (Update (w_store w) ?name ?exported,
      [push_of ServiceEntryTypeUrl, push_of WorkloadEntryTypeUrl, push_of DestinationRuleTypeUrl], None)"
    using un by (simp add: Handle_def)
  then have message: "handle_message a ?url rs (w_store w, []) = (Update (w_store w) ?name ?exported,
      [push_of ServiceEntryTypeUrl, push_of WorkloadEntryTypeUrl, push_of DestinationRuleTypeUrl])"
    using client(1) by (simp add: handle_message_def imported_service_handler_def)
  have "all_dotted (factory_of cfgW ns (w\<lparr>w_store := Update (w_store w) ?name ?exported\<rparr>))"
    by (rule all_dotted_import [OF dotted]) (auto simp: exported_service_dotted)
  from import_synced [OF se we dr keepS keepW ord cacheW handle this] obtain w' ses wes where
    "Start (NewReconcilerManager (reconcilers_for api cfgW ns)) (map PushReceived
        [push_of ServiceEntryTypeUrl, push_of WorkloadEntryTypeUrl, push_of DestinationRuleTypeUrl])
        (w\<lparr>w_store := Update (w_store w) ?name ?exported\<rparr>) = (w', Val True)
      \<and> ServiceEntries (api_entryOrder api) (factory_of cfgW ns w') = Val ses
      \<and> WorkloadEntries (api_lookupIP api) (factory_of cfgW ns w') = Val wes
      \<and> synced conformsS peer_labels ses (viewS (w_cluster w)) (viewS (w_cluster w'))
      \<and> synced conformsW peer_labels wes (viewW (w_cluster w)) (viewW (w_cluster w'))" by blast
  moreover have "set (From (Update (w_store w) ?name ?exported) r) =
      exported_service ` {svc \<in> set svcs. MatchExportRules matchesE svc (export_selectors cfgE)}"
    using client(2) set_exported_services [OF cache] by simp
  moreover have "(FdsPushRequests, push_of ?url) \<in> set export_pushes" by (simp add: export_pushes_def)
  moreover have "resp_TypeUrl (push_response senv st ?url rs) = ?url" "resp_Resources (push_response senv st ?url rs) = rs"
    by (simp_all add: push_response_def)
  ultimately show ?thesis
    using run res message
    by (intro exI [of _ q'] exI [of _ export_pushes] exI [of _ res] exI [of _ "push_response senv st ?url rs"]
        exI [of _ "Update (w_store w) ?name ?exported"] exI [of _ "[push_of ServiceEntryTypeUrl, push_of WorkloadEntryTypeUrl, push_of DestinationRuleTypeUrl]"]
        exI [of _ w'] exI [of _ ses] exI [of _ wes]) (simp only: simp_thms)
qed

theorem export_change_reaches_peer_witness:
  "\<exists>q' sent s res resp store' pushes w' ses wes.
      runWorker 2 east_controller \<lparr>fifo_items = [event_of ''Service'' ''ns1/b'' (Created svcB_ns1)], fifo_shut = False\<rparr> [] = (q', sent, Val True)
    \<and> (FdsPushRequests, push_of ExportedServiceTypeUrl) \<in> set sent
    \<and> server_reachable [export_handler tag_marshal (east_cfg Istio [])] s
    \<and> push sample_env east_lister (ss_ads s) (push_of ExportedServiceTypeUrl) = Val (res, None) \<and> (0, resp) \<in> set (pres_sent res)
    \<and> handle_message (import_client tag_unmarshal) (resp_TypeUrl resp) (resp_Resources resp) (w_store sample_world, []) = (store', pushes)
    \<and> Start (NewReconcilerManager (reconcilers_for memory_api (east_cfg OpenShiftRouter [west]) ''istio-system'')) (map PushReceived pushes)
        (sample_world\<lparr>w_store := store'\<rparr>) = (w', Val True)
    \<and> ServiceEntries rev (factory_of (east_cfg OpenShiftRouter [west]) ''istio-system'' w') = Val ses
    \<and> synced (=) peer_labels ses (memory_view [stale_entry]) (memory_view (cl_ServiceEntries (w_cluster w')))"
proof -
  let ?s = "\<lparr>ss_ads = (NewServer [export_handler tag_marshal (east_cfg Istio [])])\<lparr>ads_nextSubscriberID := 1, ads_subscribers := [(1, 0)]\<rparr>,
     ss_phase = Serving, ss_open = {0}, ss_out = [], ss_connects = 1\<rparr>"
  let ?q = "\<lparr>fifo_items = [event_of ''Service'' ''ns1/b'' (Created svcB_ns1)], fifo_shut = False\<rparr>"
  have queue: "c_queue east_controller = fifo_ops" "c_eventHandlers east_controller = [NewServiceExportEventHandler (\<subseteq>\<^sub>m) (east_cfg Istio [])]"
    "fifo_items ?q = [event_of ''Service'' ''ns1/b'' (Created svcB_ns1)]"
    "export_changed (\<subseteq>\<^sub>m) (export_selectors (east_cfg Istio [])) (Created svcB_ns1)"
    by (simp_all add: east_controller_def)
  have server: "server_reachable [export_handler tag_marshal (east_cfg Istio [])] ?s" by (rule reachable_connected)
  have facts: "ss_connects ?s < 2 ^ 64" "ss_phase ?s = Serving" "is_order (se_order sample_env)" "0 \<in> ss_open ?s" "se_sendErr sample_env 0 = None"
    by (simp_all add: sample_env_def)
  have client: "acfg_Handlers (adsc_cfg (import_client tag_unmarshal)) = [(ExportedServiceTypeUrl, imported_service_handler tag_unmarshal)]"
    "remote_Name west = acfg_RemoteName (adsc_cfg (import_client tag_unmarshal))"
    by (simp_all add: import_client_def west_def)
  have order: "is_order (api_entryOrder memory_api)" by simp
  have cacheW: "serves_cache (\<subseteq>\<^sub>m) [svcA_ns1] (w_lister sample_world)" by (simp add: sample_world_def plain_lister_serves)
  have dotted: "all_dotted (factory_of (east_cfg OpenShiftRouter [west]) ''istio-system'' sample_world)"
    by (simp add: all_dotted_def factory_of_def sample_world_def)
  note r = export_change_reaches_peer [where pending = fifo_items and shutting = fifo_shut and q = ?q and s = ?s and st = 0 and w = sample_world
      and viewS = "\<lambda>c. memory_view (cl_ServiceEntries c)" and viewW = "\<lambda>c. memory_view (cl_WorkloadEntries c)"
      and viewD = "\<lambda>c. memory_view (cl_DestinationRules c)" and ch = "Created svcB_ns1" and k = "''ns1/b''" and resourceType = "''Service''",
      OF fifo_queue.work_queue_axioms queue tag_roundtrip east_lister_serves server facts client
      memory_api_up(6,7,1) memory_api_keeps order cacheW dotted]
  have eqs: "fifo_shut ?q = False" "api_entryOrder memory_api = rev" "cl_ServiceEntries (w_cluster sample_world) = [stale_entry]"
    by (simp_all add: sample_world_def)
  from r server show ?thesis unfolding eqs simp_thms
    by (elim exE conjE) ((rule exI)+, (rule conjI, assumption)+, assumption)
qed

end
